(* ===== verification/Prelude.thy ===== *)
theory Prelude
  imports Main "HOL-Library.Word" "HOL-Library.Multiset" "HOL-Library.AList"
    "HOL-Library.List_Lexorder" "HOL-Library.Char_ord"
begin

text \<open>
  What the component theories share: the machine types of the Go program, Go maps and the order
  in which a range loop visits them, and the contract of \<^verbatim>\<open>sort.Slice\<close>.

  \<^item> Go strings are byte strings: \<open>string\<close> (a list of 8-bit characters), compared bytewise, as the
    order of \<open>List_Lexorder\<close> over \<open>Char_ord\<close> does.
  \<^item> \<open>int64\<close> and \<open>uint32\<close> are words; \<open>int64\<close> values are compared and printed as signed.
  \<^item> A Go map is an association list with distinct keys; the list order stands for nothing, because
    every range loop takes its own iteration order as an argument (any permutation of the entries).
  \<^item> \<open>sort_slice\<close> is the insertion sort \<^verbatim>\<open>sort.Slice\<close> runs on short slices. The locale
    \<open>slice_order\<close> shows what it promises and when that determines the result, so that
    nothing a page shows depends on the sorting algorithm.
\<close>

named_theorems go_defs \<open>definitions of small Go library routines\<close>

type_synonym gostring = string
type_synonym int64 = "64 word"
type_synonym uint32 = "32 word"

section \<open>Go maps\<close>

type_synonym ('k, 'v) gomap = "('k \<times> 'v) list"

definition gm_empty :: "('k, 'v) gomap" where
  "gm_empty = []"

definition gm_get :: "('k, 'v) gomap \<Rightarrow> 'k \<Rightarrow> 'v option" where
  "gm_get m k = map_of m k"

definition gm_set :: "'k \<Rightarrow> 'v \<Rightarrow> ('k, 'v) gomap \<Rightarrow> ('k, 'v) gomap" where
  "gm_set k v m = AList.update k v m"

definition gm_keys :: "('k, 'v) gomap \<Rightarrow> 'k list" where
  "gm_keys m = map fst m"

definition gm_wf :: "('k, 'v) gomap \<Rightarrow> bool" where
  "gm_wf m \<longleftrightarrow> distinct (map fst m)"

text \<open>\<^verbatim>\<open>m[k]\<close> where the element type is a slice: a missing key reads as the nil slice.\<close>

definition gm_slice :: "('k, 'a list) gomap \<Rightarrow> 'k \<Rightarrow> 'a list" where
  "gm_slice m k = (case gm_get m k of None \<Rightarrow> [] | Some xs \<Rightarrow> xs)"

text \<open>\<^verbatim>\<open>m[k] = append(m[k], x)\<close>\<close>

definition gm_append :: "'k \<Rightarrow> 'a \<Rightarrow> ('k, 'a list) gomap \<Rightarrow> ('k, 'a list) gomap" where
  "gm_append k x m = gm_set k (gm_slice m k @ [x]) m"

text \<open>
  What a client of a map relies on: a lookup after an insertion, the key set, and an invariant all
  operations keep. Building a map by a loop of insertions, and grouping values into slices, are
  proved from these laws alone.
\<close>

locale keyed_store =
  fixes empty :: 'm
    and get :: "'m \<Rightarrow> 'k \<Rightarrow> 'v option"
    and put :: "'k \<Rightarrow> 'v \<Rightarrow> 'm \<Rightarrow> 'm"
    and keys :: "'m \<Rightarrow> 'k list"
    and wf :: "'m \<Rightarrow> bool"
  assumes get_empty: "get empty k = None"
    and get_put: "get (put k v m) k' = (if k' = k then Some v else get m k')"
    and keys_get: "k \<in> set (keys m) \<longleftrightarrow> get m k \<noteq> None"
    and wf_empty: "wf empty"
    and wf_put: "wf m \<Longrightarrow> wf (put k v m)"
    and wf_keys: "wf m \<Longrightarrow> distinct (keys m)"
begin

definition put_all :: "('k \<times> 'v) list \<Rightarrow> 'm \<Rightarrow> 'm" where
  "put_all kvs m = fold (\<lambda>(k, v). put k v) kvs m"

lemma put_all_Nil: "put_all [] m = m"
  by (simp add: put_all_def)

lemma put_all_append: "put_all (xs @ ys) m = put_all ys (put_all xs m)"
  by (simp add: put_all_def)

lemma get_put_all: "get (put_all kvs m) k = (case map_of (rev kvs) k of None \<Rightarrow> get m k | Some v \<Rightarrow> Some v)"
  by (induction kvs arbitrary: m)
    (auto simp: put_all_def get_put map_add_def split: option.splits)

lemma wf_put_all: "wf m \<Longrightarrow> wf (put_all kvs m)"
  by (induction kvs arbitrary: m) (auto simp: put_all_def wf_put)

lemma get_built: "get (put_all kvs empty) k = map_of (rev kvs) k"
  by (simp add: get_put_all get_empty split: option.splits)

lemma set_keys_built: "set (keys (put_all kvs empty)) = fst ` set kvs"
proof -
  have "k \<in> set (keys (put_all kvs empty)) \<longleftrightarrow> k \<in> fst ` set kvs" for k
    using map_of_eq_None_iff [of "rev kvs" k] by (simp add: keys_get get_built)
  then show ?thesis by blast
qed

end

interpretation gm: keyed_store gm_empty gm_get gm_set gm_keys gm_wf
proof
  show "distinct (gm_keys m)" if "gm_wf m" for m :: "('a, 'b) gomap"
    using that by (simp add: gm_keys_def gm_wf_def)
qed (auto simp: gm_empty_def gm_get_def gm_set_def gm_keys_def gm_wf_def update_conv'
    distinct_update map_of_eq_None_iff)

text \<open>
  \<^verbatim>\<open>for k, v := range m\<close> visits the entries of \<open>m\<close> in an order the language leaves open: an
  iteration order maps the entries to the order in which this loop sees them.
\<close>

type_synonym ('k, 'v) range_order = "('k, 'v) gomap \<Rightarrow> ('k \<times> 'v) list"

definition fair_order :: "('a list \<Rightarrow> 'a list) \<Rightarrow> bool" where
  "fair_order f \<longleftrightarrow> (\<forall>xs. mset (f xs) = mset xs)"

lemma fair_order_mset [simp]: "fair_order f \<Longrightarrow> mset (f xs) = mset xs"
  by (simp add: fair_order_def)

lemma fair_order_set [simp]: "fair_order f \<Longrightarrow> set (f xs) = set xs"
  by (metis fair_order_mset set_mset_mset)

lemma fair_order_distinct [simp]: "fair_order f \<Longrightarrow> distinct (f xs) = distinct xs"
  by (metis fair_order_mset mset_eq_imp_distinct_iff)

lemma fair_order_id [simp]: "fair_order id"
  by (simp add: fair_order_def)

lemma fair_order_ident [simp]: "fair_order (\<lambda>xs. xs)"
  by (simp add: fair_order_def)

lemma fair_order_rev [simp]: "fair_order rev"
  by (simp add: fair_order_def)

text \<open>\<^verbatim>\<open>map[K]bool\<close> used as a set: the keys set to true, each once.\<close>

definition gs_add :: "'k \<Rightarrow> 'k list \<Rightarrow> 'k list" where
  "gs_add k s = (if k \<in> set s then s else s @ [k])"

definition gs_add_all :: "'k list \<Rightarrow> 'k list \<Rightarrow> 'k list" where
  "gs_add_all ks s = fold gs_add ks s"

lemma set_gs_add [simp]: "set (gs_add k s) = insert k (set s)"
  by (auto simp: gs_add_def)

lemma distinct_gs_add [simp]: "distinct s \<Longrightarrow> distinct (gs_add k s)"
  by (simp add: gs_add_def)

lemma set_gs_add_all [simp]: "set (gs_add_all ks s) = set ks \<union> set s"
  by (induction ks arbitrary: s) (auto simp: gs_add_all_def)

lemma distinct_gs_add_all [simp]: "distinct s \<Longrightarrow> distinct (gs_add_all ks s)"
  by (induction ks arbitrary: s) (auto simp: gs_add_all_def)

section \<open>Grouping values by key\<close>

definition group_by :: "('a \<Rightarrow> 'k) \<Rightarrow> ('a \<Rightarrow> 'b) \<Rightarrow> 'a list \<Rightarrow> ('k, 'b list) gomap \<Rightarrow> ('k, 'b list) gomap" where
  "group_by key val xs m = fold (\<lambda>x. gm_append (key x) (val x)) xs m"

lemma gm_slice_append: "gm_slice (gm_append k x m) k' = gm_slice m k' @ (if k' = k then [x] else [])"
  by (simp add: gm_slice_def gm_append_def gm.get_put)

lemma gm_slice_group_by: "gm_slice (group_by key val xs m) k = gm_slice m k @ map val (filter (\<lambda>x. key x = k) xs)"
  by (induction xs arbitrary: m) (auto simp: group_by_def gm_slice_append)

lemma gm_get_append: "gm_get (gm_append k x m) k' = (if k' = k then Some (gm_slice m k @ [x]) else gm_get m k')"
  by (simp add: gm_append_def gm.get_put)

lemma gm_wf_append: "gm_wf m \<Longrightarrow> gm_wf (gm_append k x m)"
  by (simp add: gm_append_def gm.wf_put)

lemma gm_wf_group_by: "gm_wf m \<Longrightarrow> gm_wf (group_by key val xs m)"
  by (induction xs arbitrary: m) (auto simp: group_by_def gm_wf_append)

lemma gm_get_group_by:
  "gm_get (group_by key val xs m) k =
     (if k \<in> key ` set xs then Some (gm_slice m k @ map val (filter (\<lambda>x. key x = k) xs)) else gm_get m k)"
proof (induction xs arbitrary: m)
  case Nil
  then show ?case by (simp add: group_by_def)
next
  case (Cons x xs)
  have step: "group_by key val (x # xs) m = group_by key val xs (gm_append (key x) (val x) m)"
    by (simp add: group_by_def)
  show ?case
  proof (cases "k \<in> key ` set xs")
    case True
    then show ?thesis by (auto simp: step Cons.IH gm_slice_append)
  next
    case False
    then have "filter (\<lambda>y. key y = k) xs = []" by (auto simp: filter_empty_conv)
    with False show ?thesis by (auto simp: step Cons.IH gm_get_append)
  qed
qed

text \<open>Grouping keeps every value, once.\<close>

lemma group_entries_concat:
  "mset (concat (map snd (group_by key val xs m))) = mset (concat (map snd m)) + mset (map val xs)" if "gm_wf m"
  using that
proof (induction xs arbitrary: m)
  case Nil
  then show ?case by (simp add: group_by_def)
next
  case (Cons x xs)
  have app: "mset (concat (map snd (gm_append k y m))) = mset (concat (map snd m)) + {#y#}" for k y
  proof -
    have "mset (concat (map snd (AList.update k (gm_slice n k @ [y]) n))) = mset (concat (map snd n)) + {#y#}"
      if "distinct (map fst n)" for n
      using that
    proof (induction n)
      case Nil
      then show ?case by (simp add: gm_slice_def gm_get_def)
    next
      case (Cons e n)
      have "gm_slice (e # n) k = (if fst e = k then snd e else gm_slice n k)"
        by (cases e) (simp add: gm_slice_def gm_get_def)
      then show ?case using Cons by (cases e) auto
    qed
    then show ?thesis using Cons.prems by (simp add: gm_append_def gm_set_def gm_wf_def)
  qed
  have "group_by key val (x # xs) m = group_by key val xs (gm_append (key x) (val x) m)"
    by (simp add: group_by_def)
  then show ?case using Cons.IH [OF gm_wf_append [OF Cons.prems]] app by simp
qed

lemma gm_entries_iff: "gm_wf m \<Longrightarrow> (k, v) \<in> set m \<longleftrightarrow> gm_get m k = Some v"
  by (simp add: gm_wf_def gm_get_def)

lemma gm_wf_distinct: "gm_wf m \<Longrightarrow> distinct m"
  by (simp add: gm_wf_def distinct_map)

lemma gm_mset_eqI:
  assumes "gm_wf m" and "gm_wf m'" and "\<And>k. gm_get m k = gm_get m' k"
  shows "mset m = mset m'"
proof -
  have "set m = set m'" using assms by (auto simp: gm_entries_iff)
  with assms(1,2) show ?thesis by (metis gm_wf_distinct set_eq_iff_mset_eq_distinct)
qed

section \<open>sort.Slice\<close>

fun insert_by :: "('a \<Rightarrow> 'a \<Rightarrow> bool) \<Rightarrow> 'a \<Rightarrow> 'a list \<Rightarrow> 'a list" where
  "insert_by lt x [] = [x]"
| "insert_by lt x (y # ys) = (if lt x y then x # y # ys else y # insert_by lt x ys)"

definition sort_slice :: "('a \<Rightarrow> 'a \<Rightarrow> bool) \<Rightarrow> 'a list \<Rightarrow> 'a list" where
  "sort_slice lt xs = foldl (\<lambda>acc x. insert_by lt x acc) [] xs"

definition slice_sorted :: "('a \<Rightarrow> 'a \<Rightarrow> bool) \<Rightarrow> 'a list \<Rightarrow> bool" where
  "slice_sorted lt xs \<longleftrightarrow> sorted_wrt (\<lambda>x y. \<not> lt y x) xs"

definition decides :: "('a \<Rightarrow> 'a \<Rightarrow> bool) \<Rightarrow> 'a list \<Rightarrow> bool" where
  "decides lt xs \<longleftrightarrow> (\<forall>x\<in>set xs. \<forall>y\<in>set xs. x \<noteq> y \<longrightarrow> lt x y \<or> lt y x)"

lemma mset_insert_by [simp]: "mset (insert_by lt x xs) = add_mset x (mset xs)"
  by (induction xs) auto

lemma set_insert_by [simp]: "set (insert_by lt x xs) = insert x (set xs)"
  by (induction xs) auto

lemma mset_sort_slice [simp]: "mset (sort_slice lt xs) = mset xs"
proof -
  have "mset (foldl (\<lambda>acc x. insert_by lt x acc) acc xs) = mset acc + mset xs" for acc
    by (induction xs arbitrary: acc) auto
  then show ?thesis by (simp add: sort_slice_def)
qed

lemma set_sort_slice [simp]: "set (sort_slice lt xs) = set xs"
  by (metis mset_sort_slice set_mset_mset)

lemma length_sort_slice [simp]: "length (sort_slice lt xs) = length xs"
  by (metis mset_sort_slice size_mset)

lemma distinct_sort_slice [simp]: "distinct (sort_slice lt xs) = distinct xs"
  by (metis mset_sort_slice mset_eq_imp_distinct_iff)

lemma sort_slice_Nil [simp]: "sort_slice lt [] = []"
  by (simp add: sort_slice_def)

lemma decides_mset: "mset xs = mset ys \<Longrightarrow> decides lt xs = decides lt ys"
  unfolding decides_def by (metis set_mset_mset)

lemma slice_sorted_unique:
  "mset xs = mset ys \<Longrightarrow> slice_sorted lt xs \<Longrightarrow> slice_sorted lt ys \<Longrightarrow> decides lt xs \<Longrightarrow> xs = ys"
proof (induction xs arbitrary: ys)
  case Nil
  then show ?case by simp
next
  case (Cons x xs)
  from Cons.prems(1) obtain y ys' where ys: "ys = y # ys'"
    by (cases ys) auto
  have mem: "y \<in> set (x # xs)" "x \<in> set ys"
    using Cons.prems(1) ys by (metis list.set_intros(1) set_mset_mset)+
  have "x = y"
  proof (rule ccontr)
    assume "x \<noteq> y"
    with mem ys Cons.prems(2,3) have "\<not> lt y x" "\<not> lt x y"
      by (auto simp: slice_sorted_def)
    with \<open>x \<noteq> y\<close> mem Cons.prems(4) show False by (auto simp: decides_def)
  qed
  moreover have "xs = ys'"
    using Cons.prems ys \<open>x = y\<close> by (intro Cons.IH) (auto simp: slice_sorted_def decides_def)
  ultimately show ?case using ys by simp
qed

text \<open>
  The contract of a comparison function: a strict weak order. Under it the result is sorted, and
  where the comparison decides any two different elements every correct sorting algorithm gives
  this same list.
\<close>

locale slice_order =
  fixes lt :: "'a \<Rightarrow> 'a \<Rightarrow> bool"
  assumes lt_irrefl: "\<not> lt x x"
    and lt_trans: "lt x y \<Longrightarrow> lt y z \<Longrightarrow> lt x z"
    and lt_neg_trans: "\<not> lt x y \<Longrightarrow> \<not> lt y z \<Longrightarrow> \<not> lt x z"
begin

lemma lt_asym: "lt x y \<Longrightarrow> \<not> lt y x"
  using lt_irrefl lt_trans by blast

lemma slice_sorted_insert_by: "slice_sorted lt xs \<Longrightarrow> slice_sorted lt (insert_by lt x xs)"
proof (induction xs)
  case Nil
  then show ?case by (simp add: slice_sorted_def)
next
  case (Cons y ys)
  then show ?case
    by (auto simp: slice_sorted_def dest: lt_asym) (meson lt_asym lt_neg_trans)
qed

lemma sorted_sort_slice: "slice_sorted lt (sort_slice lt xs)"
proof -
  have "slice_sorted lt acc \<Longrightarrow> slice_sorted lt (foldl (\<lambda>acc x. insert_by lt x acc) acc xs)" for acc
    by (induction xs arbitrary: acc) (auto simp: slice_sorted_insert_by)
  then show ?thesis by (simp add: sort_slice_def slice_sorted_def)
qed

lemma sort_slice_unique:
  "mset ys = mset xs \<Longrightarrow> slice_sorted lt ys \<Longrightarrow> decides lt xs \<Longrightarrow> ys = sort_slice lt xs"
  by (rule slice_sorted_unique) (auto simp: sorted_sort_slice cong: decides_mset)

lemma sort_slice_mset_cong:
  assumes "mset xs = mset ys" and "decides lt xs"
  shows "sort_slice lt xs = sort_slice lt ys"
proof (rule slice_sorted_unique)
  show "mset (sort_slice lt xs) = mset (sort_slice lt ys)"
    using assms(1) by simp
  show "decides lt (sort_slice lt xs)"
    using assms(2) by (simp cong: decides_mset)
qed (rule sorted_sort_slice)+

end

text \<open>A comparison of keys from a linear order is such a comparison.\<close>

locale key_order =
  fixes key :: "'a \<Rightarrow> 'b::linorder"

sublocale key_order \<subseteq> slice_order "\<lambda>x y. key x < key y"
  by unfold_locales auto

interpretation str_order: key_order "\<lambda>s::gostring. s" .

definition id_less :: "int64 \<Rightarrow> int64 \<Rightarrow> bool" where
  "id_less i j \<longleftrightarrow> sint i < sint j"

interpretation id_order: slice_order id_less
  by unfold_locales (auto simp: id_less_def)

lemma id_less_decides [simp]: "decides id_less ids"
  by (auto simp: decides_def id_less_def) (metis less_linear signed_word_eqI)

lemma str_less_decides [simp]: "decides (\<lambda>s t. s < t) (xs :: gostring list)"
  by (auto simp: decides_def)

lemma sort_ids_cong: "mset xs = mset ys \<Longrightarrow> sort_slice id_less xs = sort_slice id_less ys"
  by (rule id_order.sort_slice_mset_cong) simp_all

lemma sort_strings_cong:
  "mset xs = mset ys \<Longrightarrow> sort_slice (\<lambda>s t. s < t) xs = sort_slice (\<lambda>s t. s < t) (ys :: gostring list)"
  by (rule str_order.sort_slice_mset_cong) simp_all

end
