(* ===== verification/GoStrings.thy ===== *)
theory GoStrings
  imports Prelude
begin

text \<open>
  The routines of Go's packages \<^verbatim>\<open>strings\<close>, \<^verbatim>\<open>strconv\<close>, \<^verbatim>\<open>path\<close> and \<^verbatim>\<open>html\<close> that the program
  calls, on byte strings. Errors of the number parsers are \<open>None\<close>: the program only tests that
  there is one. The laws below (searching for a byte, splitting and joining, printing and parsing
  numbers, cleaning paths, escaping) are what the components use of them.
\<close>

section \<open>Package strings\<close>

definition hasPrefix :: "gostring \<Rightarrow> gostring \<Rightarrow> bool" where
  [go_defs]: "hasPrefix s p \<longleftrightarrow> take (length p) s = p"

definition trimPrefix :: "gostring \<Rightarrow> gostring \<Rightarrow> gostring" where
  [go_defs]: "trimPrefix s p = (if hasPrefix s p then drop (length p) s else s)"

fun indexByte :: "gostring \<Rightarrow> char \<Rightarrow> nat option" where
  "indexByte [] c = None"
| "indexByte (x # xs) c = (if x = c then Some 0 else map_option Suc (indexByte xs c))"

fun lastIndexByte :: "gostring \<Rightarrow> char \<Rightarrow> nat option" where
  "lastIndexByte [] c = None"
| "lastIndexByte (x # xs) c =
     (case lastIndexByte xs c of Some i \<Rightarrow> Some (Suc i) | None \<Rightarrow> if x = c then Some 0 else None)"

text \<open>\<^verbatim>\<open>strings.Split(s, sep)\<close> for a separator of one byte.\<close>

fun splitByte :: "char \<Rightarrow> gostring \<Rightarrow> gostring list" where
  "splitByte c [] = [[]]"
| "splitByte c (x # xs) =
     (if x = c then [] # splitByte c xs
      else (case splitByte c xs of [] \<Rightarrow> [[x]] | w # ws \<Rightarrow> (x # w) # ws))"

fun joinByte :: "char \<Rightarrow> gostring list \<Rightarrow> gostring" where
  "joinByte c [] = []"
| "joinByte c [w] = w"
| "joinByte c (w # v # ws) = w @ c # joinByte c (v # ws)"

lemma hasPrefix_append [simp]: "hasPrefix (p @ s) p"
  by (simp add: hasPrefix_def)

lemma hasPrefix_iff: "hasPrefix s p \<longleftrightarrow> (\<exists>r. s = p @ r)"
  by (auto simp: hasPrefix_def) (metis append_take_drop_id)

lemma trimPrefix_append [simp]: "trimPrefix (p @ s) p = s"
  by (simp add: trimPrefix_def)

lemma hasPrefix_Cons [simp]: "hasPrefix s [] " "hasPrefix [] (c # p) = False"
    "hasPrefix (x # s) (c # p) = (x = c \<and> hasPrefix s p)"
  by (auto simp: hasPrefix_def)

lemma trimPrefix_Cons [simp]: "trimPrefix s [] = s" "trimPrefix (c # s) [c] = s"
  by (simp_all add: trimPrefix_def)

lemma trimPrefix_not_prefix: "\<not> hasPrefix s p \<Longrightarrow> trimPrefix s p = s"
  by (simp add: trimPrefix_def)

lemma indexByte_None [simp]: "indexByte s c = None \<longleftrightarrow> c \<notin> set s"
  by (induction s) auto

lemma indexByte_Some: "indexByte s c = Some i \<longleftrightarrow> (\<exists>u v. s = u @ c # v \<and> c \<notin> set u \<and> length u = i)"
proof (induction s arbitrary: i)
  case Nil
  then show ?case by simp
next
  case (Cons x xs)
  show ?case
  proof (cases "x = c")
    case True
    then show ?thesis by (auto simp: Cons_eq_append_conv)
  next
    case False
    then show ?thesis by (fastforce simp: Cons.IH Cons_eq_append_conv)
  qed
qed

lemma indexByte_append: "c \<notin> set u \<Longrightarrow> indexByte (u @ c # v) c = Some (length u)"
  by (auto simp: indexByte_Some)

lemma lastIndexByte_None [simp]: "lastIndexByte s c = None \<longleftrightarrow> c \<notin> set s"
  by (induction s) (auto split: option.splits)

lemma lastIndexByte_append: "c \<notin> set v \<Longrightarrow> lastIndexByte (u @ c # v) c = Some (length u)"
  by (induction u) (auto split: option.splits)

lemma lastIndexByte_Some: "lastIndexByte s c = Some i \<longleftrightarrow> (\<exists>u v. s = u @ c # v \<and> c \<notin> set v \<and> length u = i)"
proof
  assume "lastIndexByte s c = Some i"
  moreover from this have "c \<in> set s" by (metis lastIndexByte_None option.distinct(1))
  then obtain u v where "s = u @ c # v" "c \<notin> set v"
    using split_list_last by metis
  ultimately show "\<exists>u v. s = u @ c # v \<and> c \<notin> set v \<and> length u = i"
    by (auto simp: lastIndexByte_append)
qed (auto simp: lastIndexByte_append)

lemma splitByte_not_Nil [simp]: "splitByte c s \<noteq> []"
  by (induction s) (auto split: list.splits)

lemma splitByte_free: "c \<notin> set s \<Longrightarrow> splitByte c s = [s]"
  by (induction s) auto

lemma splitByte_append: "c \<notin> set u \<Longrightarrow> splitByte c (u @ c # v) = u # splitByte c v"
  by (induction u) auto

lemma splitByte_joinByte: "ws \<noteq> [] \<Longrightarrow> \<forall>w\<in>set ws. c \<notin> set w \<Longrightarrow> splitByte c (joinByte c ws) = ws"
  by (induction c ws rule: joinByte.induct) (auto simp: splitByte_free splitByte_append)

lemma joinByte_splitByte: "joinByte c (splitByte c s) = s"
proof (induction s)
  case Nil
  then show ?case by simp
next
  case (Cons x xs)
  then show ?case
    by (cases "splitByte c xs") (auto, (metis append_Cons append_Nil joinByte.elims joinByte.simps list.exhaust)+)
qed

lemma splitByte_pieces: "w \<in> set (splitByte c s) \<Longrightarrow> c \<notin> set w"
  by (induction s arbitrary: w) (auto split: list.splits if_splits)

section \<open>Package strconv\<close>

definition digit_char :: "nat \<Rightarrow> char" where
  "digit_char n = char_of (48 + n)"

definition digit_of :: "char \<Rightarrow> nat option" where
  "digit_of c = (let n = of_char c :: nat in if 48 \<le> n \<and> n \<le> 57 then Some (n - 48) else None)"

fun fmt_nat :: "nat \<Rightarrow> gostring" where
  "fmt_nat n = (if n < 10 then [digit_char n] else fmt_nat (n div 10) @ [digit_char (n mod 10)])"

declare fmt_nat.simps [simp del]

definition fmt_int :: "int \<Rightarrow> gostring" where
  "fmt_int i = (if i < 0 then CHR ''-'' # fmt_nat (nat (- i)) else fmt_nat (nat i))"

text \<open>\<^verbatim>\<open>strconv.FormatInt(w, 10)\<close>, and what the format verb \<^verbatim>\<open>%d\<close> prints for an unsigned value.\<close>

definition formatInt :: "int64 \<Rightarrow> gostring" where
  "formatInt w = fmt_int (sint w)"

definition formatUint :: "uint32 \<Rightarrow> gostring" where
  "formatUint w = fmt_nat (unat w)"

fun dec_from :: "nat \<Rightarrow> gostring \<Rightarrow> nat option" where
  "dec_from n [] = Some n"
| "dec_from n (c # cs) = (case digit_of c of None \<Rightarrow> None | Some d \<Rightarrow> dec_from (10 * n + d) cs)"

text \<open>\<^verbatim>\<open>strconv.ParseUint(s, 10, bits)\<close>: digits only, no sign, within range.\<close>

definition parseUint :: "nat \<Rightarrow> gostring \<Rightarrow> nat option" where
  "parseUint bits s =
     (if s = [] then None
      else case dec_from 0 s of None \<Rightarrow> None | Some n \<Rightarrow> if n < 2 ^ bits then Some n else None)"

text \<open>
  \<^verbatim>\<open>strconv.ParseInt(s, 10, 0)\<close>: an optional sign, then digits; bit size 0 is the size of
  \<^verbatim>\<open>int\<close>, 64 on the platforms the program is built for.
\<close>

definition parseInt :: "gostring \<Rightarrow> int64 option" where
  "parseInt s =
     (case s of
        [] \<Rightarrow> None
      | c # cs \<Rightarrow>
          (let neg = (c = CHR ''-''); body = (if c = CHR ''-'' \<or> c = CHR ''+'' then cs else s)
           in case parseUint 64 body of
                None \<Rightarrow> None
              | Some un \<Rightarrow>
                  if \<not> neg \<and> 2 ^ 63 \<le> un then None
                  else if neg \<and> 2 ^ 63 < un then None
                  else Some (if neg then - of_nat un else of_nat un)))"

text \<open>For evaluation the bounds are compared as integers.\<close>

lemma parseUint_code [code]:
  "parseUint bits s =
     (if s = [] then None
      else case dec_from 0 s of None \<Rightarrow> None | Some n \<Rightarrow> if int n < 2 ^ bits then Some n else None)"
proof -
  have "int n < 2 ^ bits \<longleftrightarrow> n < 2 ^ bits" for n
    by (metis of_nat_less_iff of_nat_numeral of_nat_power)
  then show ?thesis by (simp only: parseUint_def)
qed

lemma parseInt_code [code]:
  "parseInt s =
     (case s of
        [] \<Rightarrow> None
      | c # cs \<Rightarrow>
          (let neg = (c = CHR ''-''); body = (if c = CHR ''-'' \<or> c = CHR ''+'' then cs else s)
           in case parseUint 64 body of
                None \<Rightarrow> None
              | Some un \<Rightarrow>
                  if \<not> neg \<and> 2 ^ 63 \<le> int un then None
                  else if neg \<and> 2 ^ 63 < int un then None
                  else Some (if neg then - of_nat un else of_nat un)))"
proof -
  have "2 ^ 63 \<le> int n \<longleftrightarrow> 2 ^ 63 \<le> n" "2 ^ 63 < int n \<longleftrightarrow> 2 ^ 63 < n" for n :: nat
    by simp_all
  then show ?thesis by (simp only: parseInt_def)
qed

lemma digit_of_char [simp]: "d < 10 \<Longrightarrow> digit_of (digit_char d) = Some d"
  by (simp add: digit_of_def digit_char_def Let_def)

lemma digit_of_Some: "digit_of c = Some d \<Longrightarrow> d < 10 \<and> c = digit_char d"
  by (auto simp: digit_of_def digit_char_def Let_def split: if_splits)

lemma digit_char_not [simp]:
  assumes "d < 10" and "digit_of c = None"
  shows "digit_char d \<noteq> c"
  using assms by (metis digit_of_char option.distinct(1))

lemma digit_of_punct [simp]:
  "digit_of CHR ''-'' = None" "digit_of CHR ''+'' = None" "digit_of CHR '':'' = None"
  "digit_of CHR ''/'' = None" "digit_of CHR ''.'' = None" "digit_of CHR ''['' = None"
  "digit_of CHR '']'' = None"
  by (simp_all add: digit_of_def)

lemma fmt_nat_not_Nil [simp]: "fmt_nat n \<noteq> []"
  by (subst fmt_nat.simps) simp

lemma fmt_nat_digits: "c \<in> set (fmt_nat n) \<Longrightarrow> digit_of c \<noteq> None"
proof (induction n rule: fmt_nat.induct)
  case (1 n)
  then show ?case by (subst (asm) (2) fmt_nat.simps) (auto split: if_splits)
qed

lemma fmt_nat_free: "digit_of c = None \<Longrightarrow> c \<notin> set (fmt_nat n)"
  using fmt_nat_digits by blast

lemma dec_from_append: "dec_from n (u @ v) = (case dec_from n u of None \<Rightarrow> None | Some m \<Rightarrow> dec_from m v)"
  by (induction u arbitrary: n) (auto split: option.splits)

lemma dec_from_fmt_nat: "dec_from 0 (fmt_nat n) = Some n"
proof (induction n rule: fmt_nat.induct)
  case (1 n)
  then show ?case by (subst fmt_nat.simps) (simp add: dec_from_append)
qed

lemma parseUint_fmt_nat: "n < 2 ^ bits \<Longrightarrow> parseUint bits (fmt_nat n) = Some n"
  by (simp add: parseUint_def dec_from_fmt_nat)

lemma parseUint_bound: "parseUint bits s = Some n \<Longrightarrow> n < 2 ^ bits"
  by (auto simp: parseUint_def split: if_splits option.splits)

lemma dec_from_digits: "dec_from n s = Some m \<Longrightarrow> \<forall>c\<in>set s. digit_of c \<noteq> None"
  by (induction s arbitrary: n) (auto split: option.splits)

lemma fmt_nat_first: "fmt_nat n = c # cs \<Longrightarrow> digit_of c \<noteq> None"
  by (metis fmt_nat_digits list.set_intros(1))

lemma sint64_range: "- (2 ^ 63) \<le> sint (w :: int64) \<and> sint w < 2 ^ 63"
  using sint_greater_eq [of w] sint_lt [of w] by simp

lemma of_int_sint64: "of_int (sint w) = (w :: int64)"
  by simp

lemma parseInt_digits:
  assumes "digit_of c \<noteq> None"
  shows "parseInt (c # cs) =
    (case parseUint 64 (c # cs) of None \<Rightarrow> None | Some un \<Rightarrow> if 2 ^ 63 \<le> un then None else Some (of_nat un))"
proof -
  have "c \<noteq> CHR ''-''" "c \<noteq> CHR ''+''" using assms by auto
  then show ?thesis by (simp add: parseInt_def split: option.splits)
qed

text \<open>Printing an identifier and parsing it back gives the same 64-bit value.\<close>

lemma parseInt_formatInt: "parseInt (formatInt w) = Some w"
proof (cases "sint w < 0")
  case True
  define n where "n = nat (- sint w)"
  have n: "n \<le> 2 ^ 63" "int n = - sint w"
    using True sint64_range [of w] by (auto simp: n_def)
  have "parseUint 64 (fmt_nat n) = Some n"
    using n(1) by (intro parseUint_fmt_nat) simp
  moreover have "- of_nat n = w"
  proof -
    have "sint w = - int n" using n(2) by simp
    then have "of_int (- int n) = w" by (metis of_int_sint64)
    then show ?thesis by simp
  qed
  ultimately show ?thesis
    using True n by (simp add: formatInt_def fmt_int_def parseInt_def n_def [symmetric])
next
  case False
  define n where "n = nat (sint w)"
  have n: "n < 2 ^ 63" "int n = sint w"
    using False sint64_range [of w] by (auto simp: n_def)
  obtain c cs where c: "fmt_nat n = c # cs"
    by (cases "fmt_nat n") auto
  have "parseUint 64 (fmt_nat n) = Some n"
    using n(1) by (intro parseUint_fmt_nat) simp
  moreover have "of_nat n = w"
    by (metis n(2) of_int_of_nat_eq of_int_sint64)
  moreover have "formatInt w = c # cs"
    using False c by (simp add: formatInt_def fmt_int_def n_def)
  ultimately show ?thesis
    using n c fmt_nat_first [OF c] by (simp add: parseInt_digits)
qed

text \<open>
  What the digits say, with no width: an identifier is accepted exactly when this value fits into
  64 bits, and then it is this value.
\<close>

definition decimal_value :: "gostring \<Rightarrow> int option" where
  "decimal_value s =
     (case s of
        [] \<Rightarrow> None
      | c # cs \<Rightarrow>
          (let body = (if c = CHR ''-'' \<or> c = CHR ''+'' then cs else s)
           in if body = [] then None
              else map_option (\<lambda>n. if c = CHR ''-'' then - int n else int n) (dec_from 0 body)))"

lemma parseInt_decimal_value:
  "parseInt s =
     (case decimal_value s of
        None \<Rightarrow> None
      | Some i \<Rightarrow> if - (2 ^ 63) \<le> i \<and> i < 2 ^ 63 then Some (of_int i) else None)"
  by (auto simp: parseInt_def decimal_value_def parseUint_def Let_def split: list.splits option.splits)

lemma sint_of_int64: "- (2 ^ 63) \<le> i \<Longrightarrow> i < 2 ^ 63 \<Longrightarrow> sint (of_int i :: int64) = i"
  by (simp add: signed_of_int signed_take_bit_int_eq_self)

lemma parseInt_sint: "parseInt s = Some w \<Longrightarrow> decimal_value s = Some (sint w)"
  by (auto simp: parseInt_decimal_value sint_of_int64 split: option.splits if_splits)

end
