(* ===== verification/GoTime.thy ===== *)
theory GoTime
  imports GoStrings
begin

text \<open>
  Package \<^verbatim>\<open>time\<close>, as far as \<^verbatim>\<open>formatTimestamp\<close> of \<^verbatim>\<open>templates.go\<close> uses it: the instant of a protobuf
  timestamp in 64-bit seconds since the zero of the package, its date in the Gregorian calendar and
  the layout RFC 3339 in UTC. The last section compares the printed date with the count of days by
  the calendar's rules.
\<close>

type_synonym int32 = "32 word"

record timestamp =
  ts_seconds :: int64
  ts_nanos :: int32

section \<open>Instants\<close>

text \<open>\<^verbatim>\<open>AsTime\<close> and \<^verbatim>\<open>time.Unix\<close>: nanoseconds outside a second are carried, all sums wrap around. The
  package counts from the start of the year -292277022399, a first year of 400.\<close>

definition unix_zero :: int64 where
  "unix_zero = 9223372028715321600"

definition abs_seconds :: "timestamp option \<Rightarrow> nat" where
  "abs_seconds ts =
     (case ts of
        None \<Rightarrow> unat unix_zero
      | Some t \<Rightarrow> unat (ts_seconds t + of_int (sint (ts_nanos t) div 1000000000) + unix_zero))"

section \<open>Dates\<close>

definition leap :: "int \<Rightarrow> bool" where
  "leap y \<longleftrightarrow> y mod 4 = 0 \<and> (y mod 100 \<noteq> 0 \<or> y mod 400 = 0)"

definition month_lengths :: "bool \<Rightarrow> nat list" where
  "month_lengths l = [31, if l then 29 else 28, 31, 30, 31, 30, 31, 31, 30, 31, 30, 31]"

text \<open>The year, counted from the first one of a cycle of 400, and the day in it, both from zero.\<close>

definition year_yday :: "nat \<Rightarrow> nat \<times> nat" where
  "year_yday d =
     (let n400 = d div 146097; d1 = d mod 146097;
          n100 = min 3 (d1 div 36524); d2 = d1 - 36524 * n100;
          n4 = d2 div 1461; d3 = d2 mod 1461;
          n1 = min 3 (d3 div 365)
      in (400 * n400 + 100 * n100 + 4 * n4 + n1, d3 - 365 * n1))"

text \<open>The month of a day of the year, from zero, and the day in it, from zero.\<close>

fun month_day :: "nat list \<Rightarrow> nat \<Rightarrow> nat \<times> nat" where
  "month_day [] d = (0, d)"
| "month_day (l # ls) d = (if d < l then (0, d) else case month_day ls (d - l) of (m, k) \<Rightarrow> (Suc m, k))"

definition first_year :: int where
  "first_year = -292277022399"

definition date_of_day :: "nat \<Rightarrow> int \<times> nat \<times> nat" where
  "date_of_day d =
     (let (y, yday) = year_yday d; year = first_year + int y;
          (m, k) = month_day (month_lengths (leap year)) yday
      in (year, m + 1, k + 1))"

section \<open>The layout\<close>

definition pad :: "nat \<Rightarrow> nat \<Rightarrow> gostring" where
  "pad width n = (let s = fmt_nat n in replicate (width - length s) CHR ''0'' @ s)"

definition pad_year :: "int \<Rightarrow> gostring" where
  "pad_year y = (if y < 0 then CHR ''-'' # pad 4 (nat (- y)) else pad 4 (nat y))"

definition format_date :: "int \<times> nat \<times> nat \<Rightarrow> gostring" where
  "format_date d = (case d of (y, m, k) \<Rightarrow> pad_year y @ ''-'' @ pad 2 m @ ''-'' @ pad 2 k)"

definition format_clock :: "nat \<Rightarrow> gostring" where
  "format_clock s = pad 2 (s div 3600) @ '':'' @ pad 2 (s mod 3600 div 60) @ '':'' @ pad 2 (s mod 60)"

definition formatTimestamp :: "timestamp option \<Rightarrow> gostring" where
  "formatTimestamp ts =
     (let n = abs_seconds ts
      in format_date (date_of_day (n div 86400)) @ ''T'' @ format_clock (n mod 86400) @ ''Z'')"

section \<open>The calendar\<close>

text \<open>The days from the first of January of year 1 to the start of a year, by the rule of leap years.\<close>

definition days_before_year :: "int \<Rightarrow> int" where
  "days_before_year y = 365 * (y - 1) + (y - 1) div 4 - (y - 1) div 100 + (y - 1) div 400"

definition days_of_date :: "int \<times> nat \<times> nat \<Rightarrow> int" where
  "days_of_date d =
     (case d of (y, m, k) \<Rightarrow> days_before_year y + int (sum_list (take (m - 1) (month_lengths (leap y)))) + int k - 1)"

definition valid_date :: "int \<times> nat \<times> nat \<Rightarrow> bool" where
  "valid_date d = (case d of (y, m, k) \<Rightarrow>
     1 \<le> m \<and> m \<le> 12 \<and> 1 \<le> k \<and> k \<le> month_lengths (leap y) ! (m - 1))"

lemma month_day_sum:
  "d < sum_list ls \<Longrightarrow> case month_day ls d of (m, k) \<Rightarrow>
     m < length ls \<and> k < ls ! m \<and> sum_list (take m ls) + k = d"
proof (induction ls arbitrary: d)
  case (Cons l ls)
  show ?case
  proof (cases "d < l")
    case False
    then have "d - l < sum_list ls" using Cons.prems by simp
    then show ?thesis using Cons.IH [of "d - l"] False by (auto split: prod.splits)
  qed simp
qed simp

lemma sum_month_lengths: "sum_list (month_lengths l) = (if l then 366 else 365)"
  by (simp add: month_lengths_def)

text \<open>A capped quotient: all of the rest goes to the last part.\<close>

lemma min_div:
  fixes n l k :: nat
  assumes "0 < l"
  shows "min k (n div l) \<le> k" and "n = l * min k (n div l) + (n - l * min k (n div l))"
    and "n - l * min k (n div l) < l \<or> min k (n div l) = k \<and> n - l * min k (n div l) = n - l * k"
proof -
  have "l * (n div l) \<le> n" "n - l * (n div l) < l"
    using assms by (simp_all add: minus_mult_div_eq_mod)
  moreover have "l * min k (n div l) \<le> l * (n div l)" by simp
  ultimately show "n = l * min k (n div l) + (n - l * min k (n div l))"
    "n - l * min k (n div l) < l \<or> min k (n div l) = k \<and> n - l * min k (n div l) = n - l * k"
    by (linarith, auto simp: min_def)
qed simp

text \<open>The day number splits into cycles: centuries, fours and single years.\<close>

lemma year_yday_split:
  assumes "year_yday d = (y, yday)"
  shows "\<exists>a b c e. y = 400 * a + 100 * b + 4 * c + e \<and> b \<le> 3 \<and> c \<le> 24 \<and> e \<le> 3 \<and>
    d = 146097 * a + 36524 * b + 1461 * c + 365 * e + yday \<and>
    (yday < 365 \<or> yday = 365 \<and> e = 3 \<and> (c < 24 \<or> b = 3))"
proof -
  define a where "a = d div 146097"
  define d1 where "d1 = d mod 146097"
  define b where "b = min 3 (d1 div 36524)"
  define d2 where "d2 = d1 - 36524 * b"
  define c where "c = d2 div 1461"
  define d3 where "d3 = d2 mod 1461"
  define e where "e = min 3 (d3 div 365)"
  have y: "y = 400 * a + 100 * b + 4 * c + e" and yday: "yday = d3 - 365 * e"
    using assms by (simp_all add: year_yday_def Let_def a_def b_def c_def d1_def d2_def d3_def e_def)
  have d1: "d = 146097 * a + d1" "d1 < 146097" by (simp_all add: a_def d1_def)
  have b: "b \<le> 3" "d1 = 36524 * b + d2" "d2 < 36524 \<or> b = 3 \<and> d2 \<le> 36524"
    using min_div [where n = d1 and l = 36524 and k = 3] d1(2) unfolding b_def d2_def by simp_all linarith
  have d3: "d2 = 1461 * c + d3" "d3 < 1461" by (simp_all add: c_def d3_def)
  have c: "c \<le> 24" using b(3) d3(1) by linarith
  have e: "e \<le> 3" "d3 = 365 * e + yday" "yday < 365 \<or> e = 3 \<and> yday \<le> 365"
    using min_div [where n = d3 and l = 365 and k = 3] d3(2) unfolding e_def yday by simp_all linarith
  note d = e(2)
  have "c < 24 \<or> b = 3" if "yday = 365" "e = 3" using that b(3) d3(1) d c by linarith
  then have "yday < 365 \<or> yday = 365 \<and> e = 3 \<and> (c < 24 \<or> b = 3)" using e(3) by fastforce
  moreover have "d = 146097 * a + 36524 * b + 1461 * c + 365 * e + yday"
    using d1(1) b(2) d3(1) d by linarith
  ultimately show ?thesis using y b(1) c e(1) by blast
qed

lemma year_digits:
  fixes a b c e :: int
  assumes "0 \<le> b" "b \<le> 3" "0 \<le> c" "c \<le> 24" "0 \<le> e" "e \<le> 3"
  defines "x \<equiv> 400 * a + 100 * b + 4 * c + e"
  shows "x div 4 = 100 * a + 25 * b + c" "x div 100 = 4 * a + b" "x div 400 = a"
    and "e = 3 \<Longrightarrow> leap (x + 1) \<longleftrightarrow> c < 24 \<or> b = 3"
proof -
  show "x div 4 = 100 * a + 25 * b + c" "x div 100 = 4 * a + b" "x div 400 = a"
    using assms by linarith+
  show "leap (x + 1) \<longleftrightarrow> c < 24 \<or> b = 3" if "e = 3"
  proof (cases "c = 24")
    case True
    then have eq: "x + 1 = 100 * (4 * a + b + 1)" "x + 1 = 4 * (25 * (4 * a + b + 1))"
      using that by (simp_all add: x_def)
    have "(x + 1) mod 4 = 0" unfolding eq(2) by simp
    moreover have "(x + 1) mod 100 = 0" unfolding eq(1) by simp
    moreover have "(x + 1) mod 400 = 100 * ((4 * a + b + 1) mod 4)"
      unfolding eq(1) using mult_mod_right [of 100 "4 * a + b + 1" 4] by simp
    moreover have "(4 * a + b + 1) mod 4 = 0 \<longleftrightarrow> b = 3" using assms(1,2) by presburger
    ultimately show ?thesis using True by (simp add: leap_def)
  next
    case False
    have eq: "x + 1 = 100 * (4 * a + b) + (4 * c + 4)" "x + 1 = 4 * (25 * (4 * a + b) + c + 1)"
      using that by (simp_all add: x_def)
    have "(x + 1) mod 4 = 0" unfolding eq(2) by simp
    moreover have "(x + 1) mod 100 = (4 * c + 4) mod 100" by (simp only: eq(1) mod_mult_self4)
    then have "(x + 1) mod 100 \<noteq> 0" using False assms(3,4) by simp
    ultimately show ?thesis using False assms(4) by (simp add: leap_def)
  qed
qed

definition first_cycle :: int where
  "first_cycle = -730692556"

lemma date_of_day_correct: "valid_date (date_of_day d) \<and> days_of_date (date_of_day d) = int d + 146097 * first_cycle"
proof -
  obtain y yday where yy: "year_yday d = (y, yday)" by fastforce
  from year_yday_split [OF this] obtain a b c e where
    y: "y = 400 * a + 100 * b + 4 * c + e" "b \<le> 3" "c \<le> 24" "e \<le> 3" and
    d: "d = 146097 * a + 36524 * b + 1461 * c + 365 * e + yday" and
    bound: "yday < 365 \<or> yday = 365 \<and> e = 3 \<and> (c < 24 \<or> b = 3)"
    by blast
  define x where "x = 400 * (first_cycle + int a) + 100 * int b + 4 * int c + int e"
  have year: "first_year + int y = x + 1" by (simp add: x_def first_cycle_def first_year_def y(1))
  have x: "x div 4 = 100 * (first_cycle + int a) + 25 * int b + int c" "x div 100 = 4 * (first_cycle + int a) + int b"
    "x div 400 = first_cycle + int a" "e = 3 \<Longrightarrow> leap (x + 1) \<longleftrightarrow> c < 24 \<or> b = 3"
    unfolding x_def
    using year_digits [of "int b" "int c" "int e" "first_cycle + int a"] y(2-4) by simp_all
  let ?ls = "month_lengths (leap (x + 1))"
  have "yday < sum_list ?ls" using bound x(4) by (auto simp: sum_month_lengths)
  note month_day_sum [OF this]
  moreover obtain m k where mk: "month_day ?ls yday = (m, k)" by fastforce
  ultimately have m: "m < length ?ls" "k < ?ls ! m" "sum_list (take m ?ls) + k = yday" by simp_all
  have date: "date_of_day d = (x + 1, m + 1, k + 1)" by (simp add: date_of_day_def yy year mk)
  have "length ?ls = 12" by (simp add: month_lengths_def)
  then have "valid_date (date_of_day d)" using m by (simp add: date valid_date_def)
  moreover have "days_before_year (x + 1) = 146097 * (first_cycle + int a) + 36524 * int b + 1461 * int c + 365 * int e"
    using x(1-3) by (simp add: days_before_year_def) (simp add: x_def)
  moreover have "days_of_date (x + 1, m + 1, k + 1) = days_before_year (x + 1) + int (sum_list (take m ?ls) + k)"
    by (simp add: days_of_date_def)
  then have "days_of_date (date_of_day d) = days_before_year (x + 1) + int yday" by (simp only: date m(3))
  moreover have "int d = 146097 * int a + 36524 * int b + 1461 * int c + 365 * int e + int yday" by (simp add: d)
  ultimately show ?thesis by simp
qed

lemma abs_seconds_valid:
  assumes "- 62135596800 \<le> sint (ts_seconds t)" and "sint (ts_seconds t) \<le> 253402300799"
    and "0 \<le> sint (ts_nanos t)" and "sint (ts_nanos t) < 1000000000"
  shows "int (abs_seconds (Some t)) = sint (ts_seconds t) + 9223372028715321600"
proof -
  have "sint (ts_nanos t) div 1000000000 = 0" using assms(3,4) by (rule div_pos_pos_trivial)
  then have "abs_seconds (Some t) = unat (ts_seconds t + unix_zero)" by (simp add: abs_seconds_def)
  moreover have "ts_seconds t + unix_zero = of_int (sint (ts_seconds t) + 9223372028715321600)"
    by (simp add: unix_zero_def)
  moreover have iu: "int (unat w) = uint w" for w :: int64 by simp
  moreover have "uint (of_int i :: int64) = take_bit 64 i" for i
    using unsigned_of_int [of i, where 'b = 64 and 'a = int] by simp
  ultimately have "int (abs_seconds (Some t)) = take_bit 64 (sint (ts_seconds t) + 9223372028715321600)"
    using iu by metis
  then show ?thesis using assms(1,2) by (simp add: take_bit_int_eq_self)
qed

lemma length_pad: "n < 10 ^ w \<Longrightarrow> 0 < w \<Longrightarrow> length (pad w n) = w"
proof -
  have "length (fmt_nat n) \<le> w" if "n < 10 ^ w" "0 < w" for w n
    using that
  proof (induction n arbitrary: w rule: fmt_nat.induct)
    case (1 n)
    show ?case
    proof (cases "n < 10")
      case False
      obtain v where w: "w = Suc v" using 1(3) gr0_implies_Suc by blast
      have v: "w = Suc v" "0 < v" using 1(2) False w by (cases v; simp)+
      then show ?thesis using 1(1) [of v] 1(2) False by (subst fmt_nat.simps) auto
    qed (use 1(3) in \<open>subst fmt_nat.simps, simp\<close>)
  qed
  then show "n < 10 ^ w \<Longrightarrow> 0 < w \<Longrightarrow> length (pad w n) = w" by (simp add: pad_def Let_def)
qed

lemma month_length_le:
  assumes "valid_date (y, m, k)"
  shows "k \<le> 31" and "sum_list (take (m - 1) (month_lengths (leap y))) + k \<le> 366"
proof -
  let ?ls = "month_lengths (leap y)"
  have "length ?ls = 12" by (simp add: month_lengths_def)
  then have m: "m - 1 < length ?ls" "k \<le> ?ls ! (m - 1)" using assms by (auto simp: valid_date_def)
  have "\<forall>l\<in>set ?ls. l \<le> 31" by (simp add: month_lengths_def)
  then show "k \<le> 31" using m nth_mem by fastforce
  have "sum_list (take (Suc (m - 1)) ?ls) + sum_list (drop (Suc (m - 1)) ?ls) = sum_list ?ls"
    by (metis append_take_drop_id sum_list_append)
  then show "sum_list (take (m - 1) ?ls) + k \<le> 366"
    using m by (simp add: take_Suc_conv_app_nth sum_month_lengths split: if_splits)
qed

lemma date_year_bounds:
  assumes "valid_date (y, m, k)" and "0 \<le> days_of_date (y, m, k)" and "days_of_date (y, m, k) \<le> 3652058"
  shows "1 \<le> y \<and> y \<le> 9999"
proof -
  have k: "1 \<le> k" using assms(1) by (simp add: valid_date_def)
  have bounds: "days_before_year y \<le> 3652058" "- 365 \<le> days_before_year y"
    using assms(2,3) month_length_le(2) [OF assms(1)] k by (simp_all add: days_of_date_def)
  have div: "n * (z div n) \<le> z \<and> z < n * (z div n) + n" if "0 < n" for z n :: int
    using that pos_mod_sign [of n z] pos_mod_bound [of n z] by (simp add: minus_div_mult_eq_mod [symmetric] algebra_simps)
  have far: "365 * z + a - b + c < - 365 \<and> z \<le> - 2 \<or> 3652058 < 365 * z + a - b + c \<and> 10000 \<le> z"
    if "z \<le> - 2 \<or> 10000 \<le> z" "4 * a \<le> z \<and> z < 4 * a + 4" "100 * b \<le> z \<and> z < 100 * b + 100"
      "400 * c \<le> z \<and> z < 400 * c + 400" for z a b c :: int
    using that by linarith
  have "\<not> (y - 1 \<le> - 2 \<or> 10000 \<le> y - 1)"
  proof
    assume "y - 1 \<le> - 2 \<or> 10000 \<le> y - 1"
    from far [OF this div [of 4] div [of 100] div [of 400]] show False
      using bounds by (simp add: days_before_year_def)
  qed
  moreover have "y \<noteq> 0" "y \<noteq> 10000" using bounds by (auto simp: days_before_year_def)
  ultimately show ?thesis by linarith
qed

lemma clock_split:
  fixes c :: nat
  assumes "c < 86400"
  shows "c div 3600 < 24" and "c mod 3600 div 60 < 60" and "c mod 60 < 60"
    and "3600 * (c div 3600) + 60 * (c mod 3600 div 60) + c mod 60 = c"
proof -
  show "c div 3600 < 24" "c mod 3600 div 60 < 60"
    using assms by (auto intro!: less_mult_imp_div_less)
  have "c mod 3600 mod 60 = c mod 60" by (simp add: mod_mod_cancel)
  then have "60 * (c mod 3600 div 60) + c mod 60 = c mod 3600" by (metis mult_div_mod_eq)
  then show "3600 * (c div 3600) + 60 * (c mod 3600 div 60) + c mod 60 = c"
    using mult_div_mod_eq [of 3600 c] by linarith
qed simp

lemma valid_timestamp_shown:
  assumes "- 62135596800 \<le> sint (ts_seconds t)" and "sint (ts_seconds t) \<le> 253402300799"
    and "0 \<le> sint (ts_nanos t)" and "sint (ts_nanos t) < 1000000000"
  shows "\<exists>y m k h mins s. formatTimestamp (Some t) =
      pad 4 y @ ''-'' @ pad 2 m @ ''-'' @ pad 2 k @ ''T'' @ pad 2 h @ '':'' @ pad 2 mins @ '':'' @ pad 2 s @ ''Z'' \<and>
    length (formatTimestamp (Some t)) = 20 \<and> valid_date (int y, m, k) \<and> 1 \<le> y \<and> y \<le> 9999 \<and> h < 24 \<and> mins < 60 \<and> s < 60 \<and>
    86400 * (days_of_date (int y, m, k) - days_of_date (1970, 1, 1)) + int (3600 * h + 60 * mins + s) = sint (ts_seconds t)"
proof -
  let ?n = "abs_seconds (Some t)"
  note n = abs_seconds_valid [OF assms]
  obtain y m k where date: "date_of_day (?n div 86400) = (y, m, k)" by (metis prod_cases3)
  have valid: "valid_date (y, m, k)" and days: "days_of_date (y, m, k) = int (?n div 86400) + 146097 * first_cycle"
    using date_of_day_correct [of "?n div 86400"] by (simp_all add: date)
  have secs: "86400 * int (?n div 86400) + int (?n mod 86400) = sint (ts_seconds t) + 9223372028715321600"
    using n by (metis div_mult_mod_eq mult.commute of_nat_add of_nat_mult of_nat_numeral)
  have epoch: "days_of_date (1970, 1, 1) = 719162" by (simp add: days_of_date_def days_before_year_def)
  have range: "0 \<le> days_of_date (y, m, k)" "days_of_date (y, m, k) \<le> 3652058"
    using secs assms(1,2) unfolding days first_cycle_def by linarith+
  have year: "1 \<le> y" "y \<le> 9999" using date_year_bounds [OF valid range] by simp_all
  define c where "c = ?n mod 86400"
  have c: "c < 86400" by (simp add: c_def)
  note clock = clock_split [OF c]
  have ny: "1 \<le> nat y" "nat y \<le> 9999" "int (nat y) = y" using year by simp_all
  have shown: "formatTimestamp (Some t) = pad 4 (nat y) @ ''-'' @ pad 2 m @ ''-'' @ pad 2 k @ ''T'' @ pad 2 (c div 3600) @
      '':'' @ pad 2 (c mod 3600 div 60) @ '':'' @ pad 2 (c mod 60) @ ''Z''"
    using year(1) by (simp add: formatTimestamp_def Let_def date format_date_def pad_year_def format_clock_def c_def)
  have "m \<le> 12" "k \<le> 31" using valid month_length_le(1) [OF valid] by (simp_all add: valid_date_def)
  then have "length (formatTimestamp (Some t)) = 20"
    using year clock unfolding shown by (simp add: length_pad)
  moreover have "86400 * (q + 146097 * first_cycle - 719162) + r = i"
    if "86400 * q + r = i + 9223372028715321600" for q r i
    using that by (simp add: first_cycle_def)
  then have "86400 * (days_of_date (y, m, k) - days_of_date (1970, 1, 1)) + int c = sint (ts_seconds t)"
    using secs unfolding days epoch c_def by blast
  ultimately show ?thesis
    using shown valid ny clock
    by - (rule exI [of _ "nat y"], rule exI [of _ m], rule exI [of _ k], rule exI [of _ "c div 3600"],
        rule exI [of _ "c mod 3600 div 60"], rule exI [of _ "c mod 60"], simp)
qed

lemma pad_digits: "pad 4 2000 = ''2000''" "pad 4 1970 = ''1970''" "pad 2 0 = ''00''" "pad 2 1 = ''01''" "pad 2 2 = ''02''" "pad 2 29 = ''29''"
proof -
  have "digit_char 0 = CHR ''0''" "digit_char 1 = CHR ''1''" "digit_char 2 = CHR ''2''" "digit_char 7 = CHR ''7''"
    "digit_char 9 = CHR ''9''" by code_simp+
  then show "pad 4 2000 = ''2000''" "pad 4 1970 = ''1970''" "pad 2 0 = ''00''" "pad 2 1 = ''01''" "pad 2 2 = ''02''" "pad 2 29 = ''29''"
    by (simp_all add: pad_def fmt_nat.simps)
qed

text \<open>A timestamp that is missing reads as its zero value.\<close>

lemma missing_timestamp_shown: "formatTimestamp None = ''1970-01-01T00:00:00Z''"
proof -
  have "abs_seconds None = 9223372028715321600" by (simp add: abs_seconds_def unix_zero_def)
  moreover have "date_of_day 106751991073094 = (1970, 1, 1)"
    by (simp add: date_of_day_def year_yday_def first_year_def month_lengths_def leap_def)
  ultimately show ?thesis
    using pad_digits by (simp add: formatTimestamp_def format_date_def pad_year_def format_clock_def)
qed

text \<open>
  C32. A valid timestamp is shown as the date and time it is: the twenty letters name a day of the
  calendar in the years 1 to 9999 and a time of the day in UTC, and the seconds from 1970 to that time
  are the seconds of the timestamp. A missing timestamp is shown as the start of 1970.
\<close>

theorem timestamp_shows_instant:
  assumes "- 62135596800 \<le> sint (ts_seconds t)" and "sint (ts_seconds t) \<le> 253402300799"
    and "0 \<le> sint (ts_nanos t)" and "sint (ts_nanos t) < 1000000000"
  shows "formatTimestamp None = ''1970-01-01T00:00:00Z'' \<and>
    (\<exists>y m k h mins s. formatTimestamp (Some t) =
      pad 4 y @ ''-'' @ pad 2 m @ ''-'' @ pad 2 k @ ''T'' @ pad 2 h @ '':'' @ pad 2 mins @ '':'' @ pad 2 s @ ''Z'' \<and>
    length (formatTimestamp (Some t)) = 20 \<and> valid_date (int y, m, k) \<and> 1 \<le> y \<and> y \<le> 9999 \<and> h < 24 \<and> mins < 60 \<and> s < 60 \<and>
    86400 * (days_of_date (int y, m, k) - days_of_date (1970, 1, 1)) + int (3600 * h + 60 * mins + s) = sint (ts_seconds t))"
  using missing_timestamp_shown valid_timestamp_shown [OF assms] by (rule conjI)

lemma leap_day_2000: "date_of_day 106751991084110 = (2000, 2, 29)"
  by (simp add: date_of_day_def year_yday_def first_year_def month_lengths_def leap_def)

theorem timestamp_shows_instant_witness:
  "formatTimestamp (Some \<lparr>ts_seconds = 951782400, ts_nanos = 5\<rparr>) = ''2000-02-29T00:00:00Z'' \<and>
   length (formatTimestamp (Some \<lparr>ts_seconds = 951782400, ts_nanos = 5\<rparr>)) = 20 \<and>
   formatTimestamp None = ''1970-01-01T00:00:00Z''"
proof (intro conjI)
  note shown = timestamp_shows_instant [of "\<lparr>ts_seconds = 951782400, ts_nanos = 5\<rparr>"]
  show "length (formatTimestamp (Some \<lparr>ts_seconds = 951782400, ts_nanos = 5\<rparr>)) = 20"
    "formatTimestamp None = ''1970-01-01T00:00:00Z''"
    using conjunct1 [OF shown] conjunct2 [OF shown] by auto
  have "abs_seconds (Some \<lparr>ts_seconds = 951782400, ts_nanos = 5\<rparr>) = 9223372029667104000"
    by (simp add: abs_seconds_def unix_zero_def)
  then show "formatTimestamp (Some \<lparr>ts_seconds = 951782400, ts_nanos = 5\<rparr>) = ''2000-02-29T00:00:00Z''"
    using pad_digits by (simp add: formatTimestamp_def leap_day_2000 format_date_def pad_year_def format_clock_def)
qed

end
