(* ===== verification/Proto.thy ===== *)
theory Proto
  imports Prelude GoTime
begin

text \<open>
  The protocol messages the program reads, with the fields it reads of them. They come from
  generated packages outside the repository (\<^verbatim>\<open>envoy/...\<close>, \<^verbatim>\<open>grpc_channelz_v1\<close>); a message is plain
  data, a message pointer is an \<open>option\<close>, a repeated field a list, and a getter of a nil message gives
  the zero value of the field, as the getters of every generated package do.

  What those packages compute is an argument of the model: decoding a \<^verbatim>\<open>google.protobuf.Any\<close> and
  the display names of enums, in the record \<open>proto_lib\<close>.
\<close>

section \<open>Envoy configuration\<close>

record any_msg =
  any_type_url :: gostring
  any_value :: gostring

text \<open>
  A load balancing policy list: each policy has an optional typed extension config, which has an
  optional \<^verbatim>\<open>Any\<close>.
\<close>

record typed_extension =
  typed_config :: "any_msg option"

record lb_policy_entry =
  typed_extension_config :: "typed_extension option"

record load_balancing_policy =
  policies :: "lb_policy_entry list"

record subset_msg =
  subset_lb_policy :: "load_balancing_policy option"

datatype discovery_type = STATIC | STRICT_DNS | LOGICAL_DNS | EDS | ORIGINAL_DST | OtherDiscovery int

datatype lb_policy_enum = ROUND_ROBIN | LEAST_REQUEST | RING_HASH | RANDOM | MAGLEV
  | CLUSTER_PROVIDED | LOAD_BALANCING_POLICY_CONFIG | OtherLbPolicy int

record socket_address =
  sa_address :: gostring
  sa_port_value :: uint32

text \<open>\<^verbatim>\<open>core.Address\<close> is a oneof; only its socket address is read.\<close>

record address_msg =
  addr_socket_address :: "socket_address option"

record endpoint_msg =
  ep_address :: "address_msg option"

datatype health_status = HealthStatus int

record lb_endpoint =
  lbe_endpoint :: "endpoint_msg option"
  lbe_health_status :: health_status
  lbe_weight :: "uint32 option"

record locality_msg =
  region :: gostring
  zone :: gostring
  sub_zone :: gostring

record locality_lb_endpoints =
  lle_locality :: "locality_msg option"
  lle_lb_endpoints :: "lb_endpoint list"
  lle_weight :: "uint32 option"
  lle_priority :: uint32

record cluster_load_assignment =
  cla_name :: gostring
  cla_endpoints :: "locality_lb_endpoints list"

record eds_cluster_config =
  eds_service_name :: gostring

record http2_options =
  max_concurrent_streams :: "uint32 option"

record http_config =
  hc_http2 :: "http2_options option"

record http_protocol_options =
  explicit_http_config :: "http_config option"
  use_downstream_protocol_config :: "http_config option"

record cluster_msg =
  cluster_name :: gostring
  cluster_type :: discovery_type
  cluster_lb_policy :: lb_policy_enum
  cluster_lb_config :: "load_balancing_policy option"
  cluster_load_assignment :: "cluster_load_assignment option"
  cluster_eds_config :: "eds_cluster_config option"
  cluster_http2_options :: "http2_options option"
  cluster_protocol_options :: "(gostring, any_msg option) gomap"
  cluster_lrs_server :: bool

record route_cluster_weight =
  wc_name :: gostring
  wc_weight :: "uint32 option"

record route_action =
  ra_cluster :: gostring
  ra_weighted :: "route_cluster_weight list option"

record 'm route_msg =
  route_match :: "'m option"
  route_route :: "route_action option"

record 'm virtual_host =
  vh_name :: gostring
  vh_domains :: "gostring list"
  vh_routes :: "'m route_msg list"

section \<open>Client status discovery\<close>

record generic_xds_config =
  gx_type_url :: gostring
  gx_name :: gostring
  gx_config :: "any_msg option"

record 'n client_config =
  cc_node :: "'n option"
  cc_generic :: "generic_xds_config list"

section \<open>Channelz\<close>

record trace_event =
  ev_severity :: int
  ev_timestamp :: "timestamp option"
  ev_description :: gostring

record channel_trace =
  tr_creation :: "timestamp option"
  tr_events :: "trace_event list"

record channel_data =
  cd_state :: "int option"
  cd_target :: gostring
  cd_calls_started :: int64
  cd_calls_succeeded :: int64
  cd_calls_failed :: int64
  cd_trace :: "channel_trace option"
  cd_last_call :: "timestamp option"

text \<open>A reference to a channel, subchannel, server or socket: an identifier and a name.\<close>

record channel_ref =
  cr_id :: int64
  cr_name :: gostring

record subchannel_msg =
  sub_ref :: "channel_ref option"
  sub_data :: "channel_data option"
  sub_sockets :: "channel_ref list"
  sub_channels :: "channel_ref list"
  sub_subchannels :: "channel_ref list"

record channel_msg =
  ch_ref :: "channel_ref option"
  ch_data :: "channel_data option"
  ch_subchannels :: "channel_ref list"
  ch_channels :: "channel_ref list"
  ch_sockets :: "channel_ref list"

record channel_response =
  resp_channel :: "channel_msg option"

record subchannel_response =
  resp_subchannel :: "subchannel_msg option"

record top_channels_response =
  top_channels :: "channel_msg list"
  top_end :: bool

record server_data =
  sd_trace :: "channel_trace option"
  sd_calls_started :: int64
  sd_calls_succeeded :: int64
  sd_calls_failed :: int64
  sd_last_call :: "timestamp option"

record server_msg =
  sv_ref :: "channel_ref option"
  sv_data :: "server_data option"
  sv_listen :: "channel_ref list"

record servers_response =
  resp_servers :: "server_msg list"

record server_response =
  resp_server :: "server_msg option"

text \<open>A channelz address: at most one of the three kinds is set.\<close>

datatype channelz_address = TcpipAddress gostring "32 word" | UdsAddress gostring
  | OtherAddress gostring | NoAddress

record socket_option =
  so_name :: gostring
  so_value :: gostring
  so_additional :: "any_msg option"

record socket_data =
  sk_streams_started :: int64
  sk_streams_succeeded :: int64
  sk_streams_failed :: int64
  sk_messages_sent :: int64
  sk_messages_received :: int64
  sk_keep_alives_sent :: int64
  sk_last_local_stream :: "timestamp option"
  sk_last_remote_stream :: "timestamp option"
  sk_last_sent :: "timestamp option"
  sk_last_received :: "timestamp option"
  sk_local_window :: "int64 option"
  sk_remote_window :: "int64 option"
  sk_options :: "socket_option list"

record 'sec socket_msg =
  so_ref :: "channel_ref option"
  so_data :: "socket_data option"
  so_local :: "channelz_address option"
  so_remote :: "channelz_address option"
  so_remote_name :: gostring
  so_security :: "'sec option"

record 'sec socket_response =
  resp_socket :: "'sec socket_msg option"

section \<open>What the generated packages compute\<close>

record 'm proto_lib =
  unmarshal_virtual_host :: "any_msg \<Rightarrow> 'm virtual_host option"
  unmarshal_cluster :: "any_msg \<Rightarrow> cluster_msg option"
  unmarshal_endpoints :: "any_msg \<Rightarrow> cluster_load_assignment option"
  unmarshal_subset :: "any_msg \<Rightarrow> subset_msg option"
  unmarshal_http_options :: "any_msg \<Rightarrow> http_protocol_options option"
  lb_policy_name :: "lb_policy_enum \<Rightarrow> gostring"
  connectivity_name :: "int \<Rightarrow> gostring"

section \<open>Getter chains\<close>

definition opt :: "'b \<Rightarrow> ('a \<Rightarrow> 'b) \<Rightarrow> 'a option \<Rightarrow> 'b" where
  "opt z f x = (case x of None \<Rightarrow> z | Some v \<Rightarrow> f v)"

lemma opt_simps [simp]: "opt z f None = z" "opt z f (Some v) = f v"
  by (simp_all add: opt_def)

definition ref_id :: "channel_ref option \<Rightarrow> int64" where
  "ref_id r = opt 0 cr_id r"

definition ref_name :: "channel_ref option \<Rightarrow> gostring" where
  "ref_name r = opt [] cr_name r"

definition data_target :: "channel_data option \<Rightarrow> gostring" where
  "data_target d = opt [] cd_target d"

definition policy_list :: "load_balancing_policy option \<Rightarrow> lb_policy_entry list" where
  "policy_list p = opt [] policies p"

definition policy_config :: "lb_policy_entry \<Rightarrow> any_msg option" where
  "policy_config p = opt None typed_config (typed_extension_config p)"

definition endpoints_of :: "cluster_load_assignment option \<Rightarrow> locality_lb_endpoints list" where
  "endpoints_of a = opt [] cla_endpoints a"

definition endpoint_socket_address :: "lb_endpoint \<Rightarrow> socket_address option" where
  "endpoint_socket_address e = opt None (\<lambda>ep. opt None addr_socket_address (ep_address ep)) (lbe_endpoint e)"

definition endpoint_port :: "lb_endpoint \<Rightarrow> uint32" where
  "endpoint_port e = opt 0 sa_port_value (endpoint_socket_address e)"

definition weight_value :: "uint32 option \<Rightarrow> uint32" where
  "weight_value w = opt 0 id w"

end
