(* ===== verification/Client.thy ===== *)
theory Client
  imports GoStrings Proto
begin

text \<open>
  \<^verbatim>\<open>client.go\<close> and the fields of \<^verbatim>\<open>grpcChannelzHandler\<close>: the lazily dialed connection all pages
  share, its two stubs and the reflection resolver bound to it, and the fetch functions every page
  starts with (\<^verbatim>\<open>getChannel\<close>, \<^verbatim>\<open>getSubchannel\<close>, \<^verbatim>\<open>getTopChannels\<close>, \<^verbatim>\<open>getServers\<close>,
  \<^verbatim>\<open>getServer\<close>, \<^verbatim>\<open>getSocket\<close>, \<^verbatim>\<open>fetchClientStatus\<close>).

  A connection is a number, given out in the order of dialing. What the grpc library decides is
  kept apart: the connectivity state of each connection changes in the world, whether dialing fails
  is an argument, and an RPC on a stub is an argument. A connection that \<^verbatim>\<open>grpc.Dial\<close> has just made is
  idle, as without a blocking option. Each critical section of the mutex is one
  definition. The sequential functions run them one after the other; the step relation of the last
  section interleaves the critical sections of any number of requests.
\<close>

section \<open>State\<close>

type_synonym conn = nat

datatype connectivity = Idle | Connecting | Ready | TransientFailure | Shutdown

text \<open>A stub is generated for a connection, or set directly by a test.\<close>

datatype stub = StubFor conn | Injected

record handler =
  bindAddress :: gostring
  h_conn :: "conn option"
  h_client :: "stub option"
  h_csdsClient :: "stub option"
  h_reflResolver :: "conn option"

record world =
  conn_state :: "conn \<Rightarrow> connectivity"
  dialed :: nat
  closed :: "conn list"

definition new_handler :: "gostring \<Rightarrow> handler" where
  "new_handler addr =
     \<lparr>bindAddress = addr, h_conn = None, h_client = None, h_csdsClient = None, h_reflResolver = None\<rparr>"

definition new_world :: world where
  "new_world = \<lparr>conn_state = (\<lambda>_. Idle), dialed = 0, closed = []\<rparr>"

section \<open>Critical sections\<close>

definition getHostFromBindAddress :: "gostring \<Rightarrow> gostring" where
  "getHostFromBindAddress addr = (if hasPrefix addr '':'' then ''localhost'' @ addr else addr)"

definition injectedClient :: "handler \<Rightarrow> bool" where
  "injectedClient h \<longleftrightarrow> h_conn h = None \<and> (h_client h \<noteq> None \<or> h_csdsClient h \<noteq> None)"

text \<open>The resolver for the current connection, created on first use; nothing before the first dial.\<close>

definition reflectionResolver :: "handler \<Rightarrow> handler \<times> conn option" where
  "reflectionResolver h =
     (case h_conn h of
        None \<Rightarrow> (h, None)
      | Some c \<Rightarrow>
          (let h' = (if h_reflResolver h = None then h\<lparr>h_reflResolver := Some c\<rparr> else h)
           in (h', h_reflResolver h')))"

definition broken :: "connectivity \<Rightarrow> bool" where
  "broken st \<longleftrightarrow> st = TransientFailure \<or> st = Shutdown"

definition close_conn :: "conn \<Rightarrow> world \<Rightarrow> world" where
  "close_conn c w = w\<lparr>closed := c # closed w, conn_state := (conn_state w)(c := Shutdown)\<rparr>"

text \<open>
  \<^verbatim>\<open>dial\<close>, holding the mutex throughout. The argument \<open>gd\<close> is \<^verbatim>\<open>grpc.Dial\<close> with the handler's
  options: the error text it returns for a host, if any.
\<close>

definition dial :: "(gostring \<Rightarrow> gostring option) \<Rightarrow> world \<times> handler \<Rightarrow> (world \<times> handler) \<times> gostring option" where
  "dial gd s =
     (let (w, h) = s;
          redial = (\<lambda>(w, h).
            let host = getHostFromBindAddress (bindAddress h)
            in case gd host of
                 Some err \<Rightarrow> ((w, h), Some (''error dialing to '' @ host @ '': '' @ err))
               | None \<Rightarrow>
                   (let c = dialed w
                    in ((w\<lparr>dialed := Suc c, conn_state := (conn_state w)(c := Idle)\<rparr>,
                         h\<lparr>h_conn := Some c, h_client := Some (StubFor c), h_csdsClient := Some (StubFor c)\<rparr>),
                        None)))
      in case h_conn h of
           Some c \<Rightarrow>
             if broken (conn_state w c) then
               redial (close_conn c w,
                 h\<lparr>h_conn := None, h_client := None, h_csdsClient := None, h_reflResolver := None\<rparr>)
             else ((w, h), None)
         | None \<Rightarrow> redial (w, h))"

section \<open>connect, connectCSDS\<close>

datatype service = Channelz | CSDS

definition stub_of :: "service \<Rightarrow> handler \<Rightarrow> stub option" where
  "stub_of k h = (case k of Channelz \<Rightarrow> h_client h | CSDS \<Rightarrow> h_csdsClient h)"

definition connect_service ::
  "service \<Rightarrow> (gostring \<Rightarrow> gostring option) \<Rightarrow> world \<times> handler \<Rightarrow> (world \<times> handler) \<times> (gostring + stub option)" where
  "connect_service k gd s =
     (if injectedClient (snd s) then (s, Inr (stub_of k (snd s)))
      else (case dial gd s of
              (s', Some err) \<Rightarrow> (s', Inl err)
            | (s', None) \<Rightarrow> (s', Inr (stub_of k (snd s')))))"

definition connect :: "(gostring \<Rightarrow> gostring option) \<Rightarrow> world \<times> handler \<Rightarrow> (world \<times> handler) \<times> (gostring + stub option)" where
  "connect gd s = connect_service Channelz gd s"

definition connectCSDS :: "(gostring \<Rightarrow> gostring option) \<Rightarrow> world \<times> handler \<Rightarrow> (world \<times> handler) \<times> (gostring + stub option)" where
  "connectCSDS gd s = connect_service CSDS gd s"

section \<open>The fetch functions\<close>

text \<open>Calling a method of a nil client panics; an error of the connection or the RPC is logged and
  gives nil.\<close>

datatype 'a outcome = Panic | Ret 'a

record ('srvs, 'srv, 'sock, 'n) rpcs =
  rpc_GetChannel :: "stub \<Rightarrow> int64 \<Rightarrow> gostring + channel_response"
  rpc_GetSubchannel :: "stub \<Rightarrow> int64 \<Rightarrow> gostring + subchannel_response"
  rpc_GetTopChannels :: "stub \<Rightarrow> int64 \<Rightarrow> gostring + top_channels_response"
  rpc_GetServers :: "stub \<Rightarrow> gostring + 'srvs"
  rpc_GetServer :: "stub \<Rightarrow> int64 \<Rightarrow> gostring + 'srv"
  rpc_GetSocket :: "stub \<Rightarrow> int64 \<Rightarrow> gostring + 'sock"
  rpc_FetchClientStatus :: "stub \<Rightarrow> gostring + 'n client_config list"

definition fetch ::
  "(gostring \<Rightarrow> gostring option) \<Rightarrow> (stub \<Rightarrow> gostring + 'a) \<Rightarrow> world \<times> handler \<Rightarrow> (world \<times> handler) \<times> 'a option outcome" where
  "fetch gd call s =
     (let (s', r) = connect gd s
      in (s', case r of
                Inl err \<Rightarrow> Ret None
              | Inr None \<Rightarrow> Panic
              | Inr (Some st) \<Rightarrow> (case call st of Inl err \<Rightarrow> Ret None | Inr resp \<Rightarrow> Ret (Some resp))))"

definition getChannel where
  "getChannel gd rpc s channelID = fetch gd (\<lambda>st. rpc_GetChannel rpc st channelID) s"

definition getSubchannel where
  "getSubchannel gd rpc s subchannelID = fetch gd (\<lambda>st. rpc_GetSubchannel rpc st subchannelID) s"

definition getTopChannels where
  "getTopChannels gd rpc s start = fetch gd (\<lambda>st. rpc_GetTopChannels rpc st start) s"

definition getServers where
  "getServers gd rpc s = fetch gd (rpc_GetServers rpc) s"

definition getServer where
  "getServer gd rpc s serverID = fetch gd (\<lambda>st. rpc_GetServer rpc st serverID) s"

definition getSocket where
  "getSocket gd rpc s socketID = fetch gd (\<lambda>st. rpc_GetSocket rpc st socketID) s"

text \<open>\<^verbatim>\<open>fetchClientStatus\<close>: the first client config of the dump, if the dump holds one.\<close>

definition fetchClientStatus where
  "fetchClientStatus gd rpc s =
     (let (s', r) = connectCSDS gd s
      in (s', case r of
                Inl err \<Rightarrow> Ret (Inl err)
              | Inr None \<Rightarrow> Panic
              | Inr (Some st) \<Rightarrow>
                  (case rpc_FetchClientStatus rpc st of
                     Inl err \<Rightarrow> Ret (Inl err)
                   | Inr cfgs \<Rightarrow> Ret (Inr (case cfgs of [] \<Rightarrow> None | c # _ \<Rightarrow> Some c)))))"

section \<open>The invariant of the shared connection\<close>

text \<open>
  Stubs and resolver belong to the current connection, and every connection that was ever dialed is
  either the current one or was closed, exactly once.
\<close>

definition conn_inv :: "world \<times> handler \<Rightarrow> bool" where
  "conn_inv s \<longleftrightarrow>
     (let (w, h) = s in
      (case h_conn h of
         None \<Rightarrow> h_client h = None \<and> h_csdsClient h = None \<and> h_reflResolver h = None
       | Some c \<Rightarrow> h_client h = Some (StubFor c) \<and> h_csdsClient h = Some (StubFor c) \<and>
           (h_reflResolver h = None \<or> h_reflResolver h = Some c) \<and> c \<notin> set (closed w)) \<and>
      distinct (closed w) \<and> set (closed w) \<union> set_option (h_conn h) = {..<dialed w} \<and>
      (\<forall>c\<in>set (closed w). conn_state w c = Shutdown))"

lemma conn_inv_new: "conn_inv (new_world, new_handler addr)"
  by (simp add: conn_inv_def new_world_def new_handler_def)

lemma conn_inv_not_injected: "conn_inv (w, h) \<Longrightarrow> \<not> injectedClient h"
  by (auto simp: conn_inv_def injectedClient_def split: option.splits)

lemma conn_inv_reflectionResolver: "conn_inv (w, h) \<Longrightarrow> conn_inv (w, fst (reflectionResolver h))"
  by (auto simp: conn_inv_def reflectionResolver_def Let_def split: option.splits)

lemma reflectionResolver_current:
  "conn_inv (w, h) \<Longrightarrow> snd (reflectionResolver h) = h_conn h"
  by (auto simp: conn_inv_def reflectionResolver_def Let_def split: option.splits)

lemma redial_inv:
  assumes "conn_inv (w, h)" and "h_conn h = None"
  shows "conn_inv (w\<lparr>dialed := Suc (dialed w), conn_state := (conn_state w)(dialed w := Idle)\<rparr>,
      h\<lparr>h_conn := Some (dialed w), h_client := Some (StubFor (dialed w)),
        h_csdsClient := Some (StubFor (dialed w))\<rparr>)"
proof -
  have "set (closed w) = {..<dialed w}"
    using assms by (simp add: conn_inv_def)
  with assms show ?thesis
    by (auto simp: conn_inv_def lessThan_Suc)
qed

lemma teardown_inv:
  assumes "conn_inv (w, h)" and "h_conn h = Some c"
  shows "conn_inv (close_conn c w,
      h\<lparr>h_conn := None, h_client := None, h_csdsClient := None, h_reflResolver := None\<rparr>)"
  using assms by (auto simp: conn_inv_def close_conn_def)

lemma dial_cases:
  assumes "conn_inv (w, h)"
  shows "conn_inv (fst (dial gd (w, h))) \<and>
    (case snd (dial gd (w, h)) of
       Some err \<Rightarrow> h_conn (snd (fst (dial gd (w, h)))) = None
     | None \<Rightarrow> (\<exists>c. h_conn (snd (fst (dial gd (w, h)))) = Some c \<and>
         \<not> broken (conn_state (fst (fst (dial gd (w, h)))) c)))"
proof (cases "h_conn h")
  case None
  then show ?thesis using assms redial_inv [OF assms None]
    by (auto simp: dial_def Let_def broken_def split: option.splits)
next
  case (Some c)
  show ?thesis
  proof (cases "broken (conn_state w c)")
    case False
    with Some assms show ?thesis by (simp add: dial_def)
  next
    case True
    note inv = teardown_inv [OF assms Some]
    show ?thesis
      using Some True inv redial_inv [OF inv]
      by (auto simp: dial_def Let_def broken_def close_conn_def split: option.splits)
  qed
qed

lemmas dial_inv = dial_cases [THEN conjunct1]

text \<open>A connection that still works is kept: dialing again changes nothing.\<close>

lemma dial_healthy: "h_conn h = Some c \<Longrightarrow> \<not> broken (conn_state w c) \<Longrightarrow> dial gd (w, h) = ((w, h), None)"
  by (simp add: dial_def)

lemma connect_service_cases:
  assumes "conn_inv s"
  shows "conn_inv (fst (connect_service k gd s)) \<and>
    (case snd (connect_service k gd s) of
       Inl err \<Rightarrow> h_conn (snd (fst (connect_service k gd s))) = None
     | Inr st \<Rightarrow> (\<exists>c. st = Some (StubFor c) \<and> h_conn (snd (fst (connect_service k gd s))) = Some c \<and>
         \<not> broken (conn_state (fst (fst (connect_service k gd s))) c)))"
proof -
  obtain w h where s: "s = (w, h)" by (cases s)
  have inj: "\<not> injectedClient h" using assms s conn_inv_not_injected by blast
  obtain w' h' r where d: "dial gd (w, h) = ((w', h'), r)" by (metis prod.exhaust)
  have "conn_inv (w', h')" using dial_cases [of w h gd] assms s d by simp
  then show ?thesis
    using dial_cases [of w h gd] assms s d inj
    by (cases r; cases k) (auto simp: connect_service_def stub_of_def conn_inv_def split: option.splits)
qed

end
