(* ===== verification/Steps.thy ===== *)
theory Steps
  imports Main
begin

text \<open>
  Step relations: reachable states, runs of a given length, and the two contracts the concurrent
  parts of the program are checked against. A relation with an inductive invariant
  (\<open>invariant_system\<close>) keeps it in every reachable state; a relation with a decreasing measure
  (\<open>terminating_system\<close>) has no run longer than the measure of its start.
\<close>

inductive reach :: "('s \<Rightarrow> 's \<Rightarrow> bool) \<Rightarrow> ('s \<Rightarrow> bool) \<Rightarrow> 's \<Rightarrow> bool" for step start where
  reach_start: "start s \<Longrightarrow> reach step start s"
| reach_step: "reach step start s \<Longrightarrow> step s t \<Longrightarrow> reach step start t"

inductive run :: "('s \<Rightarrow> 's \<Rightarrow> bool) \<Rightarrow> nat \<Rightarrow> 's \<Rightarrow> 's \<Rightarrow> bool" for step where
  run_done: "run step 0 s s"
| run_more: "step s t \<Longrightarrow> run step n t u \<Longrightarrow> run step (Suc n) s u"

lemma run_one: "step s t \<Longrightarrow> run step 1 s t"
  using run_more [OF _ run_done] by simp

lemma run_snoc: "run step n s t \<Longrightarrow> step t u \<Longrightarrow> run step (Suc n) s u"
  by (induction rule: run.induct) (auto intro: run.intros)

lemma run_append: "run step n s t \<Longrightarrow> run step m t u \<Longrightarrow> run step (n + m) s u"
  by (induction rule: run.induct) (auto intro: run.intros)

lemma reach_run: "run step n s t \<Longrightarrow> reach step start s \<Longrightarrow> reach step start t"
  by (induction rule: run.induct) (auto intro: reach_step)

lemma run_reach: "reach step start t \<Longrightarrow> \<exists>n s. start s \<and> run step n s t"
  by (induction rule: reach.induct) (blast intro: run_done run_snoc)+

locale invariant_system =
  fixes step :: "'s \<Rightarrow> 's \<Rightarrow> bool"
    and start :: "'s \<Rightarrow> bool"
    and inv :: "'s \<Rightarrow> bool"
  assumes inv_start: "start s \<Longrightarrow> inv s"
    and inv_step: "inv s \<Longrightarrow> step s t \<Longrightarrow> inv t"
begin

lemma reachable_inv: "reach step start s \<Longrightarrow> inv s"
  by (induction rule: reach.induct) (auto intro: inv_start inv_step)

end

locale terminating_system = invariant_system step start inv
  for step :: "'s \<Rightarrow> 's \<Rightarrow> bool" and start inv +
  fixes size_of :: "'s \<Rightarrow> nat"
  assumes step_decreases: "inv s \<Longrightarrow> step s t \<Longrightarrow> size_of t < size_of s"
begin

lemma run_length: "run step n s t \<Longrightarrow> inv s \<Longrightarrow> n + size_of t \<le> size_of s"
  by (induction rule: run.induct) (fastforce dest: step_decreases intro: inv_step)+

lemma run_bounded: "run step n s t \<Longrightarrow> inv s \<Longrightarrow> n \<le> size_of s"
  using run_length by fastforce

text \<open>Every run can be extended until no step is left.\<close>

lemma reaches_stuck: "inv s \<Longrightarrow> \<exists>n t. run step n s t \<and> (\<forall>u. \<not> step t u)"
proof (induction "size_of s" arbitrary: s rule: less_induct)
  case less
  show ?case
  proof (cases "\<exists>u. step s u")
    case True
    then obtain u where "step s u" by blast
    with less show ?thesis by (metis inv_step run_more step_decreases)
  next
    case False
    then show ?thesis by (metis run_done)
  qed
qed

end

end
