(* ===== verification/Interleaving.thy ===== *)
theory Interleaving
  imports Client Steps
begin

text \<open>
  Requests served at the same time: each runs \<^verbatim>\<open>connect\<close> or \<^verbatim>\<open>connectCSDS\<close> as three critical sections
  (test for an injected client, \<^verbatim>\<open>dial\<close>, read the stub), and the sections of different requests
  interleave. The world may change the connectivity of any connection that is not closed, at any
  time, and decides for each dial whether \<^verbatim>\<open>grpc.Dial\<close> fails.
\<close>

datatype pc = NotRunning | CheckInjected service | Dialing service | Reading service
  | Returned service "gostring + stub option"

record csys =
  sys_world :: world
  sys_handler :: handler
  pcs :: "nat \<Rightarrow> pc"

inductive csys_step :: "csys \<Rightarrow> csys \<Rightarrow> bool" where
  begin_request: "pcs s p = NotRunning \<or> pcs s p = Returned k' r \<Longrightarrow>
    csys_step s (s\<lparr>pcs := (pcs s)(p := CheckInjected k)\<rparr>)"
| check_injected: "pcs s p = CheckInjected k \<Longrightarrow> injectedClient (sys_handler s) \<Longrightarrow>
    csys_step s (s\<lparr>pcs := (pcs s)(p := Reading k)\<rparr>)"
| check_managed: "pcs s p = CheckInjected k \<Longrightarrow> \<not> injectedClient (sys_handler s) \<Longrightarrow>
    csys_step s (s\<lparr>pcs := (pcs s)(p := Dialing k)\<rparr>)"
| dial_failed: "pcs s p = Dialing k \<Longrightarrow>
    dial gd (sys_world s, sys_handler s) = ((w, h), Some err) \<Longrightarrow>
    csys_step s (s\<lparr>sys_world := w, sys_handler := h, pcs := (pcs s)(p := Returned k (Inl err))\<rparr>)"
| dial_ok: "pcs s p = Dialing k \<Longrightarrow>
    dial gd (sys_world s, sys_handler s) = ((w, h), None) \<Longrightarrow>
    csys_step s (s\<lparr>sys_world := w, sys_handler := h, pcs := (pcs s)(p := Reading k)\<rparr>)"
| read_stub: "pcs s p = Reading k \<Longrightarrow>
    csys_step s (s\<lparr>pcs := (pcs s)(p := Returned k (Inr (stub_of k (sys_handler s))))\<rparr>)"
| use_resolver:
    "csys_step s (s\<lparr>sys_handler := fst (reflectionResolver (sys_handler s))\<rparr>)"
| connectivity_change: "c \<notin> set (closed (sys_world s)) \<Longrightarrow>
    csys_step s (s\<lparr>sys_world := (sys_world s)\<lparr>conn_state := (conn_state (sys_world s))(c := st)\<rparr>\<rparr>)"

definition csys_start :: "csys \<Rightarrow> bool" where
  "csys_start s \<longleftrightarrow> sys_world s = new_world \<and> (\<exists>addr. sys_handler s = new_handler addr) \<and>
     pcs s = (\<lambda>_. NotRunning)"

text \<open>
  A returned stub, when there is one, belongs to a connection that was dialed; the stub a request is
  handed may already belong to a closed connection, or be missing.
\<close>

definition csys_inv :: "csys \<Rightarrow> bool" where
  "csys_inv s \<longleftrightarrow> conn_inv (sys_world s, sys_handler s) \<and>
     (\<forall>p k st. pcs s p = Returned k (Inr (Some st)) \<longrightarrow> (\<exists>c<dialed (sys_world s). st = StubFor c))"

lemma conn_inv_connectivity:
  "conn_inv (w, h) \<Longrightarrow> c \<notin> set (closed w) \<Longrightarrow> conn_inv (w\<lparr>conn_state := (conn_state w)(c := st)\<rparr>, h)"
  by (auto simp: conn_inv_def split: option.splits)

lemma dial_dialed_mono: "dial gd (w, h) = ((w', h'), r) \<Longrightarrow> dialed w \<le> dialed w'"
  by (auto simp: dial_def Let_def close_conn_def split: option.splits if_splits)

lemma conn_inv_stub:
  "conn_inv (w, h) \<Longrightarrow> stub_of k h = Some st \<Longrightarrow> \<exists>c<dialed w. st = StubFor c"
  by (auto simp: conn_inv_def stub_of_def split: option.splits service.splits)

lemma csys_inv_start: "csys_start s \<Longrightarrow> csys_inv s"
  by (auto simp: csys_start_def csys_inv_def conn_inv_new)

lemma csys_inv_dial:
  assumes "csys_inv s" and "dial gd (sys_world s, sys_handler s) = ((w, h), r)"
    and "\<And>k' st. q = Returned k' (Inr (Some st)) \<Longrightarrow> False"
  shows "csys_inv (s\<lparr>sys_world := w, sys_handler := h, pcs := (pcs s)(p := q)\<rparr>)"
proof -
  have "conn_inv (w, h)"
    using dial_inv [of "sys_world s" "sys_handler s" gd] assms(1,2) by (simp add: csys_inv_def)
  moreover have "dialed (sys_world s) \<le> dialed w"
    using assms(2) by (rule dial_dialed_mono)
  ultimately show ?thesis
    using assms(1,3) by (fastforce simp: csys_inv_def)
qed

lemma csys_inv_step: "csys_step s t \<Longrightarrow> csys_inv s \<Longrightarrow> csys_inv t"
proof (induction rule: csys_step.induct)
  case (dial_failed s p k gd w h err)
  then show ?case by (intro csys_inv_dial) auto
next
  case (dial_ok s p k gd w h)
  then show ?case by (intro csys_inv_dial) auto
next
  case (read_stub s p k)
  then show ?case by (auto simp: csys_inv_def dest: conn_inv_stub)
next
  case (use_resolver s)
  then show ?case by (auto simp: csys_inv_def intro: conn_inv_reflectionResolver)
next
  case (connectivity_change c s st)
  then show ?case by (auto simp: csys_inv_def intro: conn_inv_connectivity)
qed (auto simp: csys_inv_def)

interpretation csys: invariant_system csys_step csys_start csys_inv
  by unfold_locales (auto intro: csys_inv_start csys_inv_step)

text \<open>Alone, the critical sections of a request compute what the sequential \<^verbatim>\<open>connect\<close> does.\<close>

lemma connect_service_steps:
  assumes "pcs s p = CheckInjected k"
    and "connect_service k gd (sys_world s, sys_handler s) = ((w, h), r)"
  shows "\<exists>n. run csys_step n s
    (s\<lparr>sys_world := w, sys_handler := h, pcs := (pcs s)(p := Returned k r)\<rparr>)"
proof (cases "injectedClient (sys_handler s)")
  case True
  let ?s1 = "s\<lparr>pcs := (pcs s)(p := Reading k)\<rparr>"
  have "csys_step s ?s1" using assms(1) True by (rule check_injected)
  moreover have "csys_step ?s1 (?s1\<lparr>pcs := (pcs ?s1)(p := Returned k (Inr (stub_of k (sys_handler ?s1))))\<rparr>)"
    by (rule read_stub) simp
  moreover have "w = sys_world s" "h = sys_handler s" "r = Inr (stub_of k (sys_handler s))"
    using assms(2) True by (auto simp: connect_service_def)
  ultimately show ?thesis
    by (intro exI [of _ "Suc (Suc 0)"]) (auto intro!: run.intros)
next
  case False
  let ?s1 = "s\<lparr>pcs := (pcs s)(p := Dialing k)\<rparr>"
  obtain w' h' e where d: "dial gd (sys_world s, sys_handler s) = ((w', h'), e)"
    by (metis prod.exhaust)
  have s1: "csys_step s ?s1" using assms(1) False by (rule check_managed)
  show ?thesis
  proof (cases e)
    case (Some err)
    have "csys_step ?s1 (?s1\<lparr>sys_world := w', sys_handler := h', pcs := (pcs ?s1)(p := Returned k (Inl err))\<rparr>)"
      by (rule dial_failed) (use d Some in simp_all)
    moreover have "w = w'" "h = h'" "r = Inl err"
      using assms(2) False d Some by (auto simp: connect_service_def)
    ultimately show ?thesis using s1
      by (intro exI [of _ "Suc (Suc 0)"]) (auto intro!: run.intros)
  next
    case None
    let ?s2 = "?s1\<lparr>sys_world := w', sys_handler := h', pcs := (pcs ?s1)(p := Reading k)\<rparr>"
    have "csys_step ?s1 ?s2"
      by (rule dial_ok) (use d None in simp_all)
    moreover have "csys_step ?s2 (?s2\<lparr>pcs := (pcs ?s2)(p := Returned k (Inr (stub_of k (sys_handler ?s2))))\<rparr>)"
      by (rule read_stub) simp
    moreover have "w = w'" "h = h'" "r = Inr (stub_of k h')"
      using assms(2) False d None by (auto simp: connect_service_def)
    ultimately show ?thesis using s1
      by (intro exI [of _ "Suc (Suc (Suc 0))"]) (auto intro!: run.intros)
  qed
qed

section \<open>Properties\<close>

text \<open>
  C5. No connection leaks. In every reachable state of any number of interleaved requests, the
  connections ever dialed are the closed ones, each closed once, and the current one; both stubs and
  the reflection resolver belong to the current connection.
\<close>

theorem connections_accounted:
  assumes "reach csys_step csys_start s"
  shows "distinct (closed (sys_world s)) \<and>
    {..<dialed (sys_world s)} - set (closed (sys_world s)) = set_option (h_conn (sys_handler s)) \<and>
    (\<forall>k. stub_of k (sys_handler s) = map_option StubFor (h_conn (sys_handler s))) \<and>
    set_option (h_reflResolver (sys_handler s)) \<subseteq> set_option (h_conn (sys_handler s))"
proof -
  have "conn_inv (sys_world s, sys_handler s)"
    using csys.reachable_inv [OF assms] by (simp add: csys_inv_def)
  then show ?thesis
    by (auto simp: conn_inv_def stub_of_def split: option.splits service.splits)
qed

definition sys0 :: csys where
  "sys0 = \<lparr>sys_world = new_world, sys_handler = new_handler '':50051'', pcs = (\<lambda>_. NotRunning)\<rparr>"

definition begun :: "nat \<Rightarrow> service \<Rightarrow> csys \<Rightarrow> csys" where
  "begun p k s = s\<lparr>pcs := (pcs s)(p := CheckInjected k)\<rparr>"

definition managed :: "nat \<Rightarrow> service \<Rightarrow> csys \<Rightarrow> csys" where
  "managed p k s = s\<lparr>pcs := (pcs s)(p := Dialing k)\<rparr>"

definition dialed_ok :: "nat \<Rightarrow> service \<Rightarrow> csys \<Rightarrow> csys" where
  "dialed_ok p k s =
     (let (w, h) = fst (dial (\<lambda>_. None) (sys_world s, sys_handler s))
      in s\<lparr>sys_world := w, sys_handler := h, pcs := (pcs s)(p := Reading k)\<rparr>)"

lemma sys0_reach: "reach csys_step csys_start sys0"
  by (rule reach_start) (auto simp: csys_start_def sys0_def)

lemma begun_reach:
  "reach csys_step csys_start s \<Longrightarrow> pcs s p = NotRunning \<Longrightarrow> reach csys_step csys_start (begun p k s)"
  unfolding begun_def by (erule reach_step) (rule begin_request, simp)

lemma managed_reach:
  "reach csys_step csys_start s \<Longrightarrow> pcs s p = CheckInjected k \<Longrightarrow> \<not> injectedClient (sys_handler s) \<Longrightarrow>
     reach csys_step csys_start (managed p k s)"
  unfolding managed_def by (erule reach_step) (rule check_managed)

lemma dialed_ok_reach:
  assumes "reach csys_step csys_start s" and "pcs s p = Dialing k"
  shows "reach csys_step csys_start (dialed_ok p k s)"
proof -
  have "snd (dial (\<lambda>_. None) (sys_world s, sys_handler s)) = None"
    by (simp add: dial_def Let_def split: option.splits)
  then obtain w h where d: "dial (\<lambda>_. None) (sys_world s, sys_handler s) = ((w, h), None)"
    by (metis prod.collapse)
  have "csys_step s (s\<lparr>sys_world := w, sys_handler := h, pcs := (pcs s)(p := Reading k)\<rparr>)"
    using assms(2) d by (rule dial_ok)
  with assms(1) show ?thesis by (auto simp: dialed_ok_def d intro: reach_step)
qed

definition sys_dialed :: csys where
  "sys_dialed = dialed_ok 0 Channelz (managed 0 Channelz (begun 0 Channelz sys0))"

lemmas sys_dialed_defs = sys_dialed_def dialed_ok_def managed_def begun_def sys0_def new_world_def
  new_handler_def dial_def injectedClient_def

lemma sys_dialed_reach: "reach csys_step csys_start sys_dialed"
  unfolding sys_dialed_def
  by (intro dialed_ok_reach managed_reach begun_reach sys0_reach)
    (simp_all add: sys_dialed_defs)

theorem connections_accounted_witness:
  "h_conn (sys_handler sys_dialed) = Some 0 \<and> {..<dialed (sys_world sys_dialed)} - set (closed (sys_world sys_dialed)) = {0}"
  using connections_accounted [OF sys_dialed_reach] by (simp add: sys_dialed_defs Let_def)

text \<open>
  C6. A request that runs alone is served well: from every reachable state, \<^verbatim>\<open>connect\<close> and
  \<^verbatim>\<open>connectCSDS\<close> either return the stub of the current connection, which is then neither failed nor
  shut down, or an error because dialing the handler's host failed, and then no connection is kept.
\<close>

theorem connect_serves:
  assumes "reach csys_step csys_start s"
    and "connect_service k gd (sys_world s, sys_handler s) = ((w, h), r)"
  shows "case r of
      Inr st \<Rightarrow> \<exists>c. st = Some (StubFor c) \<and> h_conn h = Some c \<and> \<not> broken (conn_state w c)
    | Inl err \<Rightarrow> h_conn h = None \<and> gd (getHostFromBindAddress (bindAddress (sys_handler s))) \<noteq> None"
proof -
  have inv: "conn_inv (sys_world s, sys_handler s)"
    using csys.reachable_inv [OF assms(1)] by (simp add: csys_inv_def)
  note inj = conn_inv_not_injected [OF inv]
  show ?thesis
  proof (cases r)
    case (Inl err)
    then have "gd (getHostFromBindAddress (bindAddress (sys_handler s))) \<noteq> None"
      using assms(2) inj by (auto simp: connect_service_def dial_def Let_def split: option.splits if_splits)
    with Inl show ?thesis
      using connect_service_cases [OF inv, of k gd] assms(2) by simp
  next
    case (Inr st)
    then show ?thesis using connect_service_cases [OF inv, of k gd] assms(2) by simp
  qed
qed

theorem connect_serves_witness:
  "snd (connect_service CSDS (\<lambda>_. Some ''refused'') (sys_world sys_dialed, sys_handler sys_dialed)) = Inr (Some (StubFor 0)) \<and>
   \<not> broken (conn_state (sys_world sys_dialed) 0)"
proof -
  have "connect_service CSDS (\<lambda>_. Some ''refused'') (sys_world sys_dialed, sys_handler sys_dialed) =
      ((sys_world sys_dialed, sys_handler sys_dialed), Inr (Some (StubFor 0)))"
    by (simp add: connect_service_def stub_of_def broken_def sys_dialed_defs Let_def)
  from connect_serves [OF sys_dialed_reach this] this show ?thesis by simp
qed

text \<open>
  C7. The three critical sections of \<^verbatim>\<open>connect\<close> are not atomic: a request can be handed a nil client
  without an error. It dials; the connection fails; another request tears it down and fails to dial
  anew; then the first request reads the client field.
\<close>

theorem connect_race_nil_client:
  "\<exists>s. reach csys_step csys_start s \<and> pcs s 0 = Returned Channelz (Inr None)"
proof -
  let ?s1 = "managed 1 Channelz (begun 1 Channelz sys_dialed)"
  let ?s2 = "?s1\<lparr>sys_world := (sys_world ?s1)\<lparr>conn_state := (conn_state (sys_world ?s1))(0 := TransientFailure)\<rparr>\<rparr>"
  have "reach csys_step csys_start ?s1"
    by (intro managed_reach begun_reach sys_dialed_reach) (simp_all add: sys_dialed_defs Let_def)
  moreover have "csys_step ?s1 ?s2"
    by (rule connectivity_change) (simp add: sys_dialed_defs Let_def)
  ultimately have r2: "reach csys_step csys_start ?s2" by (rule reach_step)
  obtain w h e where d: "dial (\<lambda>_. Some ''refused'') (sys_world ?s2, sys_handler ?s2) = ((w, h), Some e)"
    and h: "h_client h = None"
    by (simp add: sys_dialed_defs Let_def broken_def)
  let ?s3 = "?s2\<lparr>sys_world := w, sys_handler := h, pcs := (pcs ?s2)(1 := Returned Channelz (Inl e))\<rparr>"
  have "csys_step ?s2 ?s3"
    by (rule dial_failed [OF _ d]) (simp add: managed_def)
  with r2 have r3: "reach csys_step csys_start ?s3" by (rule reach_step)
  have "pcs ?s3 0 = Reading Channelz" by (simp add: sys_dialed_defs Let_def)
  let ?s4 = "?s3\<lparr>pcs := (pcs ?s3)(0 := Returned Channelz (Inr (stub_of Channelz (sys_handler ?s3))))\<rparr>"
  have "csys_step ?s3 ?s4" using \<open>pcs ?s3 0 = Reading Channelz\<close> by (rule read_stub)
  with r3 have "reach csys_step csys_start ?s4" by (rule reach_step)
  moreover have "pcs ?s4 0 = Returned Channelz (Inr None)" by (simp add: stub_of_def h)
  ultimately show ?thesis by blast
qed

end
