(* ===== verification/GoText.thy ===== *)
theory GoText
  imports GoStrings
begin

text \<open>
  Text as Go sees it: a string is bytes, and a range loop over it decodes UTF-8 (a byte that is not
  the start of a valid sequence is one rune U+FFFD of width 1, as in \<^verbatim>\<open>unicode/utf8\<close>). On top of it
  \<^verbatim>\<open>strconv.Quote\<close> (the verb \<^verbatim>\<open>%q\<close> of the error messages) and \<^verbatim>\<open>html.EscapeString\<close>. The tables
  of package \<^verbatim>\<open>unicode\<close> are an argument: which runes are printable or upper case, and the upper
  case of a rune; \<open>ascii_tables\<close> says what they hold for ASCII.
\<close>

record unicode_tables =
  isPrint :: "nat \<Rightarrow> bool"
  isUpper :: "nat \<Rightarrow> bool"
  toUpper :: "nat \<Rightarrow> nat"

definition ascii_tables :: "unicode_tables \<Rightarrow> bool" where
  "ascii_tables u \<longleftrightarrow>
     (\<forall>r<128. isPrint u r = (32 \<le> r \<and> r < 127) \<and> isUpper u r = (65 \<le> r \<and> r \<le> 90) \<and>
        toUpper u r = (if 97 \<le> r \<and> r \<le> 122 then r - 32 else r))"

text \<open>Tables that know ASCII only, an instance the witnesses evaluate.\<close>

definition ascii_only :: unicode_tables where
  "ascii_only =
     \<lparr>isPrint = (\<lambda>r. 32 \<le> r \<and> r < 127), isUpper = (\<lambda>r. 65 \<le> r \<and> r \<le> 90),
      toUpper = (\<lambda>r. if 97 \<le> r \<and> r \<le> 122 then r - 32 else r)\<rparr>"

lemma ascii_only_tables [simp]: "ascii_tables ascii_only"
  by (simp add: ascii_tables_def ascii_only_def)

section \<open>UTF-8\<close>

definition byte :: "char \<Rightarrow> nat" where
  "byte c = of_char c"

definition runeError :: nat where
  "runeError = 65533"

definition cont :: "nat \<Rightarrow> bool" where
  "cont b \<longleftrightarrow> 128 \<le> b \<and> b \<le> 191"

text \<open>\<^verbatim>\<open>utf8.DecodeRuneInString\<close>: the first rune and its width, at least 1.\<close>

definition decode1 :: "gostring \<Rightarrow> nat \<times> nat" where
  "decode1 s =
     (case map byte (take 4 s) of
        [] \<Rightarrow> (runeError, 1)
      | b0 # bs \<Rightarrow>
          if b0 < 128 then (b0, 1)
          else if 194 \<le> b0 \<and> b0 \<le> 223 then
            (case bs of
               b1 # _ \<Rightarrow> if cont b1 then ((b0 - 192) * 64 + (b1 - 128), 2) else (runeError, 1)
             | [] \<Rightarrow> (runeError, 1))
          else if 224 \<le> b0 \<and> b0 \<le> 239 then
            (case bs of
               b1 # b2 # _ \<Rightarrow>
                 if cont b1 \<and> cont b2 \<and> (b0 = 224 \<longrightarrow> 160 \<le> b1) \<and> (b0 = 237 \<longrightarrow> b1 \<le> 159)
                 then ((b0 - 224) * 4096 + (b1 - 128) * 64 + (b2 - 128), 3) else (runeError, 1)
             | _ \<Rightarrow> (runeError, 1))
          else if 240 \<le> b0 \<and> b0 \<le> 244 then
            (case bs of
               b1 # b2 # b3 # _ \<Rightarrow>
                 if cont b1 \<and> cont b2 \<and> cont b3 \<and> (b0 = 240 \<longrightarrow> 144 \<le> b1) \<and> (b0 = 244 \<longrightarrow> b1 \<le> 143)
                 then ((b0 - 240) * 262144 + (b1 - 128) * 4096 + (b2 - 128) * 64 + (b3 - 128), 4)
                 else (runeError, 1)
             | _ \<Rightarrow> (runeError, 1))
          else (runeError, 1))"

definition validRune :: "nat \<Rightarrow> bool" where
  "validRune r \<longleftrightarrow> r < 55296 \<or> (57343 < r \<and> r \<le> 1114111)"

text \<open>\<^verbatim>\<open>utf8.AppendRune\<close>: an invalid rune is written as U+FFFD.\<close>

definition encode_valid :: "nat \<Rightarrow> gostring" where
  "encode_valid r =
     map char_of
       (if r < 128 then [r]
        else if r < 2048 then [192 + r div 64, 128 + r mod 64]
        else if r < 65536 then [224 + r div 4096, 128 + r div 64 mod 64, 128 + r mod 64]
        else [240 + r div 262144, 128 + r div 4096 mod 64, 128 + r div 64 mod 64, 128 + r mod 64])"

definition encodeRune :: "nat \<Rightarrow> gostring" where
  "encodeRune r = encode_valid (if validRune r then r else runeError)"

text \<open>The range loop over a string: for every rune its byte index, its value and its bytes.\<close>

function runes :: "nat \<Rightarrow> gostring \<Rightarrow> (nat \<times> nat \<times> gostring) list" where
  "runes i s =
     (if s = [] then []
      else (let (r, w) = decode1 s in (i, r, take w s) # runes (i + max 1 w) (drop (max 1 w) s)))"
  by pat_completeness auto
termination
  by (relation "measure (\<lambda>(i, s). length s)") (auto simp: max_def split: if_splits)

declare runes.simps [simp del]

lemma runes_Nil [simp]: "runes i [] = []"
  by (simp add: runes.simps)

lemma byte_less [simp]: "byte c < 256"
  by (simp add: byte_def)

lemma byte_char_of: "n < 256 \<Longrightarrow> byte (char_of n) = n"
  by (simp add: byte_def)

lemma char_of_byte [simp]: "char_of (byte c) = c"
  by (simp add: byte_def)

lemma decode1_ascii: "byte c < 128 \<Longrightarrow> decode1 (c # s) = (byte c, 1)"
  by (simp add: decode1_def)

lemma encodeRune_ascii: "r < 128 \<Longrightarrow> encodeRune r = [char_of r]"
  by (simp add: encodeRune_def encode_valid_def validRune_def)

lemma runes_ascii:
  "\<forall>c\<in>set s. byte c < 128 \<Longrightarrow> runes i s = map (\<lambda>(k, c). (k, byte c, [c])) (enumerate i s)"
  by (induction s arbitrary: i) (auto simp: runes.simps [of _ "_ # _"] decode1_ascii)

text \<open>Decoding reads back what encoding wrote.\<close>

lemma split_base64: "(n :: nat) = n div 64 * 64 + n mod 64"
  by simp

lemma split2_base64: "(n :: nat) = n div 64 div 64 * 4096 + n div 64 mod 64 * 64 + n mod 64"
  using split_base64 [of n] split_base64 [of "n div 64"] by linarith

lemma split3_base64:
  "(n :: nat) = n div 64 div 64 div 64 * 262144 + n div 64 div 64 mod 64 * 4096 + n div 64 mod 64 * 64 + n mod 64"
  using split2_base64 [of n] split_base64 [of "n div 64 div 64"] by linarith

lemma div_base64: "(n :: nat) div 4096 = n div 64 div 64" "n div 262144 = n div 64 div 64 div 64"
  by (simp_all flip: div_mult2_eq)

lemma decode1_width3:
  "a < 16 \<Longrightarrow> b < 64 \<Longrightarrow> c < 64 \<Longrightarrow> (a = 0 \<Longrightarrow> 32 \<le> b) \<Longrightarrow> (a = 13 \<Longrightarrow> b < 32) \<Longrightarrow>
     decode1 (map char_of [224 + a, 128 + b, 128 + c] @ s) = (a * 4096 + b * 64 + c, 3)"
  by (auto simp: decode1_def byte_char_of cont_def)

lemma decode1_width4:
  "a \<le> 4 \<Longrightarrow> b < 64 \<Longrightarrow> c < 64 \<Longrightarrow> d < 64 \<Longrightarrow> (a = 0 \<Longrightarrow> 16 \<le> b) \<Longrightarrow> (a = 4 \<Longrightarrow> b < 16) \<Longrightarrow>
     decode1 (map char_of [240 + a, 128 + b, 128 + c, 128 + d] @ s) =
       (a * 262144 + b * 4096 + c * 64 + d, 4)"
  by (auto simp: decode1_def byte_char_of cont_def)

lemma decode1_encode_valid:
  assumes "validRune r"
  shows "decode1 (encode_valid r @ s) = (r, length (encode_valid r))"
proof -
  consider "r < 128" | "128 \<le> r" "r < 2048" | "2048 \<le> r" "r < 65536" | "65536 \<le> r" "r \<le> 1114111"
    using assms by (force simp: validRune_def)
  then show ?thesis
  proof cases
    case 1
    then show ?thesis by (simp add: encode_valid_def decode1_def byte_char_of)
  next
    case 2
    then have "r div 64 < 32" "2 \<le> r div 64" by auto
    then show ?thesis using 2
      by (simp add: encode_valid_def decode1_def byte_char_of cont_def)
  next
    case 3
    obtain a b c where abc: "a = r div 4096" "b = r div 64 mod 64" "c = r mod 64" by blast
    have r: "r = a * 4096 + b * 64 + c"
      using split2_base64 [of r] by (simp add: abc div_base64)
    have "a < 16" "b < 64" "c < 64" using 3 by (simp_all add: abc div_base64)
    moreover from this have "a = 0 \<Longrightarrow> 32 \<le> b" "a = 13 \<Longrightarrow> b < 32"
      using r 3 assms by (auto simp: validRune_def)
    moreover have "encode_valid r = map char_of [224 + a, 128 + b, 128 + c]"
      using 3 by (simp add: encode_valid_def abc)
    ultimately show ?thesis using r decode1_width3 [of a b c s] by simp
  next
    case 4
    obtain a b c d where abcd:
      "a = r div 262144" "b = r div 4096 mod 64" "c = r div 64 mod 64" "d = r mod 64" by blast
    have r: "r = a * 262144 + b * 4096 + c * 64 + d"
      using split3_base64 [of r] by (simp add: abcd div_base64)
    have "a \<le> 4" "b < 64" "c < 64" "d < 64" using 4 by (simp_all add: abcd div_base64)
    moreover from this have "a = 0 \<Longrightarrow> 16 \<le> b" "a = 4 \<Longrightarrow> b < 16" using r 4 by auto
    moreover have "encode_valid r = map char_of [240 + a, 128 + b, 128 + c, 128 + d]"
      using 4 by (simp add: encode_valid_def abcd)
    ultimately show ?thesis using r decode1_width4 [of a b c d s] by simp
  qed
qed

lemma encode_valid_not_Nil [simp]: "encode_valid r \<noteq> []"
  by (simp add: encode_valid_def)

lemma runes_encode:
  "\<forall>r\<in>set rs. validRune r \<Longrightarrow> map (fst \<circ> snd) (runes i (concat (map encodeRune rs))) = rs"
proof (induction rs arbitrary: i)
  case Nil
  then show ?case by simp
next
  case (Cons r rs)
  let ?e = "encode_valid r" and ?s = "concat (map encodeRune rs)"
  have enc: "encodeRune r = ?e" using Cons.prems by (simp add: encodeRune_def)
  have "max 1 (length ?e) = length ?e"
    by (metis One_nat_def Suc_leI encode_valid_not_Nil length_greater_0_conv max.absorb2)
  moreover have "decode1 (?e @ ?s) = (r, length ?e)"
    using Cons.prems by (intro decode1_encode_valid) simp
  ultimately have "runes i (?e @ ?s) = (i, r, ?e) # runes (i + length ?e) ?s"
    by (subst runes.simps) simp
  then show ?case using Cons by (simp add: enc)
qed

section \<open>strconv.Quote\<close>

definition hex_digit :: "nat \<Rightarrow> char" where
  "hex_digit n = (if n < 10 then char_of (48 + n) else char_of (87 + n))"

fun hex_digits :: "nat \<Rightarrow> nat \<Rightarrow> gostring" where
  "hex_digits 0 n = []"
| "hex_digits (Suc k) n = hex_digits k (n div 16) @ [hex_digit (n mod 16)]"

definition backslash :: char where
  "backslash = char_of (92 :: nat)"

definition dquote :: char where
  "dquote = char_of (34 :: nat)"

definition quote_rune :: "unicode_tables \<Rightarrow> nat \<Rightarrow> gostring" where
  "quote_rune u r =
     (if r = 34 \<or> r = 92 then [backslash, char_of r]
      else if isPrint u r then encodeRune r
      else if r = 7 then [backslash, CHR ''a'']
      else if r = 8 then [backslash, CHR ''b'']
      else if r = 12 then [backslash, CHR ''f'']
      else if r = 10 then [backslash, CHR ''n'']
      else if r = 13 then [backslash, CHR ''r'']
      else if r = 9 then [backslash, CHR ''t'']
      else if r = 11 then [backslash, CHR ''v'']
      else if r < 32 \<or> r = 127 then [backslash, CHR ''x''] @ hex_digits 2 r
      else if r < 65536 then [backslash, CHR ''u''] @ hex_digits 4 r
      else [backslash, CHR ''U''] @ hex_digits 8 r)"

definition goQuote :: "unicode_tables \<Rightarrow> gostring \<Rightarrow> gostring" where
  "goQuote u s =
     [dquote] @
     concat (map (\<lambda>(i, r, bs).
       if r = runeError \<and> length bs = 1 then [backslash, CHR ''x''] @ hex_digits 2 (byte (hd bs))
       else quote_rune u r) (runes 0 s)) @ [dquote]"

section \<open>html.EscapeString\<close>

definition escape_char :: "char \<Rightarrow> gostring" where
  "escape_char c =
     (if byte c = 38 then ''&amp;''
      else if byte c = 39 then ''&#39;''
      else if byte c = 60 then ''&lt;''
      else if byte c = 62 then ''&gt;''
      else if byte c = 34 then ''&#34;''
      else [c])"

definition escapeString :: "gostring \<Rightarrow> gostring" where
  "escapeString s = concat (map escape_char s)"

definition markup_char :: "char \<Rightarrow> bool" where
  "markup_char c \<longleftrightarrow> byte c \<in> {34, 39, 60, 62}"

lemma escapeString_append [simp]: "escapeString (s @ t) = escapeString s @ escapeString t"
  by (simp add: escapeString_def)

lemma entities_no_markup:
  "\<forall>c\<in>set (''&amp;'' @ ''&#39;'' @ ''&lt;'' @ ''&gt;'' @ ''&#34;''). \<not> markup_char c"
  by (simp add: markup_char_def byte_def)

lemma escape_char_no_markup: "c \<in> set (escape_char d) \<Longrightarrow> \<not> markup_char c"
proof -
  assume c: "c \<in> set (escape_char d)"
  show "\<not> markup_char c"
  proof (cases "byte d \<in> {34, 38, 39, 60, 62}")
    case True
    with c have "c \<in> set (''&amp;'' @ ''&#39;'' @ ''&lt;'' @ ''&gt;'' @ ''&#34;'')"
      by (auto simp only: escape_char_def set_append split: if_splits)
    then show ?thesis using entities_no_markup by blast
  next
    case False
    with c have "c = d" by (simp add: escape_char_def)
    with False show ?thesis by (simp add: markup_char_def)
  qed
qed

lemma escapeString_no_markup: "c \<in> set (escapeString s) \<Longrightarrow> \<not> markup_char c"
  by (auto simp: escapeString_def dest: escape_char_no_markup)

lemma escapeString_plain: "\<forall>c\<in>set s. \<not> markup_char c \<and> byte c \<noteq> 38 \<Longrightarrow> escapeString s = s"
  by (induction s) (auto simp: escapeString_def escape_char_def markup_char_def)

end
