(* ===== verification/Reflection.thy ===== *)
theory Reflection
  imports GoText
begin

text \<open>
  \<^verbatim>\<open>xds_reflection_resolver.go\<close>: message types for \<^verbatim>\<open>google.protobuf.Any\<close> payloads, looked up over the
  target's own reflection service. A type that is not known yet is asked for by name; the files of
  the answer are registered after the files they import, which are asked for by file name.

  Outside the repository, and arguments here: the stream to the server (\<open>reflection_server\<close>: opening,
  sending, receiving) and the protobuf runtime (\<open>proto_rt\<close>: decoding a file, building its descriptor
  against the registered files, refusing a conflicting registration, the types compiled in). The two
  registries of the resolver are lists: the registered files in order of registration with their
  message types, and the names of the registered types. The recursion follows whatever the server
  declares as imports, so it takes fuel; running out of it is \<open>None\<close>.
\<close>

section \<open>The server and the runtime\<close>

datatype rerr = RErr nat gostring

fun err_code :: "rerr \<Rightarrow> nat" where
  "err_code (RErr c t) = c"

fun err_text :: "rerr \<Rightarrow> gostring" where
  "err_text (RErr c t) = t"

text \<open>\<^verbatim>\<open>codes.Unknown\<close>, the code of an error made with \<^verbatim>\<open>fmt.Errorf\<close>, and \<^verbatim>\<open>codes.Unimplemented\<close>.\<close>

definition code_Unknown :: nat where
  "code_Unknown = 2"

definition code_Unimplemented :: nat where
  "code_Unimplemented = 12"

datatype request = FileContainingSymbol gostring | FileByFilename gostring

datatype reply = ErrorResponse nat gostring | FileDescriptorResponse "gostring list" | OtherReply gostring

record 's reflection_server =
  open_stream :: "rerr + 's"
  send_request :: "'s \<Rightarrow> request \<Rightarrow> rerr option"
  recv_reply :: "'s \<Rightarrow> request \<Rightarrow> rerr + reply"

record 'f file_proto =
  fp_name :: gostring
  fp_deps :: "gostring list"
  fp_body :: 'f

datatype msg_desc = MsgDesc gostring "msg_desc list"

record 'f proto_rt =
  unmarshal_file :: "gostring \<Rightarrow> gostring + 'f file_proto"
  new_file :: "'f file_proto \<Rightarrow> 'f file_proto list \<Rightarrow> gostring + msg_desc list"
  register_conflict :: "'f file_proto \<Rightarrow> 'f file_proto list \<Rightarrow> gostring option"
  global_type :: "gostring \<Rightarrow> bool"

section \<open>Transport\<close>

definition roundTrip :: "'s reflection_server \<Rightarrow> 's \<Rightarrow> request \<Rightarrow> rerr + gostring list" where
  "roundTrip srv t req =
     (case send_request srv t req of
        Some err \<Rightarrow> Inl err
      | None \<Rightarrow>
          (case recv_reply srv t req of
             Inl err \<Rightarrow> Inl err
           | Inr (ErrorResponse c msg) \<Rightarrow> Inl (RErr c msg)
           | Inr (FileDescriptorResponse raws) \<Rightarrow> Inr raws
           | Inr (OtherReply ty) \<Rightarrow>
               Inl (RErr code_Unknown (''channelz: unexpected reflection response '' @ ty))))"

record ('f, 's) resolver =
  transport :: "'s option"
  unusable :: bool
  files :: "('f file_proto \<times> msg_desc list) list"
  types :: "gostring list"

definition newReflectionResolver :: "('f, 's) resolver" where
  "newReflectionResolver = \<lparr>transport = None, unusable = False, files = [], types = []\<rparr>"

definition call :: "'s reflection_server \<Rightarrow> request \<Rightarrow> ('f, 's) resolver \<Rightarrow> ('f, 's) resolver \<times> (rerr + gostring list)" where
  "call srv req r =
     (if unusable r then (r, Inl (RErr code_Unknown ''channelz: target does not support gRPC reflection''))
      else case (case transport r of None \<Rightarrow> open_stream srv | Some t \<Rightarrow> Inr t) of
             Inl err \<Rightarrow> (r, Inl err)
           | Inr t \<Rightarrow>
               (case roundTrip srv t req of
                  Inl err \<Rightarrow>
                    ((if err_code err = code_Unimplemented then r\<lparr>unusable := True\<rparr> else r), Inl err)
                | Inr raws \<Rightarrow> (r\<lparr>transport := Some t\<rparr>, Inr raws)))"

section \<open>Registration\<close>

definition find_file :: "gostring \<Rightarrow> ('f, 's) resolver \<Rightarrow> bool" where
  "find_file path r = list_ex (\<lambda>(fd, ms). fp_name fd = path) (files r)"

fun registerMessageTypes :: "msg_desc list \<Rightarrow> gostring list \<Rightarrow> gostring list" where
  "registerMessageTypes [] ts = ts"
| "registerMessageTypes (MsgDesc n nested # ms) ts =
     registerMessageTypes ms (registerMessageTypes nested (gs_add n ts))"

type_synonym 'f batch = "(gostring, 'f file_proto) gomap"

text \<open>Decoding raw files into the batch stops at the first that does not decode.\<close>

fun add_raws :: "'f proto_rt \<Rightarrow> gostring list \<Rightarrow> 'f batch \<Rightarrow> 'f batch \<times> rerr option" where
  "add_raws rt [] b = (b, None)"
| "add_raws rt (raw # raws) b =
     (case unmarshal_file rt raw of
        Inl err \<Rightarrow> (b, Some (RErr code_Unknown err))
      | Inr fd \<Rightarrow> add_raws rt raws (gm_set (fp_name fd) fd b))"

text \<open>A dependency that is not in the batch is asked for by file name.\<close>

definition fetch_dep ::
  "'f proto_rt \<Rightarrow> unicode_tables \<Rightarrow> 's reflection_server \<Rightarrow> gostring \<Rightarrow> ('f, 's) resolver \<times> 'f batch \<Rightarrow>
     (('f, 's) resolver \<times> 'f batch) \<times> (rerr + 'f file_proto)" where
  "fetch_dep rt u srv dep s =
     (let (r, b) = s
      in case gm_get b dep of
           Some fd \<Rightarrow> (s, Inr fd)
         | None \<Rightarrow>
             (case call srv (FileByFilename dep) r of
                (r, Inl err) \<Rightarrow>
                  ((r, b), Inl (RErr (err_code err)
                     (''channelz: fetching reflection dependency '' @ goQuote u dep @ '': '' @ err_text err)))
              | (r, Inr raws) \<Rightarrow>
                  (case add_raws rt raws b of
                     (b, Some err) \<Rightarrow> ((r, b), Inl err)
                   | (b, None) \<Rightarrow>
                       (case gm_get b dep of
                          Some fd \<Rightarrow> ((r, b), Inr fd)
                        | None \<Rightarrow>
                            ((r, b), Inl (RErr code_Unknown
                               (''channelz: reflection server did not return dependency '' @ goQuote u dep)))))))"

text \<open>Building and registering the file itself, once its dependencies are registered.\<close>

definition add_file ::
  "'f proto_rt \<Rightarrow> unicode_tables \<Rightarrow> 'f file_proto \<Rightarrow> ('f, 's) resolver \<Rightarrow> ('f, 's) resolver \<times> rerr option" where
  "add_file rt u fd r =
     (if find_file (fp_name fd) r then (r, None)
      else case new_file rt fd (map fst (files r)) of
             Inl err \<Rightarrow>
               (r, Some (RErr code_Unknown
                  (''channelz: building descriptor for '' @ goQuote u (fp_name fd) @ '': '' @ err)))
           | Inr msgs \<Rightarrow>
               (case register_conflict rt fd (map fst (files r)) of
                  Some err \<Rightarrow> (r, Some (RErr code_Unknown err))
                | None \<Rightarrow>
                    (r\<lparr>files := files r @ [(fd, msgs)], types := registerMessageTypes msgs (types r)\<rparr>, None)))"

text \<open>The loop over the dependencies, for a given registration of one file.\<close>

fun register_deps ::
  "'f proto_rt \<Rightarrow> unicode_tables \<Rightarrow> 's reflection_server \<Rightarrow>
     ('f file_proto \<Rightarrow> ('f, 's) resolver \<times> 'f batch \<Rightarrow> ((('f, 's) resolver \<times> 'f batch) \<times> rerr option) option) \<Rightarrow>
     gostring list \<Rightarrow> ('f, 's) resolver \<times> 'f batch \<Rightarrow> ((('f, 's) resolver \<times> 'f batch) \<times> rerr option) option" where
  "register_deps rt u srv reg [] s = Some (s, None)"
| "register_deps rt u srv reg (dep # deps) s =
     (if find_file dep (fst s) then register_deps rt u srv reg deps s
      else case fetch_dep rt u srv dep s of
             (s, Inl err) \<Rightarrow> Some (s, Some err)
           | (s, Inr fd) \<Rightarrow>
               (case reg fd s of
                  None \<Rightarrow> None
                | Some (s, Some err) \<Rightarrow> Some (s, Some err)
                | Some (s, None) \<Rightarrow> register_deps rt u srv reg deps s))"

fun registerFileDescriptor ::
  "nat \<Rightarrow> 'f proto_rt \<Rightarrow> unicode_tables \<Rightarrow> 's reflection_server \<Rightarrow> 'f file_proto \<Rightarrow> ('f, 's) resolver \<times> 'f batch \<Rightarrow>
     ((('f, 's) resolver \<times> 'f batch) \<times> rerr option) option" where
  "registerFileDescriptor 0 rt u srv fd s = None"
| "registerFileDescriptor (Suc n) rt u srv fd s =
     (if find_file (fp_name fd) (fst s) then Some (s, None)
      else case register_deps rt u srv (registerFileDescriptor n rt u srv) (fp_deps fd) s of
             None \<Rightarrow> None
           | Some (s, Some err) \<Rightarrow> Some (s, Some err)
           | Some ((r, b), None) \<Rightarrow>
               (case add_file rt u fd r of (r, err) \<Rightarrow> Some ((r, b), err)))"

text \<open>
  The range loop over the batch; \<open>visits\<close> are the names in the order it sees them. The body adds
  entries to the map it ranges over, and Go may or may not visit those.
\<close>

fun register_batch ::
  "nat \<Rightarrow> 'f proto_rt \<Rightarrow> unicode_tables \<Rightarrow> 's reflection_server \<Rightarrow> gostring list \<Rightarrow> ('f, 's) resolver \<times> 'f batch \<Rightarrow>
     ((('f, 's) resolver \<times> 'f batch) \<times> rerr option) option" where
  "register_batch n rt u srv [] s = Some (s, None)"
| "register_batch n rt u srv (name # names) s =
     (case gm_get (snd s) name of
        None \<Rightarrow> register_batch n rt u srv names s
      | Some fd \<Rightarrow>
          (case registerFileDescriptor n rt u srv fd s of
             None \<Rightarrow> None
           | Some (s, Some err) \<Rightarrow> Some (s, Some err)
           | Some (s, None) \<Rightarrow> register_batch n rt u srv names s))"

definition registerFileDescriptors ::
  "nat \<Rightarrow> 'f proto_rt \<Rightarrow> unicode_tables \<Rightarrow> 's reflection_server \<Rightarrow> ('f batch \<Rightarrow> gostring list) \<Rightarrow> gostring list \<Rightarrow>
     ('f, 's) resolver \<Rightarrow> (('f, 's) resolver \<times> rerr option) option" where
  "registerFileDescriptors n rt u srv visits raws r =
     (case add_raws rt raws gm_empty of
        (b, Some err) \<Rightarrow> Some (r, Some err)
      | (b, None) \<Rightarrow> map_option (\<lambda>((r, b), err). (r, err)) (register_batch n rt u srv (visits b) (r, b)))"

section \<open>Lookups\<close>

datatype message_type = Compiled gostring | Dynamic gostring | EmptyType

definition find_type :: "gostring \<Rightarrow> ('f, 's) resolver \<Rightarrow> rerr + message_type" where
  "find_type name r =
     (if name \<in> set (types r) then Inr (Dynamic name) else Inl (RErr code_Unknown ''not found''))"

definition resolveMessageType ::
  "nat \<Rightarrow> 'f proto_rt \<Rightarrow> unicode_tables \<Rightarrow> 's reflection_server \<Rightarrow> ('f batch \<Rightarrow> gostring list) \<Rightarrow> gostring \<Rightarrow>
     ('f, 's) resolver \<Rightarrow> (('f, 's) resolver \<times> (rerr + message_type)) option" where
  "resolveMessageType n rt u srv visits name r =
     (case find_type name r of
        Inr mt \<Rightarrow> Some (r, Inr mt)
      | Inl _ \<Rightarrow>
          (case call srv (FileContainingSymbol name) r of
             (r, Inl err) \<Rightarrow> Some (r, Inl err)
           | (r, Inr raws) \<Rightarrow>
               (case registerFileDescriptors n rt u srv visits raws r of
                  None \<Rightarrow> None
                | Some (r, Some err) \<Rightarrow> Some (r, Inl err)
                | Some (r, None) \<Rightarrow> Some (r, find_type name r))))"

definition FindMessageByName ::
  "nat \<Rightarrow> 'f proto_rt \<Rightarrow> unicode_tables \<Rightarrow> 's reflection_server \<Rightarrow> ('f batch \<Rightarrow> gostring list) \<Rightarrow> gostring \<Rightarrow>
     ('f, 's) resolver \<Rightarrow> (('f, 's) resolver \<times> (rerr + message_type)) option" where
  "FindMessageByName n rt u srv visits name r =
     (if global_type rt name then Some (r, Inr (Compiled name))
      else resolveMessageType n rt u srv visits name r)"

text \<open>The state of \<^verbatim>\<open>FindMessageByURL\<close> includes the process-wide set of URLs already warned about and
  the log.\<close>

definition url_name :: "gostring \<Rightarrow> gostring" where
  "url_name url = (case lastIndexByte url CHR ''/'' of None \<Rightarrow> url | Some i \<Rightarrow> drop (i + 1) url)"

definition unknown_warning :: "unicode_tables \<Rightarrow> gostring \<Rightarrow> gostring" where
  "unknown_warning u url =
     ''channelz: could not resolve Any type '' @ goQuote u url @ '' via gRPC reflection; rendering as @type-only''"

record log_state =
  logged_urls :: "gostring list"
  warnings :: "gostring list"

definition FindMessageByURL ::
  "nat \<Rightarrow> 'f proto_rt \<Rightarrow> unicode_tables \<Rightarrow> 's reflection_server \<Rightarrow> ('f batch \<Rightarrow> gostring list) \<Rightarrow> gostring \<Rightarrow>
     ('f, 's) resolver \<times> log_state \<Rightarrow> ((('f, 's) resolver \<times> log_state) \<times> message_type) option" where
  "FindMessageByURL n rt u srv visits url s =
     (case FindMessageByName n rt u srv visits (url_name url) (fst s) of
        None \<Rightarrow> None
      | Some (r, Inr mt) \<Rightarrow> Some ((r, snd s), mt)
      | Some (r, Inl err) \<Rightarrow>
          (let l = snd s;
               l = (if url \<in> set (logged_urls l) then l
                    else l\<lparr>logged_urls := gs_add url (logged_urls l), warnings := warnings l @ [unknown_warning u url]\<rparr>)
           in Some ((r, l), EmptyType)))"

section \<open>What registration keeps\<close>

fun all_names :: "msg_desc list \<Rightarrow> gostring list" where
  "all_names [] = []"
| "all_names (MsgDesc n nested # ms) = n # all_names nested @ all_names ms"

definition registered :: "('f, 's) resolver \<Rightarrow> gostring list" where
  "registered r = map (\<lambda>e. fp_name (fst e)) (files r)"

lemma find_file_iff [simp]: "find_file path r \<longleftrightarrow> path \<in> set (registered r)"
  by (force simp: find_file_def registered_def list_ex_iff)

lemma set_registerMessageTypes [simp]: "set (registerMessageTypes ms ts) = set (all_names ms) \<union> set ts"
  by (induction ms ts rule: registerMessageTypes.induct) auto

text \<open>
  Files are registered once, after every file they import, and the types of a registered file are
  all registered.
\<close>

fun deps_first :: "gostring list \<Rightarrow> ('f file_proto \<times> msg_desc list) list \<Rightarrow> bool" where
  "deps_first known [] = True"
| "deps_first known ((fd, ms) # fs) =
     (set (fp_deps fd) \<subseteq> set known \<and> fp_name fd \<notin> set known \<and> deps_first (known @ [fp_name fd]) fs)"

definition reg_inv :: "('f, 's) resolver \<Rightarrow> bool" where
  "reg_inv r \<longleftrightarrow> deps_first [] (files r) \<and> (\<forall>(fd, ms)\<in>set (files r). set (all_names ms) \<subseteq> set (types r))"

lemma deps_first_snoc:
  "deps_first known (fs @ [(fd, ms)]) \<longleftrightarrow>
     deps_first known fs \<and> set (fp_deps fd) \<subseteq> set known \<union> (\<lambda>e. fp_name (fst e)) ` set fs \<and>
     fp_name fd \<notin> set known \<union> (\<lambda>e. fp_name (fst e)) ` set fs"
proof (induction fs arbitrary: known)
  case Nil
  then show ?case by simp
next
  case (Cons e fs)
  obtain fd' ms' where e: "e = (fd', ms')" by (cases e)
  show ?case by (simp add: e Cons.IH insert_commute conj_ac)
qed

definition extends :: "('f, 's) resolver \<Rightarrow> ('f, 's) resolver \<Rightarrow> bool" where
  "extends r r' \<longleftrightarrow> (\<exists>new. files r' = files r @ new) \<and> set (types r) \<subseteq> set (types r')"

lemma extends_refl [simp]: "extends r r"
  by (simp add: extends_def)

lemma extends_trans: "extends r r' \<Longrightarrow> extends r' r'' \<Longrightarrow> extends r r''"
  by (fastforce simp: extends_def)

lemma extends_registered: "extends r r' \<Longrightarrow> set (registered r) \<subseteq> set (registered r')"
  by (auto simp: extends_def registered_def)

text \<open>The steps that talk to the server leave both registries alone.\<close>

definition same_registries :: "('f, 's) resolver \<Rightarrow> ('f, 's) resolver \<Rightarrow> bool" where
  "same_registries r r' \<longleftrightarrow> files r' = files r \<and> types r' = types r"

lemma same_registries_simps:
  "same_registries r r' \<Longrightarrow> extends r r'" "same_registries r r' \<Longrightarrow> reg_inv r \<Longrightarrow> reg_inv r'"
  "same_registries r r' \<Longrightarrow> registered r' = registered r"
  by (auto simp: same_registries_def extends_def reg_inv_def registered_def)

lemma call_registries: "same_registries r (fst (call srv req r))"
  by (auto simp: call_def same_registries_def split: option.splits sum.splits)

definition batch_named :: "'f batch \<Rightarrow> bool" where
  "batch_named b \<longleftrightarrow> (\<forall>k fd. gm_get b k = Some fd \<longrightarrow> fp_name fd = k)"

lemma batch_named_set: "batch_named b \<Longrightarrow> batch_named (gm_set (fp_name fd) fd b)"
  by (simp add: batch_named_def gm.get_put)

lemma add_raws_named: "batch_named b \<Longrightarrow> batch_named (fst (add_raws rt raws b))"
proof (induction rt raws b rule: add_raws.induct)
  case (2 rt raw raws b)
  then show ?case by (cases "unmarshal_file rt raw") (simp_all add: batch_named_set)
qed simp

lemma batch_named_empty: "batch_named gm_empty"
  by (simp add: batch_named_def gm.get_empty)

lemma fetch_dep_facts:
  assumes "fetch_dep rt u srv dep s = (s', res)"
  shows "same_registries (fst s) (fst s') \<and> (batch_named (snd s) \<longrightarrow> batch_named (snd s')) \<and>
    (\<forall>fd. res = Inr fd \<longrightarrow> gm_get (snd s') dep = Some fd)"
proof -
  obtain r b where s: "s = (r, b)" by (cases s)
  obtain r1 answer where c: "call srv (FileByFilename dep) r = (r1, answer)" by (metis prod.exhaust)
  have r1: "same_registries r r1" using call_registries [of r srv "FileByFilename dep"] by (simp add: c)
  show ?thesis
  proof (cases "gm_get b dep")
    case (Some fd)
    then show ?thesis using assms s by (auto simp: fetch_dep_def same_registries_def)
  next
    case None
    show ?thesis
    proof (cases answer)
      case (Inl err)
      then show ?thesis using assms None s c r1 by (auto simp: fetch_dep_def)
    next
      case (Inr raws)
      obtain b1 e1 where a: "add_raws rt raws b = (b1, e1)" by (metis prod.exhaust)
      have "batch_named b \<longrightarrow> batch_named b1" using add_raws_named [of b rt raws] by (simp add: a)
      then show ?thesis using assms None s c r1 Inr a
        by (auto simp: fetch_dep_def split: option.splits)
    qed
  qed
qed

lemma add_file_facts:
  assumes "reg_inv r" and "set (fp_deps fd) \<subseteq> set (registered r)" and "add_file rt u fd r = (r', err)"
  shows "reg_inv r' \<and> extends r r' \<and> (err = None \<longrightarrow> fp_name fd \<in> set (registered r'))"
proof -
  consider "fp_name fd \<in> set (registered r)" "r' = r"
    | e where "r' = r" "err = Some e"
    | msgs where "fp_name fd \<notin> set (registered r)"
        "r' = r\<lparr>files := files r @ [(fd, msgs)], types := registerMessageTypes msgs (types r)\<rparr>"
    using assms(3) by (auto simp: add_file_def split: if_splits sum.splits option.splits)
  then show ?thesis
  proof cases
    case (3 msgs)
    then have "reg_inv r'" using assms(1,2) by (auto simp: reg_inv_def deps_first_snoc registered_def)
    then show ?thesis using 3 by (auto simp: extends_def registered_def)
  qed (use assms(1) in simp_all)
qed

text \<open>What one registration does, for every outcome.\<close>

definition keeps :: "('f, 's) resolver \<times> 'f batch \<Rightarrow> ('f, 's) resolver \<times> 'f batch \<Rightarrow> bool" where
  "keeps s s' \<longleftrightarrow> reg_inv (fst s') \<and> batch_named (snd s') \<and> extends (fst s) (fst s')"

lemma keeps_trans: "keeps s s' \<Longrightarrow> keeps s' s'' \<Longrightarrow> keeps s s''"
  by (auto simp: keeps_def intro: extends_trans)

lemma register_deps_keeps:
  assumes reg: "\<And>fd s s' err. reg fd s = Some (s', err) \<Longrightarrow> reg_inv (fst s) \<Longrightarrow> batch_named (snd s) \<Longrightarrow>
      keeps s s' \<and> (err = None \<longrightarrow> fp_name fd \<in> set (registered (fst s')))"
  shows "register_deps rt u srv reg deps s = Some (s', err) \<Longrightarrow> reg_inv (fst s) \<Longrightarrow> batch_named (snd s) \<Longrightarrow>
      keeps s s' \<and> (err = None \<longrightarrow> set deps \<subseteq> set (registered (fst s')))"
proof (induction deps arbitrary: s)
  case Nil
  then show ?case by (simp add: keeps_def)
next
  case (Cons dep deps)
  show ?case
  proof (cases "dep \<in> set (registered (fst s))")
    case True
    then have "keeps s s' \<and> (err = None \<longrightarrow> set deps \<subseteq> set (registered (fst s')))"
      using Cons.IH [of s] Cons.prems by simp
    then show ?thesis using True extends_registered [of "fst s" "fst s'"] by (auto simp: keeps_def)
  next
    case False
    obtain s1 res where f: "fetch_dep rt u srv dep s = (s1, res)" by (metis prod.exhaust)
    note facts = fetch_dep_facts [OF f]
    have k1: "keeps s s1"
      using facts Cons.prems same_registries_simps [of "fst s" "fst s1"] by (simp add: keeps_def)
    show ?thesis
    proof (cases res)
      case (Inl e)
      then show ?thesis using Cons.prems(1) False f k1 by auto
    next
      case (Inr fd)
      then have "gm_get (snd s1) dep = Some fd" "batch_named (snd s1)"
        using facts Cons.prems(3) by blast+
      then have name: "fp_name fd = dep" unfolding batch_named_def by blast
      have "reg fd s1 \<noteq> None"
        using Cons.prems(1) False f Inr by (cases "reg fd s1") simp_all
      then obtain s2 e2 where r: "reg fd s1 = Some (s2, e2)" by fastforce
      then have k2: "keeps s1 s2" "e2 = None \<longrightarrow> dep \<in> set (registered (fst s2))"
        using reg [OF r] k1 name by (auto simp: keeps_def)
      show ?thesis
      proof (cases e2)
        case (Some e)
        then show ?thesis using Cons.prems(1) False f Inr r keeps_trans [OF k1 k2(1)] by auto
      next
        case None
        then have "register_deps rt u srv reg deps s2 = Some (s', err)"
          using Cons.prems(1) False f Inr r by simp
        then have "keeps s2 s' \<and> (err = None \<longrightarrow> set deps \<subseteq> set (registered (fst s')))"
          using Cons.IH [of s2] k2(1) by (simp add: keeps_def)
        then show ?thesis
          using k1 k2 None keeps_trans extends_registered [of "fst s2" "fst s'"]
          by (auto simp: keeps_def intro: extends_trans)
      qed
    qed
  qed
qed

lemma register_keeps:
  "registerFileDescriptor n rt u srv fd s = Some (s', err) \<Longrightarrow> reg_inv (fst s) \<Longrightarrow> batch_named (snd s) \<Longrightarrow>
     keeps s s' \<and> (err = None \<longrightarrow> fp_name fd \<in> set (registered (fst s')))"
proof (induction n arbitrary: fd s s' err)
  case 0
  then show ?case by simp
next
  case (Suc n)
  show ?case
  proof (cases "fp_name fd \<in> set (registered (fst s))")
    case True
    then show ?thesis using Suc.prems by (auto simp: keeps_def)
  next
    case False
    obtain r1 b1 e1 where d: "register_deps rt u srv (registerFileDescriptor n rt u srv) (fp_deps fd) s = Some ((r1, b1), e1)"
      using Suc.prems(1) False by (auto split: option.splits)
    have k: "keeps s (r1, b1)" "e1 = None \<longrightarrow> set (fp_deps fd) \<subseteq> set (registered r1)"
      using register_deps_keeps [OF Suc.IH d] Suc.prems by auto
    show ?thesis
    proof (cases e1)
      case (Some e)
      then show ?thesis using Suc.prems(1) False d k by auto
    next
      case None
      obtain r2 e2 where a: "add_file rt u fd r1 = (r2, e2)" by (metis prod.exhaust)
      have "s' = (r2, b1)" "err = e2" using Suc.prems(1) False d None a by auto
      moreover have "reg_inv r2 \<and> extends r1 r2 \<and> (e2 = None \<longrightarrow> fp_name fd \<in> set (registered r2))"
        using add_file_facts [OF _ _ a] k None by (simp add: keeps_def)
      ultimately show ?thesis using k(1) by (auto simp: keeps_def intro: extends_trans)
    qed
  qed
qed

lemma register_batch_keeps:
  "register_batch n rt u srv names s = Some (s', err) \<Longrightarrow> reg_inv (fst s) \<Longrightarrow> batch_named (snd s) \<Longrightarrow> keeps s s'"
proof (induction names arbitrary: s)
  case Nil
  then show ?case by (simp add: keeps_def)
next
  case (Cons name names)
  show ?case
  proof (cases "gm_get (snd s) name")
    case None
    then show ?thesis using Cons.IH [of s] Cons.prems by simp
  next
    case (Some fd)
    obtain s1 e1 where r: "registerFileDescriptor n rt u srv fd s = Some (s1, e1)"
      using Cons.prems(1) Some by (cases "registerFileDescriptor n rt u srv fd s") auto
    have k: "keeps s s1" using register_keeps [OF r] Cons.prems by blast
    show ?thesis
    proof (cases e1)
      case None
      then have "register_batch n rt u srv names s1 = Some (s', err)" using Cons.prems(1) Some r by simp
      then show ?thesis using Cons.IH [of s1] k keeps_trans [OF k] by (simp add: keeps_def)
    next
      case (Some e)
      then show ?thesis using Cons.prems(1) \<open>gm_get (snd s) name = Some fd\<close> r k by simp
    qed
  qed
qed

lemma registerFileDescriptors_keeps:
  assumes "registerFileDescriptors n rt u srv visits raws r = Some (r', err)" and "reg_inv r"
  shows "reg_inv r' \<and> extends r r'"
proof -
  obtain b e where a: "add_raws rt raws gm_empty = (b, e)" by (metis prod.exhaust)
  have "batch_named b" using add_raws_named [OF batch_named_empty, of rt raws] by (simp add: a)
  then show ?thesis
    using assms a register_batch_keeps [of n rt u srv "visits b" "(r, b)"]
    by (cases e) (auto simp: registerFileDescriptors_def keeps_def)
qed

lemma resolve_keeps:
  assumes "resolveMessageType n rt u srv visits name r = Some (r', res)" and "reg_inv r"
  shows "reg_inv r' \<and> extends r r' \<and> (\<forall>mt. res = Inr mt \<longrightarrow> mt = Dynamic name \<and> name \<in> set (types r'))"
proof (cases "name \<in> set (types r)")
  case True
  then show ?thesis using assms by (auto simp: resolveMessageType_def find_type_def)
next
  case False
  obtain r1 answer where c: "call srv (FileContainingSymbol name) r = (r1, answer)" by (metis prod.exhaust)
  have "same_registries r r1" using call_registries [of r srv "FileContainingSymbol name"] by (simp add: c)
  then have r1: "reg_inv r1" "extends r r1" using assms(2) same_registries_simps by blast+
  show ?thesis
  proof (cases answer)
    case (Inl err)
    then show ?thesis using assms(1) False c r1 by (auto simp: resolveMessageType_def find_type_def)
  next
    case (Inr raws)
    obtain r2 e2 where f: "registerFileDescriptors n rt u srv visits raws r1 = Some (r2, e2)"
      using assms(1) False c Inr
      by (cases "registerFileDescriptors n rt u srv visits raws r1") (auto simp: resolveMessageType_def find_type_def)
    have "reg_inv r2 \<and> extends r1 r2" using registerFileDescriptors_keeps [OF f r1(1)] .
    then show ?thesis
      using assms(1) False c Inr f r1(2) extends_trans
      by (auto simp: resolveMessageType_def find_type_def split: option.splits if_splits)
  qed
qed

section \<open>What a server serves\<close>

text \<open>
  A property of every file of the server's answers holds of every file that is ever in the batch.
\<close>

definition raws_all :: "('f file_proto \<Rightarrow> bool) \<Rightarrow> 'f proto_rt \<Rightarrow> gostring list \<Rightarrow> bool" where
  "raws_all P rt raws \<longleftrightarrow> (\<forall>raw\<in>set raws. \<forall>fd. unmarshal_file rt raw = Inr fd \<longrightarrow> P fd)"

definition server_all :: "('f file_proto \<Rightarrow> bool) \<Rightarrow> 'f proto_rt \<Rightarrow> 's reflection_server \<Rightarrow> bool" where
  "server_all P rt srv \<longleftrightarrow>
     (\<forall>t req raws. recv_reply srv t req = Inr (FileDescriptorResponse raws) \<longrightarrow> raws_all P rt raws)"

definition batch_all :: "('f file_proto \<Rightarrow> bool) \<Rightarrow> 'f batch \<Rightarrow> bool" where
  "batch_all P b \<longleftrightarrow> batch_named b \<and> (\<forall>k fd. gm_get b k = Some fd \<longrightarrow> P fd)"

lemma batch_all_set: "batch_all P b \<Longrightarrow> P fd \<Longrightarrow> batch_all P (gm_set (fp_name fd) fd b)"
  by (auto simp: batch_all_def batch_named_set gm.get_put)

lemma batch_all_empty: "batch_all P gm_empty"
  by (simp add: batch_all_def batch_named_empty gm.get_empty)

lemma batch_all_get: "batch_all P b \<Longrightarrow> gm_get b k = Some fd \<Longrightarrow> fp_name fd = k \<and> P fd"
  unfolding batch_all_def batch_named_def by blast

lemma add_raws_all: "raws_all P rt raws \<Longrightarrow> batch_all P b \<Longrightarrow> batch_all P (fst (add_raws rt raws b))"
proof (induction rt raws b rule: add_raws.induct)
  case (2 rt raw raws b)
  then show ?case
    by (cases "unmarshal_file rt raw") (simp_all add: raws_all_def batch_all_set)
qed simp

lemma call_all:
  assumes "server_all P rt srv" and "call srv req r = (r', Inr raws)"
  shows "raws_all P rt raws"
  using assms by (auto simp: call_def roundTrip_def server_all_def split: if_splits sum.splits option.splits reply.splits)

lemma fetch_dep_all:
  assumes "fetch_dep rt u srv dep s = (s', res)" and "server_all P rt srv" and "batch_all P (snd s)"
  shows "batch_all P (snd s') \<and> (\<forall>fd. res = Inr fd \<longrightarrow> fp_name fd = dep \<and> P fd)"
proof -
  obtain r b where s: "s = (r, b)" by (cases s)
  obtain r1 answer where c: "call srv (FileByFilename dep) r = (r1, answer)" by (metis prod.exhaust)
  have "batch_all P (snd s')"
  proof (cases "\<exists>raws. gm_get b dep = None \<and> answer = Inr raws")
    case True
    then obtain raws where raws: "gm_get b dep = None" "answer = Inr raws" by blast
    obtain b1 e1 where a: "add_raws rt raws b = (b1, e1)" by (metis prod.exhaust)
    have "batch_all P b1"
      using add_raws_all [OF call_all [OF assms(2)], of "FileByFilename dep" r r1 raws b] c raws assms(3) s a by simp
    then show ?thesis using assms(1) s c raws a by (auto simp: fetch_dep_def split: option.splits)
  next
    case False
    then show ?thesis using assms(1,3) s c by (cases "gm_get b dep"; cases answer) (auto simp: fetch_dep_def)
  qed
  then show ?thesis using fetch_dep_facts [OF assms(1)] batch_all_get by blast
qed

section \<open>Termination\<close>

text \<open>
  A server whose files can be ranked: every file of its answers imports only files of lower rank.
\<close>

definition ranked :: "(gostring \<Rightarrow> nat) \<Rightarrow> 'f file_proto \<Rightarrow> bool" where
  "ranked rank fd \<longleftrightarrow> (\<forall>d\<in>set (fp_deps fd). rank d < rank (fp_name fd))"

definition ranked_server :: "(gostring \<Rightarrow> nat) \<Rightarrow> 'f proto_rt \<Rightarrow> 's reflection_server \<Rightarrow> bool" where
  "ranked_server rank rt srv \<longleftrightarrow> server_all (ranked rank) rt srv"

text \<open>Enough fuel for the rank is enough: the registration returns, and keeps the batch ranked.\<close>

lemma register_deps_returns:
  assumes "server_all (ranked rank) rt srv"
    and reg: "\<And>fd s. rank (fp_name fd) < k \<Longrightarrow> ranked rank fd \<Longrightarrow> batch_all (ranked rank) (snd s) \<Longrightarrow>
      \<exists>s' e. reg fd s = Some (s', e) \<and> batch_all (ranked rank) (snd s')"
  shows "\<forall>d\<in>set deps. rank d < k \<Longrightarrow> batch_all (ranked rank) (snd s) \<Longrightarrow>
    \<exists>s' e. register_deps rt u srv reg deps s = Some (s', e) \<and> batch_all (ranked rank) (snd s')"
proof (induction deps arbitrary: s)
  case Nil
  then show ?case by simp
next
  case (Cons dep deps)
  obtain s1 res where f: "fetch_dep rt u srv dep s = (s1, res)" by (metis prod.exhaust)
  note b1 = fetch_dep_all [OF f assms(1) Cons.prems(2)]
  show ?case
  proof (cases "dep \<in> set (registered (fst s))")
    case True
    then show ?thesis using Cons.IH [of s] Cons.prems by simp
  next
    case False
    show ?thesis
    proof (cases res)
      case (Inl e)
      then show ?thesis using False f b1 by simp
    next
      case (Inr fd)
      then have "gm_get (snd s1) dep = Some fd" using fetch_dep_facts [OF f] by blast
      then have fd: "fp_name fd = dep" "ranked rank fd"
        using b1 unfolding batch_all_def batch_named_def by blast+
      then obtain s2 e2 where r: "reg fd s1 = Some (s2, e2)" "batch_all (ranked rank) (snd s2)"
        using reg [of fd s1] Cons.prems(1) b1 by auto
      then show ?thesis using False f Inr Cons.IH [of s2] Cons.prems(1) by (cases e2) auto
    qed
  qed
qed

lemma register_returns:
  assumes "server_all (ranked rank) rt srv"
  shows "rank (fp_name fd) < n \<Longrightarrow> ranked rank fd \<Longrightarrow> batch_all (ranked rank) (snd s) \<Longrightarrow>
    \<exists>s' e. registerFileDescriptor n rt u srv fd s = Some (s', e) \<and> batch_all (ranked rank) (snd s')"
proof (induction n arbitrary: fd s)
  case 0
  then show ?case by simp
next
  case (Suc n)
  have "\<forall>d\<in>set (fp_deps fd). rank d < n" using Suc.prems(1,2) by (fastforce simp: ranked_def)
  then obtain r1 b1 e1 where d: "register_deps rt u srv (registerFileDescriptor n rt u srv) (fp_deps fd) s = Some ((r1, b1), e1)"
      "batch_all (ranked rank) b1"
    using register_deps_returns [where k = n and reg = "registerFileDescriptor n rt u srv" and deps = "fp_deps fd"
        and s = s and u = u, OF assms Suc.IH] Suc.prems(3) by fastforce
  then show ?case using Suc.prems(3) by (cases s; cases e1; cases "add_file rt u fd r1") auto
qed

lemma register_batch_returns:
  assumes "server_all (ranked rank) rt srv" and "\<And>name. rank name < n"
  shows "batch_all (ranked rank) (snd s) \<Longrightarrow> register_batch n rt u srv names s \<noteq> None"
proof (induction names arbitrary: s)
  case Nil
  then show ?case by simp
next
  case (Cons name names)
  show ?case
  proof (cases "gm_get (snd s) name")
    case None
    then show ?thesis using Cons by simp
  next
    case (Some fd)
    then have "ranked rank fd" using Cons.prems unfolding batch_all_def by blast
    then obtain s1 e1 where "registerFileDescriptor n rt u srv fd s = Some (s1, e1)" "batch_all (ranked rank) (snd s1)"
      using register_returns [OF assms(1) assms(2)] Cons.prems by blast
    then show ?thesis using Some Cons.IH [of s1] by (cases e1) auto
  qed
qed

lemma registerFileDescriptors_returns:
  assumes "server_all (ranked rank) rt srv" and "\<And>name. rank name < n" and "raws_all (ranked rank) rt raws"
  shows "registerFileDescriptors n rt u srv visits raws r \<noteq> None"
proof -
  obtain b e where a: "add_raws rt raws gm_empty = (b, e)" by (metis prod.exhaust)
  have "batch_all (ranked rank) b" using add_raws_all [OF assms(3) batch_all_empty] by (simp add: a)
  then show ?thesis
    using register_batch_returns [OF assms(1,2), of "(r, b)" u "visits b"] a
    by (cases e) (auto simp: registerFileDescriptors_def)
qed

section \<open>Import cycles\<close>

text \<open>Files that each import another of them; none of them can be registered first.\<close>

definition on_cycle :: "gostring set \<Rightarrow> 'f file_proto \<Rightarrow> bool" where
  "on_cycle cyc fd \<longleftrightarrow> (fp_name fd \<in> cyc \<longrightarrow> set (fp_deps fd) \<inter> cyc \<noteq> {})"

definition cycle_open :: "gostring set \<Rightarrow> ('f, 's) resolver \<times> 'f batch \<Rightarrow> bool" where
  "cycle_open cyc s \<longleftrightarrow> batch_all (on_cycle cyc) (snd s) \<and> cyc \<inter> set (registered (fst s)) = {}"

lemma register_deps_cycle:
  assumes "server_all (on_cycle cyc) rt srv"
    and reg: "\<And>fd s s' err. reg fd s = Some (s', err) \<Longrightarrow> on_cycle cyc fd \<Longrightarrow> cycle_open cyc s \<Longrightarrow>
      cycle_open cyc s' \<and> (fp_name fd \<in> cyc \<longrightarrow> err \<noteq> None)"
  shows "register_deps rt u srv reg deps s = Some (s', err) \<Longrightarrow> cycle_open cyc s \<Longrightarrow>
    cycle_open cyc s' \<and> (set deps \<inter> cyc \<noteq> {} \<longrightarrow> err \<noteq> None)"
proof (induction deps arbitrary: s)
  case Nil
  then show ?case by simp
next
  case (Cons dep deps)
  show ?case
  proof (cases "dep \<in> set (registered (fst s))")
    case True
    then show ?thesis using Cons.IH [of s] Cons.prems by (auto simp: cycle_open_def)
  next
    case False
    obtain s1 res where f: "fetch_dep rt u srv dep s = (s1, res)" by (metis prod.exhaust)
    note served = fetch_dep_all [OF f assms(1)]
    have s1: "cycle_open cyc s1"
      using served fetch_dep_facts [OF f] same_registries_simps(3) [of "fst s" "fst s1"] Cons.prems(2)
      by (simp add: cycle_open_def)
    show ?thesis
    proof (cases res)
      case (Inl e)
      then show ?thesis using Cons.prems(1) False f s1 by auto
    next
      case (Inr fd)
      have fd: "fp_name fd = dep" "on_cycle cyc fd" using served Inr Cons.prems(2) by (simp_all add: cycle_open_def)
      obtain s2 e2 where r: "reg fd s1 = Some (s2, e2)"
        using Cons.prems(1) False f Inr by (cases "reg fd s1") auto
      have s2: "cycle_open cyc s2" "dep \<in> cyc \<longrightarrow> e2 \<noteq> None" using reg [OF r fd(2) s1] fd(1) by blast+
      show ?thesis using Cons.prems(1) False f Inr r s2 Cons.IH [of s2] by (cases e2) auto
    qed
  qed
qed

lemma register_cycle:
  assumes "server_all (on_cycle cyc) rt srv"
  shows "registerFileDescriptor n rt u srv fd s = Some (s', err) \<Longrightarrow> on_cycle cyc fd \<Longrightarrow> cycle_open cyc s \<Longrightarrow>
    cycle_open cyc s' \<and> (fp_name fd \<in> cyc \<longrightarrow> err \<noteq> None)"
proof (induction n arbitrary: fd s s' err)
  case 0
  then show ?case by simp
next
  case (Suc n)
  show ?case
  proof (cases "fp_name fd \<in> set (registered (fst s))")
    case True
    then show ?thesis using Suc.prems by (auto simp: cycle_open_def)
  next
    case False
    obtain r1 b1 e1 where d: "register_deps rt u srv (registerFileDescriptor n rt u srv) (fp_deps fd) s = Some ((r1, b1), e1)"
      using Suc.prems(1) False by (auto split: option.splits)
    have k: "cycle_open cyc (r1, b1)" "set (fp_deps fd) \<inter> cyc \<noteq> {} \<longrightarrow> e1 \<noteq> None"
      using register_deps_cycle [OF assms Suc.IH d Suc.prems(3)] by auto
    show ?thesis
    proof (cases e1)
      case (Some e)
      then show ?thesis using Suc.prems(1) False d k by auto
    next
      case None
      then have name: "fp_name fd \<notin> cyc" using k(2) Suc.prems(2) by (auto simp: on_cycle_def)
      obtain r2 e2 where a: "add_file rt u fd r1 = (r2, e2)" by (metis prod.exhaust)
      have "set (registered r2) \<subseteq> insert (fp_name fd) (set (registered r1))"
        using a by (auto simp: add_file_def registered_def split: if_splits sum.splits option.splits)
      then have "cycle_open cyc (r2, b1)" using k(1) name by (auto simp: cycle_open_def)
      moreover have "s' = (r2, b1)" using Suc.prems(1) False d None a by auto
      ultimately show ?thesis using name by simp
    qed
  qed
qed

text \<open>Nothing but imports that are registered stands before the next file of the cycle.\<close>

definition next_on_cycle :: "gostring set \<Rightarrow> ('f, 's) resolver \<times> 'f batch \<Rightarrow> gostring \<Rightarrow> bool" where
  "next_on_cycle cyc s c \<longleftrightarrow>
     (\<exists>fd. gm_get (snd s) c = Some fd \<and> fp_name fd = c \<and>
       (\<exists>before d after. fp_deps fd = before @ d # after \<and> set before \<subseteq> set (registered (fst s)) \<and> d \<in> cyc))"

lemma register_deps_registered:
  "set before \<subseteq> set (registered (fst s)) \<Longrightarrow>
    register_deps rt u srv reg (before @ deps) s = register_deps rt u srv reg deps s"
  by (induction before) auto

lemma register_recurses:
  assumes "\<forall>c\<in>cyc. next_on_cycle cyc s c" and "cyc \<inter> set (registered (fst s)) = {}"
  shows "fp_name fd \<in> cyc \<Longrightarrow> gm_get (snd s) (fp_name fd) = Some fd \<Longrightarrow> registerFileDescriptor n rt u srv fd s = None"
proof (induction n arbitrary: fd)
  case 0
  then show ?case by simp
next
  case (Suc n)
  obtain before d after where deps: "fp_deps fd = before @ d # after" "set before \<subseteq> set (registered (fst s))" "d \<in> cyc"
    using assms(1) Suc.prems unfolding next_on_cycle_def by fastforce
  obtain fd' where fd': "gm_get (snd s) d = Some fd'" "fp_name fd' = d"
    using assms(1) deps(3) unfolding next_on_cycle_def by blast
  have "fp_name fd \<notin> set (registered (fst s))" "d \<notin> set (registered (fst s))"
    using assms(2) Suc.prems(1) deps(3) by auto
  moreover have "fetch_dep rt u srv d s = (s, Inr fd')" by (cases s) (use fd' in \<open>simp add: fetch_dep_def\<close>)
  moreover have "registerFileDescriptor n rt u srv fd' s = None"
    by (rule Suc.IH) (use deps(3) fd' in simp_all)
  ultimately show ?case by (simp add: deps(1) register_deps_registered [OF deps(2)])
qed

section \<open>A small server\<close>

text \<open>
  A type in a file with one import, and a file that imports itself; the raw form of a file is its
  name, and its body is the list of its messages.
\<close>

definition toy_file :: "gostring \<Rightarrow> gostring list \<Rightarrow> msg_desc list \<Rightarrow> msg_desc list file_proto" where
  "toy_file n ds ms = \<lparr>fp_name = n, fp_deps = ds, fp_body = ms\<rparr>"

definition toy_rt :: "msg_desc list proto_rt" where
  "toy_rt =
     \<lparr>unmarshal_file = (\<lambda>raw.
        if raw = ''a.proto'' then Inr (toy_file raw [''b.proto''] [MsgDesc ''pkg.A'' [MsgDesc ''pkg.A.In'' []]])
        else if raw = ''b.proto'' then Inr (toy_file raw [] [MsgDesc ''pkg.B'' []])
        else Inl ''bad file''),
      new_file = (\<lambda>fd known. Inr (fp_body fd)), register_conflict = (\<lambda>fd known. None),
      global_type = (\<lambda>n. n = ''google.protobuf.Empty'')\<rparr>"

definition toy_server :: "unit reflection_server" where
  "toy_server =
     \<lparr>open_stream = Inr (), send_request = (\<lambda>t req. None),
      recv_reply = (\<lambda>t req.
        if req = FileContainingSymbol ''pkg.A'' then Inr (FileDescriptorResponse [''a.proto''])
        else if req = FileByFilename ''b.proto'' then Inr (FileDescriptorResponse [''b.proto''])
        else Inr (ErrorResponse 5 ''not found''))\<rparr>"

definition toy_resolver :: "(msg_desc list, unit) resolver" where
  "toy_resolver = newReflectionResolver"

definition toy_log :: log_state where
  "toy_log = \<lparr>logged_urls = [], warnings = []\<rparr>"

definition toy_lookup where
  "toy_lookup url = FindMessageByURL 2 toy_rt ascii_only toy_server gm_keys url (toy_resolver, toy_log)"

lemmas toy_defs = toy_rt_def toy_server_def toy_resolver_def toy_file_def newReflectionResolver_def toy_log_def
  FindMessageByURL_def FindMessageByName_def resolveMessageType_def find_type_def url_name_def call_def
  roundTrip_def registerFileDescriptors_def gm_empty_def gm_set_def gm_get_def gm_keys_def registered_def
  fetch_dep_def add_file_def gs_add_def numeral_2_eq_2

lemma toy_resolver_inv: "reg_inv toy_resolver"
  by (simp add: toy_resolver_def newReflectionResolver_def reg_inv_def)

definition log_inv :: "unicode_tables \<Rightarrow> log_state \<Rightarrow> bool" where
  "log_inv u l \<longleftrightarrow> distinct (logged_urls l) \<and> warnings l = map (unknown_warning u) (logged_urls l)"

lemma toy_log_inv: "log_inv ascii_only toy_log"
  by (simp add: log_inv_def toy_log_def)

definition toy_rank :: "gostring \<Rightarrow> nat" where
  "toy_rank n = (if n = ''a.proto'' then 1 else 0)"

lemma toy_ranked: "ranked_server toy_rank toy_rt toy_server"
  by (auto simp: ranked_server_def server_all_def raws_all_def ranked_def toy_server_def toy_rt_def toy_file_def toy_rank_def
      split: if_splits)

section \<open>Properties\<close>

text \<open>
  C22. Looking up an Any type never fails and never answers with another type: the result is the type
  of the name in the URL, compiled in or registered from the server, or the empty type, and then the
  URL has been warned about. Every URL is warned about at most once, whatever is looked up.
\<close>

theorem FindMessageByURL_answers:
  assumes "FindMessageByURL n rt u srv visits url (r, l) = Some ((r', l'), mt)"
    and "reg_inv r" and "log_inv u l"
  shows "log_inv u l' \<and> set (logged_urls l) \<subseteq> set (logged_urls l') \<and>
    (case mt of
       Compiled name \<Rightarrow> name = url_name url \<and> global_type rt name
     | Dynamic name \<Rightarrow> name = url_name url \<and> name \<in> set (types r')
     | EmptyType \<Rightarrow> url \<in> set (logged_urls l'))"
proof (cases "global_type rt (url_name url)")
  case True
  then show ?thesis using assms by (auto simp: FindMessageByURL_def FindMessageByName_def)
next
  case False
  obtain r1 res where f: "resolveMessageType n rt u srv visits (url_name url) r = Some (r1, res)"
    using assms(1) False
    by (cases "resolveMessageType n rt u srv visits (url_name url) r") (auto simp: FindMessageByURL_def FindMessageByName_def)
  have "\<forall>mt. res = Inr mt \<longrightarrow> mt = Dynamic (url_name url) \<and> url_name url \<in> set (types r1)"
    using resolve_keeps [OF f assms(2)] by blast
  then show ?thesis
    using assms(1,3) False f
    by (cases res) (auto simp: FindMessageByURL_def FindMessageByName_def Let_def log_inv_def gs_add_def split: if_splits)
qed

theorem FindMessageByURL_answers_witness:
  "\<exists>r' l'. toy_lookup ''t/pkg.A'' = Some ((r', l'), Dynamic ''pkg.A'') \<and> ''pkg.A'' \<in> set (types r') \<and> log_inv ascii_only l'"
proof -
  have "map_option snd (toy_lookup ''t/pkg.A'') = Some (Dynamic ''pkg.A'')"
    by (simp add: toy_lookup_def toy_defs Let_def)
  then obtain r' l' where l: "toy_lookup ''t/pkg.A'' = Some ((r', l'), Dynamic ''pkg.A'')" by auto
  from FindMessageByURL_answers [OF l [unfolded toy_lookup_def] toy_resolver_inv toy_log_inv] l
  show ?thesis by auto
qed

text \<open>
  C21. The registries stay sound through every lookup, also through one that ends in an error half
  way: a file is registered once, after all the files it imports, with all its message types, nested
  ones included, and nothing registered is ever lost.
\<close>

theorem registry_sound:
  assumes "FindMessageByName n rt u srv visits name r = Some (r', res)" and "reg_inv r"
  shows "reg_inv r' \<and> (\<exists>new. files r' = files r @ new) \<and> set (types r) \<subseteq> set (types r')"
proof -
  have "reg_inv r' \<and> extends r r'"
    using assms(2) resolve_keeps [OF _ assms(2), of n rt u srv visits name r' res] assms(1)
    by (auto simp: FindMessageByName_def split: if_splits)
  then show ?thesis by (simp add: extends_def)
qed

theorem registry_sound_witness:
  "\<exists>r' res. FindMessageByName 2 toy_rt ascii_only toy_server gm_keys ''pkg.A'' toy_resolver = Some (r', res) \<and>
     map (fp_name \<circ> fst) (files r') = [''b.proto'', ''a.proto''] \<and> reg_inv r'"
proof -
  let ?f = "FindMessageByName 2 toy_rt ascii_only toy_server gm_keys ''pkg.A'' toy_resolver"
  have "map_option (\<lambda>x. map (fp_name \<circ> fst) (files (fst x))) ?f = Some [''b.proto'', ''a.proto'']"
    by (simp add: toy_defs Let_def)
  then obtain r' res where f: "?f = Some (r', res)" and m: "map (fp_name \<circ> fst) (files r') = [''b.proto'', ''a.proto'']"
    by auto
  have "reg_inv r'" using registry_sound [OF f toy_resolver_inv] by blast
  with f m show ?thesis by (intro exI [of _ r'] exI [of _ res]) simp
qed

text \<open>
  C23. Resolution ends for every server whose files import each other without a cycle: fuel above the
  rank of every file is enough for every lookup.
\<close>

theorem resolution_returns:
  assumes "ranked_server rank rt srv" and "\<And>name. rank name < n"
  shows "FindMessageByURL n rt u srv visits url s \<noteq> None"
proof -
  have served: "server_all (ranked rank) rt srv" using assms(1) by (simp add: ranked_server_def)
  have "resolveMessageType n rt u srv visits name r \<noteq> None" for name r
  proof (cases "call srv (FileContainingSymbol name) r")
    case (Pair r1 answer)
    have "registerFileDescriptors n rt u srv visits raws r1 \<noteq> None" if "answer = Inr raws" for raws
      by (rule registerFileDescriptors_returns [OF served assms(2) call_all [OF served]]) (use Pair that in simp)
    then show ?thesis using Pair
      by (cases answer) (auto simp: resolveMessageType_def find_type_def split: option.splits)
  qed
  from this [of "url_name url" "fst s"] show ?thesis
    by (auto simp: FindMessageByURL_def FindMessageByName_def Let_def split: option.splits sum.splits prod.splits)
qed

theorem resolution_returns_witness:
  "FindMessageByURL 2 toy_rt ascii_only toy_server gm_keys ''t/pkg.A'' (toy_resolver, toy_log) \<noteq> None"
  by (rule resolution_returns [OF toy_ranked]) (simp add: toy_rank_def)

text \<open>
  C24. Files that import each other in a cycle are never registered, whatever else they import: where
  the server's files named in \<open>cyc\<close> all import one of \<open>cyc\<close> and none is registered yet, registering one
  of them has no successful outcome. It is no error that stops it when the answer holds them all and
  each of them lists only imports that are registered already before the next file of the cycle: then
  no amount of fuel is enough, so the program recurses until its stack overflows.
\<close>

theorem import_cycle_diverges:
  assumes "server_all (on_cycle cyc) rt srv" and "batch_all (on_cycle cyc) b"
    and "cyc \<inter> set (registered r) = {}" and "fp_name fd \<in> cyc" and "gm_get b (fp_name fd) = Some fd"
  shows "(\<forall>s'. registerFileDescriptor n rt u srv fd (r, b) \<noteq> Some (s', None)) \<and>
    ((\<forall>c\<in>cyc. next_on_cycle cyc (r, b) c) \<longrightarrow> registerFileDescriptor n rt u srv fd (r, b) = None)"
proof -
  have "on_cycle cyc fd" "cycle_open cyc (r, b)"
    using assms(2,3) batch_all_get [OF assms(2,5)] by (simp_all add: cycle_open_def)
  then have "registerFileDescriptor n rt u srv fd (r, b) \<noteq> Some (s', None)" for s'
    using register_cycle [OF assms(1)] assms(4) by blast
  moreover have "registerFileDescriptor n rt u srv fd (r, b) = None" if "\<forall>c\<in>cyc. next_on_cycle cyc (r, b) c"
    using that by (rule register_recurses) (simp_all add: assms(3-5))
  ultimately show ?thesis by blast
qed

theorem import_cycle_diverges_witness:
  "\<forall>n. registerFileDescriptor n toy_rt ascii_only toy_server (toy_file ''x'' [''b.proto'', ''y''] [])
     (toy_resolver\<lparr>files := [(toy_file ''b.proto'' [] [], [])]\<rparr>,
      [(''x'', toy_file ''x'' [''b.proto'', ''y''] []), (''y'', toy_file ''y'' [''x''] [])]) = None"
proof
  fix n
  let ?b = "[(''x'', toy_file ''x'' [''b.proto'', ''y''] []), (''y'', toy_file ''y'' [''x''] [])]"
  let ?r = "toy_resolver\<lparr>files := [(toy_file ''b.proto'' [] [], [])]\<rparr>"
  have "server_all (on_cycle {''x'', ''y''}) toy_rt toy_server"
    by (auto simp: server_all_def raws_all_def on_cycle_def toy_server_def toy_rt_def toy_file_def split: if_splits)
  moreover have "batch_all (on_cycle {''x'', ''y''}) ?b"
    by (auto simp: batch_all_def batch_named_def on_cycle_def toy_file_def gm_get_def split: if_splits)
  moreover have "\<forall>c\<in>{''x'', ''y''}. next_on_cycle {''x'', ''y''} (?r, ?b) c"
  proof -
    have "next_on_cycle {''x'', ''y''} (?r, ?b) ''x''"
      unfolding next_on_cycle_def
      by (intro exI [of _ "toy_file ''x'' [''b.proto'', ''y''] []"] conjI exI [of _ "[''b.proto'']"] exI [of _ "''y''"] exI [of _ "[]"])
        (simp_all add: toy_file_def gm_get_def registered_def)
    moreover have "next_on_cycle {''x'', ''y''} (?r, ?b) ''y''"
      unfolding next_on_cycle_def
      by (intro exI [of _ "toy_file ''y'' [''x''] []"] conjI exI [of _ "[]"] exI [of _ "''x''"])
        (simp_all add: toy_file_def gm_get_def)
    ultimately show ?thesis by simp
  qed
  ultimately show "registerFileDescriptor n toy_rt ascii_only toy_server (toy_file ''x'' [''b.proto'', ''y''] []) (?r, ?b) = None"
    using import_cycle_diverges [where cyc = "{''x'', ''y''}" and b = ?b and r = ?r and fd = "toy_file ''x'' [''b.proto'', ''y''] []"]
    by (simp add: toy_file_def gm_get_def registered_def)
qed

text \<open>
  C26. After one answer that reflection is not implemented, to whatever request, the target is left
  alone: the call that gets the answer returns it and marks the resolver, and from then on every lookup
  has the same result whatever a server would answer, and changes nothing. The answer is an error of
  that code from the stream or in a reply; the stream may be the stored one or one just opened.
\<close>

theorem unusable_is_final:
  assumes "\<not> unusable r" and "transport r = Some t \<or> transport r = None \<and> open_stream srv = Inr t"
    and "roundTrip srv t req = Inl err" and "err_code err = code_Unimplemented"
  shows "\<exists>r'. call srv req r = (r', Inl err) \<and> files r' = files r \<and> types r' = types r \<and>
    (\<forall>n u srv' visits name. FindMessageByName n rt u srv' visits name r' =
      Some (r', if global_type rt name then Inr (Compiled name)
                else if name \<in> set (types r) then Inr (Dynamic name)
                else Inl (RErr code_Unknown ''channelz: target does not support gRPC reflection'')))"
proof (intro exI conjI allI)
  show "call srv req r = (r\<lparr>unusable := True\<rparr>, Inl err)" using assms by (auto simp: call_def)
qed (simp_all add: FindMessageByName_def resolveMessageType_def find_type_def call_def)

theorem unusable_is_final_witness:
  "\<exists>r'. call (toy_server\<lparr>recv_reply := \<lambda>t req. Inr (ErrorResponse 12 ''unimplemented'')\<rparr>) (FileByFilename ''b.proto'') toy_resolver =
      (r', Inl (RErr 12 ''unimplemented'')) \<and>
     FindMessageByName 2 toy_rt ascii_only toy_server gm_keys ''pkg.A'' r' =
      Some (r', Inl (RErr code_Unknown ''channelz: target does not support gRPC reflection''))"
proof -
  let ?srv = "toy_server\<lparr>recv_reply := \<lambda>t req. Inr (ErrorResponse 12 ''unimplemented'')\<rparr>"
  have "\<not> unusable toy_resolver" "transport toy_resolver = None \<and> open_stream ?srv = Inr ()" "types toy_resolver = []"
    by (simp_all add: toy_resolver_def newReflectionResolver_def toy_server_def)
  moreover have "roundTrip ?srv () (FileByFilename ''b.proto'') = Inl (RErr 12 ''unimplemented'')"
    by (simp add: roundTrip_def toy_server_def)
  moreover have "\<not> global_type toy_rt ''pkg.A''" by (simp add: toy_rt_def)
  ultimately show ?thesis
    using unusable_is_final [of toy_resolver "()" ?srv "FileByFilename ''b.proto''" "RErr 12 ''unimplemented''" toy_rt]
    by (fastforce simp: code_Unimplemented_def)
qed

text \<open>
  C25. A broken stream is never replaced: once a stream is stored and sending on it fails, every lookup
  of a type not known yet fails with that error and leaves the stream in place, even where opening a
  new stream would succeed.
\<close>

theorem broken_stream_kept:
  assumes "transport r = Some t" and "\<not> unusable r" and "\<And>req. send_request srv t req = Some err"
    and "err_code err \<noteq> code_Unimplemented" and "\<not> global_type rt name" and "name \<notin> set (types r)"
  shows "FindMessageByName n rt u (srv\<lparr>open_stream := Inr t'\<rparr>) visits name r = Some (r, Inl err)"
  using assms by (simp add: FindMessageByName_def resolveMessageType_def find_type_def call_def roundTrip_def)

theorem broken_stream_kept_witness:
  "FindMessageByName 2 toy_rt ascii_only (toy_server\<lparr>send_request := \<lambda>t req. Some (RErr 2 ''EOF''), open_stream := Inr ()\<rparr>)
     gm_keys ''pkg.A'' (toy_resolver\<lparr>transport := Some ()\<rparr>) =
   Some (toy_resolver\<lparr>transport := Some ()\<rparr>, Inl (RErr 2 ''EOF''))"
  by (rule broken_stream_kept)
    (simp_all add: toy_rt_def toy_resolver_def newReflectionResolver_def code_Unimplemented_def)

end
