(* ===== verification/GoPath.thy ===== *)
theory GoPath
  imports GoStrings
begin

text \<open>
  Go's package \<^verbatim>\<open>path\<close>: \<^verbatim>\<open>Clean\<close> and \<^verbatim>\<open>Join\<close>, on which mounting the handler and every link of the
  user interface rest. \<^verbatim>\<open>Clean\<close> is written over the slash-separated segments: empty and \<^verbatim>\<open>.\<close>
  segments go away, \<^verbatim>\<open>..\<close> removes the segment before it. The lemmas say what a path built by
  \<^verbatim>\<open>Join\<close> is, segment by segment.
\<close>

definition slash :: char where
  [go_defs]: "slash = CHR ''/''"

definition clean_step :: "bool \<Rightarrow> gostring list \<Rightarrow> gostring \<Rightarrow> gostring list" where
  "clean_step rooted out seg =
     (if seg = [] \<or> seg = ''.'' then out
      else if seg = ''..'' then
        (if out \<noteq> [] \<and> last out \<noteq> ''..'' then butlast out
         else if rooted then out else out @ [''..''])
      else out @ [seg])"

definition pathClean :: "gostring \<Rightarrow> gostring" where
  "pathClean p =
     (if p = [] then ''.''
      else
        (let rooted = (hd p = slash); out = foldl (clean_step rooted) [] (splitByte slash p)
         in if rooted then slash # joinByte slash out
            else if out = [] then ''.'' else joinByte slash out))"

definition join_step :: "gostring \<Rightarrow> gostring \<Rightarrow> gostring" where
  "join_step buf e =
     (if buf \<noteq> [] \<or> e \<noteq> [] then (if buf \<noteq> [] then buf @ [slash] else buf) @ e else buf)"

definition join_buf :: "gostring list \<Rightarrow> gostring" where
  "join_buf elems = foldl join_step [] elems"

definition pathJoin :: "gostring list \<Rightarrow> gostring" where
  "pathJoin elems = (if concat elems = [] then [] else pathClean (join_buf elems))"

text \<open>A segment that \<^verbatim>\<open>Clean\<close> keeps as it is.\<close>

definition clean_seg :: "gostring \<Rightarrow> bool" where
  "clean_seg w \<longleftrightarrow> w \<noteq> [] \<and> w \<noteq> ''.'' \<and> w \<noteq> ''..'' \<and> slash \<notin> set w"

lemma clean_seg_no_slash: "clean_seg w \<Longrightarrow> slash \<notin> set w"
  by (simp add: clean_seg_def)

lemma splitByte_at: "splitByte c (u @ c # v) = splitByte c u @ splitByte c v"
  by (induction u) (auto split: list.splits)

lemma splitByte_joinByte_concat:
  "es \<noteq> [] \<Longrightarrow> splitByte c (joinByte c es) = concat (map (splitByte c) es)"
  by (induction c es rule: joinByte.induct) (auto simp: splitByte_at)

lemma join_buf_joinByte: "e \<noteq> [] \<Longrightarrow> join_buf (e # es) = joinByte slash (e # es)"
proof -
  have step: "foldl join_step buf es = buf @ concat (map (\<lambda>e. slash # e) es)" if "buf \<noteq> []" for buf es
    using that by (induction es arbitrary: buf) (auto simp: join_step_def)
  have join: "joinByte slash (e # es) = e @ concat (map (\<lambda>e. slash # e) es)" for e es
    by (induction es arbitrary: e) auto
  assume "e \<noteq> []"
  then show ?thesis by (simp add: join_buf_def join_step_def step join del: joinByte.simps)
qed

lemma foldl_clean_step_filter:
  "\<forall>w\<in>set segs. w = [] \<or> clean_seg w \<Longrightarrow>
     foldl (clean_step r) out segs = out @ filter (\<lambda>w. w \<noteq> []) segs"
  by (induction segs arbitrary: out) (auto simp: clean_step_def clean_seg_def)

lemma foldl_clean_step_rooted:
  "\<forall>w\<in>set segs. slash \<notin> set w \<Longrightarrow> \<forall>w\<in>set out. clean_seg w \<Longrightarrow>
     \<forall>w\<in>set (foldl (clean_step True) out segs). clean_seg w"
proof (induction segs arbitrary: out)
  case Nil
  then show ?case by simp
next
  case (Cons s segs)
  have "\<forall>w\<in>set (clean_step True out s). clean_seg w"
    using Cons.prems by (auto simp: clean_step_def clean_seg_def dest: in_set_butlastD)
  then show ?case using Cons by simp
qed

text \<open>A rooted path whose segments are all kept: its clean form lists them.\<close>

lemma pathClean_rooted:
  assumes "p \<noteq> []" and "hd p = slash" and "\<forall>w\<in>set (splitByte slash p). w = [] \<or> clean_seg w"
  shows "pathClean p = slash # joinByte slash (filter (\<lambda>w. w \<noteq> []) (splitByte slash p))"
  using assms by (simp add: pathClean_def foldl_clean_step_filter)

definition clean_segs :: "gostring \<Rightarrow> gostring list" where
  "clean_segs p = foldl (clean_step True) [] (splitByte slash p)"

lemma clean_segs_clean: "w \<in> set (clean_segs p) \<Longrightarrow> clean_seg w"
  unfolding clean_segs_def using foldl_clean_step_rooted [of "splitByte slash p" "[]"] splitByte_pieces
  by fastforce

lemma pathClean_rooted_segs: "hd p = slash \<Longrightarrow> p \<noteq> [] \<Longrightarrow> pathClean p = slash # joinByte slash (clean_segs p)"
  by (simp add: pathClean_def clean_segs_def)

lemma splitByte_rooted: "splitByte slash (slash # p) = [] # splitByte slash p"
  by simp

lemma pathJoin_rooted:
  assumes "e \<noteq> []" and "hd e = slash"
    and "\<forall>w\<in>set (concat (map (splitByte slash) (e # es))). w = [] \<or> clean_seg w"
  shows "pathJoin (e # es) =
    slash # joinByte slash (filter (\<lambda>w. w \<noteq> []) (concat (map (splitByte slash) (e # es))))"
proof -
  have hd: "hd (joinByte slash (e # es)) = slash" "joinByte slash (e # es) \<noteq> []"
    using assms(1,2) by (cases es; simp add: hd_append)+
  show ?thesis
    using assms(1,3) hd
    by (simp add: pathJoin_def join_buf_joinByte pathClean_rooted splitByte_joinByte_concat del: joinByte.simps)
qed

lemma joinByte_Cons: "ws \<noteq> [] \<Longrightarrow> joinByte c (w # ws) = w @ c # joinByte c ws"
  by (cases ws) auto

lemma joinByte_append: "us \<noteq> [] \<Longrightarrow> vs \<noteq> [] \<Longrightarrow> joinByte c (us @ vs) = joinByte c us @ c # joinByte c vs"
  by (induction c us rule: joinByte.induct) (auto simp: joinByte_Cons)

lemma joinByte_inj:
  assumes "\<forall>w\<in>set us. c \<notin> set w" and "\<forall>w\<in>set vs. c \<notin> set w"
    and "us \<noteq> []" and "vs \<noteq> []" and "joinByte c us = joinByte c vs"
  shows "us = vs"
  using assms by (metis splitByte_joinByte)

end
