(* ===== verification/Url.thy ===== *)
theory Url
  imports GoText
begin

text \<open>
  Package \<^verbatim>\<open>net/url\<close>, as far as links and requests use it: \<^verbatim>\<open>QueryEscape\<close>, which the templates call as
  \<^verbatim>\<open>urlquery\<close>, its inverse, \<^verbatim>\<open>ParseQuery\<close> with \<^verbatim>\<open>Values.Get\<close>, and the parts of a reference a
  client sends: the path without the fragment, and the query after the first question mark. A path
  with percent signs is outside the model.
\<close>

section \<open>Escaping\<close>

definition upper_hex :: "nat \<Rightarrow> char" where
  "upper_hex n = (if n < 10 then char_of (48 + n) else char_of (55 + n))"

definition unreserved :: "nat \<Rightarrow> bool" where
  "unreserved b \<longleftrightarrow> (48 \<le> b \<and> b \<le> 57) \<or> (65 \<le> b \<and> b \<le> 90) \<or> (97 \<le> b \<and> b \<le> 122) \<or> b \<in> {45, 46, 95, 126}"

definition query_escape_char :: "char \<Rightarrow> gostring" where
  "query_escape_char c =
     (if unreserved (byte c) then [c]
      else if byte c = 32 then ''+''
      else [CHR ''%'', upper_hex (byte c div 16), upper_hex (byte c mod 16)])"

definition queryEscape :: "gostring \<Rightarrow> gostring" where
  "queryEscape s = concat (map query_escape_char s)"

definition unhex :: "char \<Rightarrow> nat option" where
  "unhex c =
     (let b = byte c
      in if 48 \<le> b \<and> b \<le> 57 then Some (b - 48)
         else if 97 \<le> b \<and> b \<le> 102 then Some (b - 87)
         else if 65 \<le> b \<and> b \<le> 70 then Some (b - 55)
         else None)"

fun queryUnescape :: "gostring \<Rightarrow> gostring option" where
  "queryUnescape [] = Some []"
| "queryUnescape (c # cs) =
     (if c = CHR ''%'' then
        (case cs of
           h # l # rest \<Rightarrow>
             (case (unhex h, unhex l) of
                (Some a, Some b) \<Rightarrow> map_option (Cons (char_of (16 * a + b))) (queryUnescape rest)
              | _ \<Rightarrow> None)
         | _ \<Rightarrow> None)
      else map_option (Cons (if c = CHR ''+'' then CHR '' '' else c)) (queryUnescape cs))"

section \<open>Queries\<close>

definition cut :: "char \<Rightarrow> gostring \<Rightarrow> gostring \<times> gostring" where
  "cut c s = (takeWhile (\<lambda>x. x \<noteq> c) s, drop 1 (dropWhile (\<lambda>x. x \<noteq> c) s))"

text \<open>One setting of a query; malformed ones are skipped.\<close>

definition parse_setting :: "gostring \<Rightarrow> (gostring \<times> gostring) option" where
  "parse_setting w =
     (if w = [] \<or> CHR '';'' \<in> set w then None
      else case cut CHR ''='' w of (key, val) \<Rightarrow>
        (case (queryUnescape key, queryUnescape val) of
           (Some k, Some v) \<Rightarrow> Some (k, v)
         | _ \<Rightarrow> None))"

definition parseQuery :: "gostring \<Rightarrow> (gostring \<times> gostring) list" where
  "parseQuery q = List.map_filter parse_setting (splitByte CHR ''&'' q)"

definition queryGet :: "(gostring \<times> gostring) list \<Rightarrow> gostring \<Rightarrow> gostring" where
  "queryGet vs n = (case map_of vs n of None \<Rightarrow> [] | Some v \<Rightarrow> v)"

text \<open>The path and the query of a reference.\<close>

definition reference_parts :: "gostring \<Rightarrow> gostring \<times> gostring" where
  "reference_parts href = cut CHR ''?'' (fst (cut CHR ''#'' href))"

section \<open>Lemmas\<close>

lemma unhex_upper: "n < 16 \<Longrightarrow> unhex (upper_hex n) = Some n"
  by (auto simp: unhex_def upper_hex_def byte_char_of Let_def)

lemma upper_hex_unreserved: "n < 16 \<Longrightarrow> unreserved (byte (upper_hex n))"
  by (auto simp: unreserved_def upper_hex_def byte_char_of)

lemma special_bytes:
  "byte CHR ''%'' = 37" "byte CHR ''+'' = 43" "byte CHR '' '' = 32" "byte CHR ''&'' = 38"
  "byte CHR ''='' = 61" "byte CHR '';'' = 59" "byte CHR ''#'' = 35" "byte CHR ''?'' = 63"
  by (simp_all add: byte_def)

lemma byte_inj: "byte c = byte d \<longleftrightarrow> c = d"
  by (metis char_of_byte)

text \<open>Escaping is undone, whatever follows, and leaves no separator of a query.\<close>

lemma queryUnescape_escape: "queryUnescape (queryEscape s @ t) = map_option (append s) (queryUnescape t)"
proof (induction s)
  case Nil
  then show ?case by (cases "queryUnescape t") (simp_all add: queryEscape_def)
next
  case (Cons c s)
  have e: "queryEscape (c # s) @ t = query_escape_char c @ queryEscape s @ t" by (simp add: queryEscape_def)
  consider "unreserved (byte c)" | "\<not> unreserved (byte c)" "byte c = 32" | "\<not> unreserved (byte c)" "byte c \<noteq> 32" by blast
  then show ?case
  proof cases
    case 1
    then have "c \<noteq> CHR ''%'' \<and> c \<noteq> CHR ''+''" by (auto simp: unreserved_def special_bytes)
    then show ?thesis using 1 unfolding e by (cases "queryUnescape t") (simp_all add: query_escape_char_def Cons.IH)
  next
    case 2
    then have "c = CHR '' ''" by (metis byte_inj special_bytes(3))
    then show ?thesis using 2 unfolding e by (cases "queryUnescape t") (simp_all add: query_escape_char_def Cons.IH)
  next
    case 3
    have "16 * (byte c div 16) + byte c mod 16 = byte c" by simp
    moreover have "byte c div 16 < 16" by (simp add: less_mult_imp_div_less)
    ultimately show ?thesis using 3 unfolding e
      by (cases "queryUnescape t") (simp_all add: query_escape_char_def Cons.IH unhex_upper)
  qed
qed

lemma queryUnescape_queryEscape: "queryUnescape (queryEscape s) = Some s"
  using queryUnescape_escape [of s "[]"] by simp

lemma queryEscape_chars: "c \<in> set (queryEscape s) \<Longrightarrow> unreserved (byte c) \<or> c = CHR ''+'' \<or> c = CHR ''%''"
  using upper_hex_unreserved
  by (fastforce simp: queryEscape_def query_escape_char_def less_mult_imp_div_less split: if_splits)

lemma queryEscape_free: "c \<in> {CHR ''&'', CHR ''='', CHR '';'', CHR ''#'', CHR ''?''} \<Longrightarrow> c \<notin> set (queryEscape s)"
  by (auto dest!: queryEscape_chars simp: unreserved_def special_bytes)

lemma cut_append: "c \<notin> set u \<Longrightarrow> cut c (u @ c # v) = (u, v)"
  by (auto simp: cut_def takeWhile_append dropWhile_append dest: set_takeWhileD)

lemma cut_free: "c \<notin> set u \<Longrightarrow> cut c u = (u, [])"
  by (induction u) (auto simp: cut_def)

text \<open>A query put together from escaped values is read back.\<close>

lemma parse_setting_plain:
  assumes "queryUnescape k = Some k" and "k \<noteq> []" and "CHR ''='' \<notin> set k" and "CHR '';'' \<notin> set k"
    and "queryUnescape v = Some v'" and "CHR '';'' \<notin> set v"
  shows "parse_setting (k @ CHR ''='' # v) = Some (k, v')"
  using assms by (simp add: parse_setting_def cut_append)

lemma parse_setting_escaped:
  assumes "queryUnescape k = Some k" and "k \<noteq> []" and "CHR ''='' \<notin> set k" and "CHR '';'' \<notin> set k"
  shows "parse_setting (k @ CHR ''='' # queryEscape v) = Some (k, v)"
  by (rule parse_setting_plain [OF assms queryUnescape_queryEscape]) (simp add: queryEscape_free)

lemma parseQuery_one: "CHR ''&'' \<notin> set w \<Longrightarrow> parse_setting w = Some kv \<Longrightarrow> parseQuery w = [kv]"
  by (simp add: parseQuery_def splitByte_free List.map_filter_def)

lemma parseQuery_more:
  "CHR ''&'' \<notin> set w \<Longrightarrow> parse_setting w = Some kv \<Longrightarrow> parseQuery (w @ CHR ''&'' # q) = kv # parseQuery q"
  by (simp add: parseQuery_def splitByte_append List.map_filter_def)

lemma reference_parts_query:
  assumes "CHR ''?'' \<notin> set p" and "CHR ''#'' \<notin> set p" and "CHR ''#'' \<notin> set q"
  shows "reference_parts (p @ CHR ''?'' # q) = (p, q)" and "reference_parts p = (p, [])"
  using assms by (simp_all add: reference_parts_def cut_free cut_append)

lemma takeWhile_free: "c \<notin> set u \<Longrightarrow> takeWhile (\<lambda>x. x \<noteq> c) (u @ v) = u @ takeWhile (\<lambda>x. x \<noteq> c) v"
  by (induction u) auto

text \<open>The path of a reference that starts without a question mark or hash.\<close>

lemma reference_path:
  assumes "CHR ''?'' \<notin> set p" and "CHR ''#'' \<notin> set p"
  shows "fst (reference_parts (p @ CHR ''?'' # q)) = p"
  using assms by (simp add: reference_parts_def cut_def takeWhile_free)

lemma reference_path_prefix:
  assumes "CHR ''?'' \<notin> set p" and "CHR ''#'' \<notin> set p"
  shows "\<exists>rest. fst (reference_parts (p @ q)) = p @ rest"
  using assms by (simp add: reference_parts_def cut_def takeWhile_free)

end
