(* ===== verification/Routes.thy ===== *)
theory Routes
  imports GoPath Url
begin

text \<open>
  \<^verbatim>\<open>routes.go\<close> and \<^verbatim>\<open>handler.go\<close>: mounting the handler under a prefix, the eleven routes with the
  parsing of their identifiers, and the hyperlinks the pages print. The prefix for links is one
  package variable that every \<^verbatim>\<open>createRouter\<close> overwrites, so it is a state of its own here.

  The router is the external package \<^verbatim>\<open>chi\<close>, an argument (\<open>chi_mux\<close>): which route it picks for a path
  and with which parameters. What is relied on is in \<open>chi_ok\<close>, for mount points (\<open>mount_point\<close>): prefixes
  that end in a slash, as all prefixes of handlers do, and hold none of the letters chi or a URL gives a
  meaning to (\<open>plain_prefix\<close>). A path under the mount point that fits one pattern and no other goes to
  that route, with the parameters it fits with; a path not under it goes nowhere; a prefix must start
  with a slash, or chi panics.
\<close>

section \<open>Routes\<close>

datatype seg = Lit gostring | Param gostring | Wild

type_synonym pattern = "seg list"

datatype route = RTop | RChannel | RChannels | RSubchannel | RServer | RVhosts | RVhost | RCluster
  | RPools | RPool | RSocket

definition routes :: "(pattern \<times> route) list" where
  "routes =
     [([Lit []], RTop),
      ([Lit ''channel'', Param ''channel''], RChannel),
      ([Lit ''channels''], RChannels),
      ([Lit ''subchannel'', Param ''channel''], RSubchannel),
      ([Lit ''server'', Param ''server''], RServer),
      ([Lit ''xds'', Lit ''vhost'', Param ''channel''], RVhosts),
      ([Lit ''xds'', Lit ''vhost'', Param ''channel'', Wild], RVhost),
      ([Lit ''xds'', Lit ''cluster'', Param ''channel'', Wild], RCluster),
      ([Lit ''channel'', Param ''channel'', Lit ''pools''], RPools),
      ([Lit ''channel'', Param ''channel'', Lit ''pool''], RPool),
      ([Lit ''socket'', Param ''socket''], RSocket)]"

text \<open>The page an operation of \<^verbatim>\<open>channelzHandler\<close> writes.\<close>

datatype page = TopChannelsPage | ChannelsPage int64 | ChannelPage int64 | SubchannelPage int64
  | ServerPage int64 | SocketPage int64 | XdsVirtualHostsPage int64 | XdsVirtualHostPage int64 gostring
  | XdsClusterPage int64 gostring | SubchannelPoolsPage int64 | SubchannelPoolPage int64 gostring gostring

text \<open>A malformed identifier is logged and the response stays empty.\<close>

datatype response = NotFound | LoggedError gostring | Served page

definition with_id :: "gostring \<Rightarrow> gostring \<Rightarrow> (int64 \<Rightarrow> page) \<Rightarrow> response" where
  "with_id what str k =
     (case parseInt str of
        None \<Rightarrow> LoggedError (''channelz: Unable to parse int for '' @ what @ '' ID. '' @ str)
      | Some i \<Rightarrow> Served (k i))"

definition urlParam :: "(gostring \<times> gostring) list \<Rightarrow> gostring \<Rightarrow> gostring" where
  "urlParam ps n = (case map_of ps n of None \<Rightarrow> [] | Some v \<Rightarrow> v)"

fun handle_route :: "route \<Rightarrow> (gostring \<times> gostring) list \<Rightarrow> (gostring \<Rightarrow> gostring) \<Rightarrow> response" where
  "handle_route RTop ps q = Served TopChannelsPage"
| "handle_route RChannel ps q = with_id ''channel'' (urlParam ps ''channel'') ChannelPage"
| "handle_route RChannels ps q = with_id ''start channel'' (q ''start'') ChannelsPage"
| "handle_route RSubchannel ps q = with_id ''sub-channel'' (urlParam ps ''channel'') SubchannelPage"
| "handle_route RServer ps q = with_id ''server'' (urlParam ps ''server'') ServerPage"
| "handle_route RVhosts ps q = with_id ''channel'' (urlParam ps ''channel'') XdsVirtualHostsPage"
| "handle_route RVhost ps q =
     with_id ''channel'' (urlParam ps ''channel'') (\<lambda>i. XdsVirtualHostPage i (urlParam ps ''*''))"
| "handle_route RCluster ps q =
     with_id ''channel'' (urlParam ps ''channel'') (\<lambda>i. XdsClusterPage i (urlParam ps ''*''))"
| "handle_route RPools ps q = with_id ''channel'' (urlParam ps ''channel'') SubchannelPoolsPage"
| "handle_route RPool ps q =
     with_id ''channel'' (urlParam ps ''channel'') (\<lambda>i. SubchannelPoolPage i (q ''addr'') (q ''cluster''))"
| "handle_route RSocket ps q = with_id ''socket'' (urlParam ps ''socket'') SocketPage"

section \<open>The router\<close>

fun match_segs :: "pattern \<Rightarrow> gostring list \<Rightarrow> (gostring \<times> gostring) list option" where
  "match_segs [] segs = (if segs = [] then Some [] else None)"
| "match_segs (Wild # ps) segs = (if segs = [] \<or> ps \<noteq> [] then None else Some [(''*'', joinByte slash segs)])"
| "match_segs (Lit l # ps) segs =
     (case segs of [] \<Rightarrow> None | s # ss \<Rightarrow> if s = l then match_segs ps ss else None)"
| "match_segs (Param n # ps) segs =
     (case segs of [] \<Rightarrow> None | s # ss \<Rightarrow> map_option (Cons (n, s)) (match_segs ps ss))"

definition match_path :: "gostring \<Rightarrow> pattern \<Rightarrow> gostring \<Rightarrow> (gostring \<times> gostring) list option" where
  "match_path prefix pat path =
     (if hasPrefix path prefix then match_segs pat (splitByte slash (drop (length prefix) path)) else None)"

record chi_mux =
  accepts_prefix :: "gostring \<Rightarrow> bool"
  find_route :: "gostring \<Rightarrow> pattern list \<Rightarrow> gostring \<Rightarrow> (nat \<times> (gostring \<times> gostring) list) option"

text \<open>The letters a request sends as they are.\<close>

definition printable :: "char \<Rightarrow> bool" where
  "printable c \<longleftrightarrow> 0x20 < (of_char c :: nat) \<and> of_char c \<noteq> (0x7F :: nat)"

definition plain_prefix :: "gostring \<Rightarrow> bool" where
  "plain_prefix p \<longleftrightarrow> list_all printable p \<and>
     set p \<inter> {CHR ''{'', CHR ''}'', CHR ''*'', CHR ''?'', CHR ''#'', CHR ''%''} = {}"

definition mount_point :: "gostring \<Rightarrow> bool" where
  "mount_point prefix \<longleftrightarrow> plain_prefix prefix \<and> prefix \<noteq> [] \<and> last prefix = slash"

definition chi_ok :: "chi_mux \<Rightarrow> bool" where
  "chi_ok m \<longleftrightarrow>
     (\<forall>prefix. mount_point prefix \<longrightarrow>
        (accepts_prefix m prefix \<longleftrightarrow> hasPrefix prefix [slash]) \<and>
        (\<forall>path. \<not> hasPrefix path prefix \<longrightarrow> find_route m prefix (map fst routes) path = None) \<and>
        (\<forall>path k ps. k < length routes \<and> match_path prefix (fst (routes ! k)) path = Some ps \<and>
           (\<forall>j<length routes. j \<noteq> k \<longrightarrow> match_path prefix (fst (routes ! j)) path = None) \<and>
           (\<forall>(n, v)\<in>set ps. v \<noteq> []) \<longrightarrow>
           find_route m prefix (map fst routes) path = Some (k, ps)))"

text \<open>\<^verbatim>\<open>createRouter\<close>: the new value of the package variable, and the prefix of the mux, unless chi panics.\<close>

definition createRouter :: "chi_mux \<Rightarrow> gostring \<Rightarrow> gostring \<times> gostring option" where
  "createRouter m prefix = (prefix, if accepts_prefix m prefix then Some prefix else None)"

definition mount_prefix :: "gostring \<Rightarrow> gostring" where
  "mount_prefix pathPrefix = pathJoin [pathPrefix, ''channelz''] @ [slash]"

definition CreateHandlerWithDialOpts :: "chi_mux \<Rightarrow> gostring \<Rightarrow> gostring \<times> gostring option" where
  "CreateHandlerWithDialOpts m pathPrefix = createRouter m (mount_prefix pathPrefix)"

text \<open>A GET request to the mux mounted at \<open>prefix\<close>, a mount point.\<close>

definition serve :: "chi_mux \<Rightarrow> gostring \<Rightarrow> gostring \<Rightarrow> (gostring \<Rightarrow> gostring) \<Rightarrow> response" where
  "serve m prefix path q =
     (case find_route m prefix (map fst routes) path of
        None \<Rightarrow> NotFound
      | Some (k, ps) \<Rightarrow> handle_route (snd (routes ! k)) ps q)"

text \<open>A GET of a reference, sent letter for letter as a link holds it.\<close>

definition get :: "chi_mux \<Rightarrow> gostring \<Rightarrow> gostring \<Rightarrow> response" where
  "get m prefix href =
     (case reference_parts href of (path, raw) \<Rightarrow> serve m prefix path (queryGet (parseQuery raw)))"

section \<open>Links\<close>

datatype part = PStr gostring | PInt int | PInt64 int64

fun part_string :: "part \<Rightarrow> gostring" where
  "part_string (PStr s) = s"
| "part_string (PInt i) = fmt_int i"
| "part_string (PInt64 w) = formatInt w"

definition createHyperlink :: "gostring \<Rightarrow> part list \<Rightarrow> gostring" where
  "createHyperlink pathPrefix parts = pathJoin (([slash] @ pathPrefix) # map part_string parts)"

text \<open>The link a template prints for a page, and the query it adds to it.\<close>

fun page_link :: "page \<Rightarrow> part list" where
  "page_link TopChannelsPage = []"
| "page_link (ChannelsPage i) = [PStr ''channels'']"
| "page_link (ChannelPage i) = [PStr ''channel'', PInt64 i]"
| "page_link (SubchannelPage i) = [PStr ''subchannel'', PInt64 i]"
| "page_link (ServerPage i) = [PStr ''server'', PInt64 i]"
| "page_link (SocketPage i) = [PStr ''socket'', PInt64 i]"
| "page_link (XdsVirtualHostsPage i) = [PStr ''xds'', PStr ''vhost'', PInt64 i]"
| "page_link (XdsVirtualHostPage i n) = [PStr ''xds'', PStr ''vhost'', PInt64 i, PStr n]"
| "page_link (XdsClusterPage i n) = [PStr ''xds'', PStr ''cluster'', PInt64 i, PStr n]"
| "page_link (SubchannelPoolsPage i) = [PStr ''channel'', PInt64 i, PStr ''pools'']"
| "page_link (SubchannelPoolPage i a c) = [PStr ''channel'', PInt64 i, PStr ''pool'']"

definition pool_query :: "gostring \<Rightarrow> gostring \<Rightarrow> gostring" where
  "pool_query addr cluster = ''?addr='' @ queryEscape addr @ ''&cluster='' @ queryEscape cluster"

fun page_query :: "page \<Rightarrow> gostring" where
  "page_query (ChannelsPage i) = ''?start='' @ formatInt i"
| "page_query (SubchannelPoolPage i a c) =
     (if c = [] then ''?addr='' @ queryEscape a else pool_query a c)"
| "page_query _ = []"

definition page_href :: "gostring \<Rightarrow> page \<Rightarrow> gostring" where
  "page_href pathPrefix pg = createHyperlink pathPrefix (page_link pg) @ page_query pg"

section \<open>Paths\<close>

lemma clean_segs_join: "clean_segs (p @ slash # w) = foldl (clean_step True) (clean_segs p) (splitByte slash w)"
  by (simp add: clean_segs_def splitByte_at)

lemma mount_prefix_rooted:
  assumes "hasPrefix p [slash]"
  shows "mount_prefix p = slash # joinByte slash (clean_segs p @ [''channelz'']) @ [slash]"
proof -
  obtain q where p: "p = slash # q" using assms by (auto simp: hasPrefix_iff)
  have "splitByte slash ''channelz'' = [''channelz'']" by (simp add: slash_def)
  then have "clean_segs (p @ slash # ''channelz'') = clean_segs p @ [''channelz'']"
    by (simp add: clean_segs_join clean_step_def)
  moreover have "pathJoin [p, ''channelz''] = pathClean (p @ slash # ''channelz'')"
    by (simp add: pathJoin_def join_buf_def join_step_def p)
  ultimately show ?thesis
    by (simp add: mount_prefix_def pathClean_rooted_segs p)
qed

lemma joinByte_chars: "set (joinByte c ws) \<subseteq> insert c (\<Union>w\<in>set ws. set w)"
  by (induction c ws rule: joinByte.induct) auto

lemma splitByte_subset: "w \<in> set (splitByte c s) \<Longrightarrow> set w \<subseteq> set s"
  by (induction s arbitrary: w) (fastforce split: list.splits if_splits)+

lemma mount_point_mount [simp]: "mount_point (mount_prefix p) \<longleftrightarrow> plain_prefix (mount_prefix p)"
  by (simp add: mount_point_def mount_prefix_def)

lemma mount_prefix_plain:
  assumes "hasPrefix p [slash]" and "plain_prefix p"
  shows "plain_prefix (mount_prefix p)"
proof -
  have "\<forall>w\<in>set (foldl (clean_step True) out segs). w \<in> set out \<union> set segs" for out segs
  proof (induction segs arbitrary: out)
    case (Cons s segs)
    have "set (clean_step True out s) \<subseteq> set out \<union> {s}"
      by (auto simp: clean_step_def dest: in_set_butlastD)
    then show ?case using Cons by fastforce
  qed simp
  then have "set (clean_segs p) \<subseteq> set (splitByte slash p)"
    by (fastforce simp: clean_segs_def)
  then have "set (mount_prefix p) \<subseteq> insert slash (set p \<union> set ''channelz'')"
    using joinByte_chars [of slash "clean_segs p @ [''channelz'']"] splitByte_subset [of _ slash p]
    by (fastforce simp: mount_prefix_rooted [OF assms(1)])
  moreover have "list_all printable (slash # ''channelz'')" by (simp add: slash_def printable_def)
  ultimately have "list_all printable (mount_prefix p)"
    using assms(2) by (fastforce simp: plain_prefix_def list_all_iff)
  moreover have "set (mount_prefix p) \<inter> {CHR ''{'', CHR ''}'', CHR ''*'', CHR ''?'', CHR ''#'', CHR ''%''} = {}"
    using assms(2) \<open>set (mount_prefix p) \<subseteq> _\<close> by (fastforce simp: plain_prefix_def slash_def)
  ultimately show ?thesis by (simp add: plain_prefix_def)
qed

lemma mount_accepted:
  assumes "chi_ok m" and "hasPrefix p [slash]" and "plain_prefix p"
  shows "accepts_prefix m (mount_prefix p)"
proof -
  have "mount_point (mount_prefix p)" using mount_prefix_plain [OF assms(2,3)] by simp
  then have "accepts_prefix m (mount_prefix p) \<longleftrightarrow> hasPrefix (mount_prefix p) [slash]"
    using assms(1) unfolding chi_ok_def by blast
  then show ?thesis by (simp add: mount_prefix_rooted [OF assms(2)])
qed

lemma mount_misses:
  "chi_ok m \<Longrightarrow> plain_prefix (mount_prefix p) \<Longrightarrow> \<not> hasPrefix path (mount_prefix p) \<Longrightarrow>
    find_route m (mount_prefix p) (map fst routes) path = None"
  by (simp add: chi_ok_def)

lemma splitByte_slash_join:
  "\<forall>w\<in>set ws. slash \<notin> set w \<Longrightarrow> ws \<noteq> [] \<Longrightarrow> splitByte slash (joinByte slash ws) = ws"
  by (simp add: splitByte_joinByte)

text \<open>What a link is, when every segment of its parts is kept by \<^verbatim>\<open>path.Join\<close>.\<close>

definition part_segs :: "part list \<Rightarrow> gostring list" where
  "part_segs parts = concat (map (\<lambda>p. splitByte slash (part_string p)) parts)"

lemma createHyperlink_filtered:
  assumes "hasPrefix p [slash]" and "\<forall>w\<in>set (part_segs parts). w = [] \<or> clean_seg w"
    and "filter (\<lambda>w. w \<noteq> []) (part_segs parts) \<noteq> []"
  shows "createHyperlink (mount_prefix p) parts =
    mount_prefix p @ joinByte slash (filter (\<lambda>w. w \<noteq> []) (part_segs parts))"
proof -
  let ?segs = "clean_segs p @ [''channelz'']" and ?kept = "filter (\<lambda>w. w \<noteq> []) (part_segs parts)"
  have segs: "\<forall>w\<in>set ?segs. clean_seg w"
    using clean_segs_clean by (auto simp: clean_seg_def slash_def)
  have mp: "mount_prefix p = slash # joinByte slash ?segs @ [slash]"
    using assms(1) by (rule mount_prefix_rooted)
  have "splitByte slash ([slash] @ mount_prefix p) = [] # [] # ?segs @ [[]]"
    using segs by (simp add: mp splitByte_at splitByte_joinByte clean_seg_def)
  then have all: "concat (map (splitByte slash) (([slash] @ mount_prefix p) # map part_string parts)) =
      [] # [] # ?segs @ [[]] @ part_segs parts"
    by (simp add: part_segs_def comp_def)
  have "filter (\<lambda>w. w \<noteq> []) ?segs = ?segs"
    using segs by (auto simp: clean_seg_def)
  then have kept: "filter (\<lambda>w. w \<noteq> []) ([] # [] # ?segs @ [[]] @ part_segs parts) = ?segs @ ?kept" by simp
  have "createHyperlink (mount_prefix p) parts =
      slash # joinByte slash (filter (\<lambda>w. w \<noteq> []) ([] # [] # ?segs @ [[]] @ part_segs parts))"
    unfolding createHyperlink_def all [symmetric]
  proof (rule pathJoin_rooted)
    show "\<forall>w\<in>set (concat (map (splitByte slash) (([slash] @ mount_prefix p) # map part_string parts))). w = [] \<or> clean_seg w"
      unfolding all using segs assms(2) by auto
  qed simp_all
  also have "\<dots> = slash # joinByte slash ?segs @ slash # joinByte slash ?kept"
    unfolding kept using assms(3) by (subst joinByte_append) simp_all
  finally show ?thesis by (simp only: mp append_Cons append_assoc append_Nil)
qed

lemma createHyperlink_mounted:
  assumes "hasPrefix p [slash]" and "\<forall>w\<in>set (part_segs parts). clean_seg w" and "part_segs parts \<noteq> []"
  shows "createHyperlink (mount_prefix p) parts = mount_prefix p @ joinByte slash (part_segs parts)"
proof -
  have "filter (\<lambda>w. w \<noteq> []) (part_segs parts) = part_segs parts"
    using assms(2) by (auto simp: clean_seg_def)
  then show ?thesis using createHyperlink_filtered [OF assms(1)] assms(2,3) by simp
qed

section \<open>No path fits two routes\<close>

fun classify :: "gostring list \<Rightarrow> route option" where
  "classify [] = None"
| "classify [a] = (if a = [] then Some RTop else if a = ''channels'' then Some RChannels else None)"
| "classify [a, b] =
     (if a = ''channel'' then Some RChannel else if a = ''subchannel'' then Some RSubchannel
      else if a = ''server'' then Some RServer else if a = ''socket'' then Some RSocket else None)"
| "classify [a, b, c] =
     (if a = ''channel'' \<and> c = ''pools'' then Some RPools else if a = ''channel'' \<and> c = ''pool'' then Some RPool
      else if a = ''xds'' \<and> b = ''vhost'' then Some RVhosts else None)"
| "classify (a # b # c # d # es) =
     (if a = ''xds'' \<and> b = ''vhost'' then Some RVhost else if a = ''xds'' \<and> b = ''cluster'' then Some RCluster else None)"

lemma match_segs_iff:
  "match_segs [] segs = Some ps \<longleftrightarrow> segs = [] \<and> ps = []"
  "match_segs (Wild # p) segs = Some ps \<longleftrightarrow> segs \<noteq> [] \<and> p = [] \<and> ps = [(''*'', joinByte slash segs)]"
  "match_segs (Lit l # p) segs = Some ps \<longleftrightarrow> (\<exists>ss. segs = l # ss \<and> match_segs p ss = Some ps)"
  "match_segs (Param n # p) segs = Some ps \<longleftrightarrow>
     (\<exists>s ss qs. segs = s # ss \<and> ps = (n, s) # qs \<and> match_segs p ss = Some qs)"
  by (auto split: list.splits if_splits)

lemma classify_long:
  "es \<noteq> [] \<Longrightarrow> classify (a # b # c # es) =
     (if a = ''xds'' \<and> b = ''vhost'' then Some RVhost else if a = ''xds'' \<and> b = ''cluster'' then Some RCluster else None)"
  by (cases es) auto

lemma match_classify:
  assumes "(pat, r) \<in> set routes" and "match_segs pat segs = Some ps"
  shows "classify segs = Some r"
  using assms by (auto simp: routes_def match_segs_iff classify_long simp del: match_segs.simps)

lemma routes_distinct: "distinct (map snd routes)"
  by (simp add: routes_def)

lemma route_unique:
  assumes "k < length routes" and "match_path prefix (fst (routes ! k)) path = Some ps"
    and "j < length routes" and "j \<noteq> k"
  shows "match_path prefix (fst (routes ! j)) path = None"
proof (rule ccontr)
  assume "match_path prefix (fst (routes ! j)) path \<noteq> None"
  then obtain qs where "match_path prefix (fst (routes ! j)) path = Some qs" by blast
  moreover have "(fst (routes ! i), snd (routes ! i)) \<in> set routes" if "i < length routes" for i
    using that by simp
  ultimately have "Some (snd (routes ! j)) = Some (snd (routes ! k))"
    using match_classify assms(1-3) unfolding match_path_def by (metis option.distinct(1))
  then have "snd (routes ! j) = snd (routes ! k)" by simp
  then show False
    using routes_distinct assms(1,3,4) by (metis length_map nth_eq_iff_index_eq nth_map)
qed

lemma serve_route:
  assumes "chi_ok m" and "(pat, r) \<in> set routes" and "match_segs pat segs = Some ps"
    and "\<forall>(n, v)\<in>set ps. v \<noteq> []" and "\<forall>w\<in>set segs. slash \<notin> set w" and "segs \<noteq> []" and "mount_point prefix"
  shows "serve m prefix (prefix @ joinByte slash segs) q = handle_route r ps q"
proof -
  obtain k where k: "k < length routes" "routes ! k = (pat, r)" using assms(2) by (metis in_set_conv_nth)
  have "match_path prefix (fst (routes ! k)) (prefix @ joinByte slash segs) = Some ps"
    using k assms(3,5,6) by (simp add: match_path_def splitByte_slash_join)
  moreover from this have "\<forall>j<length routes. j \<noteq> k \<longrightarrow>
      match_path prefix (fst (routes ! j)) (prefix @ joinByte slash segs) = None"
    using route_unique [of k prefix _ ps] k by auto
  ultimately have "find_route m prefix (map fst routes) (prefix @ joinByte slash segs) = Some (k, ps)"
    using k(1) assms(1,4,7) unfolding chi_ok_def by blast
  then show ?thesis by (simp add: serve_def k)
qed

lemma formatInt_free: "slash \<notin> set (formatInt w)" "formatInt w \<noteq> []"
proof -
  show "slash \<notin> set (formatInt w)"
    by (auto simp: formatInt_def fmt_int_def slash_def fmt_nat_free)
  show "formatInt w \<noteq> []" by (simp add: formatInt_def fmt_int_def)
qed

lemma formatInt_clean: "clean_seg (formatInt w)"
proof -
  have "CHR ''.'' \<notin> set (formatInt w)" by (auto simp: formatInt_def fmt_int_def fmt_nat_free)
  then show ?thesis using formatInt_free by (auto simp: clean_seg_def)
qed

text \<open>A resource name that survives in a path: no empty segment and none that is a dot or two; and
  one that survives in a URL.\<close>

definition path_name :: "gostring \<Rightarrow> bool" where
  "path_name n \<longleftrightarrow> (\<forall>w\<in>set (splitByte slash n). clean_seg w)"

definition plain_name :: "gostring \<Rightarrow> bool" where
  "plain_name n \<longleftrightarrow> list_all printable n \<and> set n \<inter> {CHR ''?'', CHR ''#'', CHR ''%''} = {}"

fun page_named :: "page \<Rightarrow> bool" where
  "page_named (XdsVirtualHostPage i n) \<longleftrightarrow> path_name n \<and> plain_name n"
| "page_named (XdsClusterPage i n) \<longleftrightarrow> path_name n \<and> plain_name n"
| "page_named TopChannelsPage = False"
| "page_named _ = True"

text \<open>The route of a page, the segments of its link and the parameters read back from them.\<close>

fun page_route :: "page \<Rightarrow> pattern \<times> route" where
  "page_route TopChannelsPage = routes ! 0"
| "page_route (ChannelPage i) = routes ! 1"
| "page_route (ChannelsPage i) = routes ! 2"
| "page_route (SubchannelPage i) = routes ! 3"
| "page_route (ServerPage i) = routes ! 4"
| "page_route (XdsVirtualHostsPage i) = routes ! 5"
| "page_route (XdsVirtualHostPage i n) = routes ! 6"
| "page_route (XdsClusterPage i n) = routes ! 7"
| "page_route (SubchannelPoolsPage i) = routes ! 8"
| "page_route (SubchannelPoolPage i a c) = routes ! 9"
| "page_route (SocketPage i) = routes ! 10"

lemma page_route_mem: "page_route pg \<in> set routes"
  by (cases pg) (simp_all add: routes_def)

lemma splitByte_literals:
  "splitByte slash ''channels'' = [''channels'']" "splitByte slash ''channel'' = [''channel'']"
  "splitByte slash ''subchannel'' = [''subchannel'']" "splitByte slash ''server'' = [''server'']"
  "splitByte slash ''socket'' = [''socket'']" "splitByte slash ''xds'' = [''xds'']"
  "splitByte slash ''vhost'' = [''vhost'']" "splitByte slash ''cluster'' = [''cluster'']"
  "splitByte slash ''pools'' = [''pools'']" "splitByte slash ''pool'' = [''pool'']"
  by (simp_all add: slash_def)

text \<open>The segments of the links.\<close>

fun page_segs :: "page \<Rightarrow> gostring list" where
  "page_segs TopChannelsPage = []"
| "page_segs (ChannelsPage i) = [''channels'']"
| "page_segs (ChannelPage i) = [''channel'', formatInt i]"
| "page_segs (SubchannelPage i) = [''subchannel'', formatInt i]"
| "page_segs (ServerPage i) = [''server'', formatInt i]"
| "page_segs (SocketPage i) = [''socket'', formatInt i]"
| "page_segs (XdsVirtualHostsPage i) = [''xds'', ''vhost'', formatInt i]"
| "page_segs (XdsVirtualHostPage i n) = ''xds'' # ''vhost'' # formatInt i # splitByte slash n"
| "page_segs (XdsClusterPage i n) = ''xds'' # ''cluster'' # formatInt i # splitByte slash n"
| "page_segs (SubchannelPoolsPage i) = [''channel'', formatInt i, ''pools'']"
| "page_segs (SubchannelPoolPage i a c) = [''channel'', formatInt i, ''pool'']"

lemma part_segs_page: "part_segs (page_link pg) = page_segs pg"
  by (cases pg) (simp_all add: part_segs_def splitByte_literals splitByte_free [OF formatInt_free(1)] del: splitByte.simps)

lemma page_link_clean: "page_named pg \<Longrightarrow> \<forall>w\<in>set (page_segs pg). clean_seg w"
  using formatInt_clean by (cases pg) (auto simp: path_name_def clean_seg_def slash_def)

lemma path_name_not_Nil: "path_name n \<Longrightarrow> n \<noteq> []"
  by (rule notI) (simp add: path_name_def clean_seg_def)

text \<open>The settings the handlers read from a query.\<close>

lemma queryUnescape_plain: "\<forall>c\<in>set s. c \<noteq> CHR ''%'' \<and> c \<noteq> CHR ''+'' \<Longrightarrow> queryUnescape s = Some s"
  by (induction s) auto

lemma formatInt_chars: "c \<in> set (formatInt w) \<Longrightarrow> c = CHR ''-'' \<or> digit_of c \<noteq> None"
  by (auto simp: formatInt_def fmt_int_def dest: fmt_nat_digits split: if_splits)

lemma formatInt_plain: "c \<in> {CHR ''?'', CHR ''#'', CHR ''%'', CHR ''+'', CHR ''&'', CHR '';'', CHR ''=''} \<Longrightarrow> c \<notin> set (formatInt w)"
  by (auto dest!: formatInt_chars simp: digit_of_def)

lemma parse_start: "parseQuery (''start='' @ formatInt i) = [(''start'', formatInt i)]"
proof (rule parseQuery_one)
  have "queryUnescape (formatInt i) = Some (formatInt i)"
    by (rule queryUnescape_plain) (use formatInt_plain [where w = i] in blast)
  then have "parse_setting (''start'' @ CHR ''='' # formatInt i) = Some (''start'', formatInt i)"
    by (intro parse_setting_plain) (simp_all add: formatInt_plain)
  then show "parse_setting (''start='' @ formatInt i) = Some (''start'', formatInt i)" by simp
qed (simp add: formatInt_plain)

lemma parse_setting_addr:
  "parse_setting (''addr='' @ queryEscape a) = Some (''addr'', a)"
  "parse_setting (''cluster='' @ queryEscape c) = Some (''cluster'', c)"
  using parse_setting_escaped [of "''addr''" a] parse_setting_escaped [of "''cluster''" c] by simp_all

lemma parse_pool:
  "parseQuery (''addr='' @ queryEscape a) = [(''addr'', a)]"
  "parseQuery (''addr='' @ queryEscape a @ ''&cluster='' @ queryEscape c) = [(''addr'', a), (''cluster'', c)]"
proof -
  have free: "CHR ''&'' \<notin> set (''addr='' @ queryEscape a)" "CHR ''&'' \<notin> set (''cluster='' @ queryEscape c)" for a c
    by (simp_all add: queryEscape_free)
  show "parseQuery (''addr='' @ queryEscape a) = [(''addr'', a)]"
    using free(1) parse_setting_addr(1) by (rule parseQuery_one)
  have "parseQuery ((''addr='' @ queryEscape a) @ CHR ''&'' # (''cluster='' @ queryEscape c)) = [(''addr'', a), (''cluster'', c)]"
    using parseQuery_more [OF free(1) parse_setting_addr(1)] parseQuery_one [OF free(2) parse_setting_addr(2)] by metis
  then show "parseQuery (''addr='' @ queryEscape a @ ''&cluster='' @ queryEscape c) = [(''addr'', a), (''cluster'', c)]"
    by simp
qed

lemma page_query_parts:
  "\<exists>q. page_query pg = (if page_query pg = [] then [] else CHR ''?'' # q) \<and> CHR ''#'' \<notin> set (page_query pg)"
  using formatInt_plain by (cases pg) (auto simp: pool_query_def queryEscape_free)

lemma page_link_match:
  assumes "page_named pg"
  shows "\<exists>ps. match_segs (fst (page_route pg)) (page_segs pg) = Some ps \<and> (\<forall>(n, v)\<in>set ps. v \<noteq> []) \<and>
    handle_route (snd (page_route pg)) ps (queryGet (parseQuery (drop 1 (page_query pg)))) = Served pg"
  using assms path_name_not_Nil formatInt_free(2) parse_start parse_pool
  by (cases pg) (simp_all add: routes_def with_id_def urlParam_def parseInt_formatInt joinByte_splitByte
      pool_query_def queryGet_def)

lemma page_segs_plain:
  assumes "page_named pg" and "c \<in> {CHR ''?'', CHR ''#'', CHR ''%''}"
  shows "c \<notin> set (joinByte slash (page_segs pg))"
proof -
  have "c \<noteq> slash" using assms(2) by (auto simp: slash_def)
  moreover have "c \<notin> set w" if "w \<in> set (page_segs pg)" for w
  proof -
    have name: "c \<notin> set w" if "plain_name n" "w \<in> set (splitByte slash n)" for n
      using that assms(2) splitByte_subset by (fastforce simp: plain_name_def)
    show ?thesis using that assms name formatInt_plain [of c] by (cases pg) auto
  qed
  ultimately show ?thesis using joinByte_chars [of slash "page_segs pg"] by blast
qed

lemma link_reaches:
  assumes "chi_ok m" and "hasPrefix p [slash]" and "page_named pg" and "plain_prefix p"
  shows "case CreateHandlerWithDialOpts m p of (global, mux) \<Rightarrow>
    \<exists>prefix. mux = Some prefix \<and> get m prefix (page_href global pg) = Served pg"
proof -
  let ?mp = "mount_prefix p"
  have clean: "\<forall>w\<in>set (page_segs pg). clean_seg w" using assms(3) by (rule page_link_clean)
  have segs: "page_segs pg \<noteq> []" using assms(3) by (cases pg) auto
  have link: "createHyperlink ?mp (page_link pg) = ?mp @ joinByte slash (page_segs pg)"
    using createHyperlink_mounted [OF assms(2), of "page_link pg"] segs clean by (simp add: part_segs_page)
  have plain: "plain_prefix ?mp" using assms(2,4) by (rule mount_prefix_plain)
  then have mounted: "mount_point ?mp" by simp
  have "c \<notin> set (?mp @ joinByte slash (page_segs pg))" if "c \<in> {CHR ''?'', CHR ''#''}" for c
    using plain page_segs_plain [OF assms(3)] that by (auto simp: plain_prefix_def)
  then have parts: "reference_parts (page_href ?mp pg) = (?mp @ joinByte slash (page_segs pg), drop 1 (page_query pg))"
    using page_query_parts [of pg] reference_parts_query [of "?mp @ joinByte slash (page_segs pg)" "drop 1 (page_query pg)"]
    unfolding page_href_def link
    by (cases "page_query pg") auto
  obtain ps where ps: "match_segs (fst (page_route pg)) (page_segs pg) = Some ps" "\<forall>(n, v)\<in>set ps. v \<noteq> []"
      "handle_route (snd (page_route pg)) ps (queryGet (parseQuery (drop 1 (page_query pg)))) = Served pg"
    using page_link_match [OF assms(3)] by blast
  have "serve m ?mp (?mp @ joinByte slash (page_segs pg)) (queryGet (parseQuery (drop 1 (page_query pg)))) = Served pg"
    unfolding ps(3) [symmetric] using assms(1) _ ps(1,2) _ segs mounted
    by (rule serve_route) (use page_route_mem clean in \<open>auto simp: clean_seg_def\<close>)
  moreover have "accepts_prefix m ?mp" using assms(1,2,4) by (rule mount_accepted)
  ultimately show ?thesis
    by (simp add: CreateHandlerWithDialOpts_def createRouter_def get_def parts)
qed

section \<open>Properties\<close>

text \<open>
  C27. A link leads to the page it is for, where neither the prefix nor a name has letters with a meaning
  in an address: for a mount prefix that starts with a slash and has only printable letters, none of
  them a brace, an asterisk, a question mark, a hash or a percent sign, a GET of the hyperlink of a page,
  with the query the template adds, is routed to that page with the same identifier, address and names.
  The names of virtual hosts and clusters must be clean paths (no segment is empty, a dot or two dots)
  of printable letters without a question mark, hash or percent sign; identifiers, pool addresses and
  the cluster of a pool are arbitrary. The page at the mount point itself has no link.
\<close>

theorem link_reaches_page:
  assumes "chi_ok m" and "hasPrefix p [slash]" and "page_named pg" and "plain_prefix p"
  shows "case CreateHandlerWithDialOpts m p of (global, mux) \<Rightarrow>
    \<exists>prefix. mux = Some prefix \<and> get m prefix (page_href global pg) = Served pg"
  using assms by (rule link_reaches)

text \<open>A router that takes the first fitting route, as an instance of what is relied on.\<close>

definition first_match :: chi_mux where
  "first_match =
     \<lparr>accepts_prefix = (\<lambda>prefix. hasPrefix prefix [slash]),
      find_route = (\<lambda>prefix pats path.
        (case filter (\<lambda>k. match_path prefix (pats ! k) path \<noteq> None) [0..<length pats] of
           [] \<Rightarrow> None
         | k # _ \<Rightarrow> map_option (Pair k) (match_path prefix (pats ! k) path)))\<rparr>"

lemma first_match_ok: "chi_ok first_match"
  unfolding chi_ok_def
proof (intro conjI allI impI)
  fix prefix path k ps
  assume fits: "k < length routes \<and> match_path prefix (fst (routes ! k)) path = Some ps \<and>
    (\<forall>j<length routes. j \<noteq> k \<longrightarrow> match_path prefix (fst (routes ! j)) path = None) \<and> (\<forall>(n, v)\<in>set ps. v \<noteq> [])"
  let ?hits = "filter (\<lambda>k. match_path prefix (map fst routes ! k) path \<noteq> None) [0..<length (map fst routes)]"
  have hits: "set ?hits = {k}" using fits by auto
  show "find_route first_match prefix (map fst routes) path = Some (k, ps)"
  proof (cases ?hits)
    case Nil
    then show ?thesis using hits by simp
  next
    case (Cons j js)
    then have "j \<in> set ?hits" by simp
    then have "j = k" unfolding hits by simp
    then show ?thesis using fits Cons by (simp add: first_match_def)
  qed
qed (auto simp: first_match_def match_path_def)

theorem link_reaches_page_witness:
  "case CreateHandlerWithDialOpts first_match ''/foo'' of (global, mux) \<Rightarrow>
    \<exists>prefix. mux = Some prefix \<and>
      get first_match prefix (page_href global (XdsClusterPage 7 ''edge/v1'')) = Served (XdsClusterPage 7 ''edge/v1'')"
  by (rule link_reaches_page [OF first_match_ok])
    (simp_all add: path_name_def plain_name_def clean_seg_def slash_def plain_prefix_def printable_def)

text \<open>
  C33. A name with a question mark has a link to another page: the link of a cluster or virtual host is
  cut there, and the page served is the one of the part before it. The name is a clean path, the part
  before the question mark and the prefix are plain as for a link that works.
\<close>

theorem question_mark_cuts_link:
  assumes "chi_ok m" and "hasPrefix p [slash]" and "plain_prefix p"
    and "path_name a" and "plain_name a" and "path_name (a @ ''?'' @ b)"
  shows "get m (mount_prefix p) (page_href (mount_prefix p) (XdsClusterPage i (a @ ''?'' @ b))) =
      Served (XdsClusterPage i a) \<and>
    get m (mount_prefix p) (page_href (mount_prefix p) (XdsVirtualHostPage i (a @ ''?'' @ b))) =
      Served (XdsVirtualHostPage i a)"
proof -
  let ?mp = "mount_prefix p" and ?n = "a @ ''?'' @ b"
  have plain: "plain_prefix ?mp" using assms(2,3) by (rule mount_prefix_plain)
  then have mounted: "mount_point ?mp" by simp
  have cut: "get m ?mp (page_href ?mp long) = Served short"
    if short: "page_named short" "page_segs short = us @ splitByte slash a"
      and long: "page_segs long = us @ splitByte slash ?n" "page_query long = []"
      and us: "us \<noteq> []" "\<forall>w\<in>set us. clean_seg w"
      and same: "snd (page_route short) = r" "r = RCluster \<or> r = RVhost"
    for short long us r
  proof -
    have clean: "\<forall>w\<in>set (page_segs short). clean_seg w" using short(1) by (rule page_link_clean)
    have "createHyperlink ?mp (page_link long) = ?mp @ joinByte slash (page_segs long)"
      using createHyperlink_mounted [OF assms(2), of "page_link long"] us assms(6)
      by (simp add: part_segs_page long(1) path_name_def ball_Un)
    also have "\<dots> = (?mp @ joinByte slash (page_segs short)) @ ''?'' @ b"
      using us(1) by (simp add: long(1) short(2) joinByte_append joinByte_splitByte del: append_assoc)
    finally have href: "page_href ?mp long = (?mp @ joinByte slash (page_segs short)) @ CHR ''?'' # b"
      by (simp add: page_href_def long(2))
    have free: "c \<notin> set (?mp @ joinByte slash (page_segs short))" if "c \<in> {CHR ''?'', CHR ''#''}" for c
      using plain page_segs_plain [OF short(1)] that by (auto simp: plain_prefix_def)
    have path: "fst (reference_parts (page_href ?mp long)) = ?mp @ joinByte slash (page_segs short)"
      unfolding href by (rule reference_path) (use free in auto)
    obtain ps where ps: "match_segs (fst (page_route short)) (page_segs short) = Some ps" "\<forall>(n, v)\<in>set ps. v \<noteq> []"
        "handle_route (snd (page_route short)) ps (queryGet (parseQuery (drop 1 (page_query short)))) = Served short"
      using page_link_match [OF short(1)] by blast
    have "serve m ?mp (?mp @ joinByte slash (page_segs short)) q = handle_route (snd (page_route short)) ps q" for q
      using assms(1) _ ps(1,2) _ _ mounted
      by (rule serve_route) (use page_route_mem clean us(1) in \<open>auto simp: clean_seg_def short(2)\<close>)
    moreover have "handle_route (snd (page_route short)) ps q = Served short" for q
      using same(2) ps(3) unfolding same(1) by auto
    ultimately show ?thesis using path by (auto simp: get_def split: prod.splits)
  qed
  have seg: "clean_seg ''xds''" "clean_seg ''vhost''" "clean_seg ''cluster''" by (simp_all add: clean_seg_def slash_def)
  show ?thesis
  proof
    show "get m ?mp (page_href ?mp (XdsClusterPage i ?n)) = Served (XdsClusterPage i a)"
      by (rule cut [where us = "[''xds'', ''cluster'', formatInt i]" and r = RCluster])
        (use assms(4,5) seg formatInt_clean in \<open>simp_all add: routes_def\<close>)
    show "get m ?mp (page_href ?mp (XdsVirtualHostPage i ?n)) = Served (XdsVirtualHostPage i a)"
      by (rule cut [where us = "[''xds'', ''vhost'', formatInt i]" and r = RVhost])
        (use assms(4,5) seg formatInt_clean in \<open>simp_all add: routes_def\<close>)
  qed
qed

theorem question_mark_cuts_link_witness:
  "get first_match (mount_prefix ''/'') (page_href (mount_prefix ''/'') (XdsClusterPage 7 (''edge'' @ ''?'' @ ''zone=a''))) =
    Served (XdsClusterPage 7 ''edge'')"
  using question_mark_cuts_link [OF first_match_ok, of "''/''" "''edge''" "''zone=a''" 7]
  by (simp add: path_name_def plain_name_def clean_seg_def slash_def plain_prefix_def printable_def)

text \<open>
  What a handler answers for an identifier in a request, by the number its letters say: the page of that
  number, if it is one of 64 bits, and an empty page and a line in the log for everything else.
\<close>

definition id_answer :: "gostring \<Rightarrow> gostring \<Rightarrow> (int64 \<Rightarrow> page) \<Rightarrow> response" where
  "id_answer what s k =
     (let logged = LoggedError (''channelz: Unable to parse int for '' @ what @ '' ID. '' @ s)
      in case decimal_value s of
           None \<Rightarrow> logged
         | Some i \<Rightarrow> if - (2 ^ 63) \<le> i \<and> i < 2 ^ 63 then Served (k (of_int i)) else logged)"

lemma with_id_answer: "with_id what s k = id_answer what s k"
  by (simp add: with_id_def id_answer_def parseInt_decimal_value Let_def split: option.splits)

lemma joinByte_cons: "ws \<noteq> [] \<Longrightarrow> joinByte c (w # ws) = w @ c # joinByte c ws"
  by (cases ws) simp_all

text \<open>
  C28. An identifier in a request is taken exactly when its letters say a number of 64 bits, on every
  route that has one: the ten routes below the top one, for a non-empty segment \<open>s\<close> in the path, or the
  value of \<open>start\<close> in the query, which may be missing. Then the page of that number is served, with the
  rest of the path or the query as its other values, and everything else, overflow included, is logged
  and answered with an empty page. The handler is mounted under a prefix that starts with a slash and
  has only plain letters.
\<close>

theorem channel_id_parsing:
  assumes "chi_ok m" and "hasPrefix p [slash]" and "plain_prefix p"
    and "s \<noteq> []" and "slash \<notin> set s" and "n \<noteq> []"
  shows "let answer = (\<lambda>path. serve m (mount_prefix p) (mount_prefix p @ path) q) in
    answer (''channel/'' @ s) = id_answer ''channel'' s ChannelPage \<and>
    answer ''channels'' = id_answer ''start channel'' (q ''start'') ChannelsPage \<and>
    answer (''subchannel/'' @ s) = id_answer ''sub-channel'' s SubchannelPage \<and>
    answer (''server/'' @ s) = id_answer ''server'' s ServerPage \<and>
    answer (''socket/'' @ s) = id_answer ''socket'' s SocketPage \<and>
    answer (''xds/vhost/'' @ s) = id_answer ''channel'' s XdsVirtualHostsPage \<and>
    answer (''xds/vhost/'' @ s @ ''/'' @ n) = id_answer ''channel'' s (\<lambda>i. XdsVirtualHostPage i n) \<and>
    answer (''xds/cluster/'' @ s @ ''/'' @ n) = id_answer ''channel'' s (\<lambda>i. XdsClusterPage i n) \<and>
    answer (''channel/'' @ s @ ''/pools'') = id_answer ''channel'' s SubchannelPoolsPage \<and>
    answer (''channel/'' @ s @ ''/pool'') = id_answer ''channel'' s (\<lambda>i. SubchannelPoolPage i (q ''addr'') (q ''cluster''))"
proof -
  let ?mp = "mount_prefix p"
  have "mount_point ?mp" using mount_prefix_plain [OF assms(2,3)] by simp
  then have at: "serve m ?mp (?mp @ path) q = handle_route r ps q"
    if "(pat, r) \<in> set routes" "match_segs pat segs = Some ps" "path = joinByte slash segs"
      "\<forall>(n, v)\<in>set ps. v \<noteq> []" "\<forall>w\<in>set segs. slash \<notin> set w" "segs \<noteq> []" for path r ps pat segs
    using serve_route [OF assms(1) that(1,2,4-6)] that(3) by simp
  note parsed = with_id_answer urlParam_def routes_def joinByte_cons joinByte_splitByte slash_def
  have "serve m ?mp (?mp @ ''channel/'' @ s) q = id_answer ''channel'' s ChannelPage"
    using assms(4,5) by (subst at [where pat = "[Lit ''channel'', Param ''channel'']" and segs = "[''channel'', s]"]) (auto simp: parsed dest: splitByte_pieces)
  moreover have "serve m ?mp (?mp @ ''channels'') q = id_answer ''start channel'' (q ''start'') ChannelsPage"
    by (subst at [where pat = "[Lit ''channels'']" and segs = "[''channels'']"]) (auto simp: parsed dest: splitByte_pieces)
  moreover have "serve m ?mp (?mp @ ''subchannel/'' @ s) q = id_answer ''sub-channel'' s SubchannelPage"
    using assms(4-6)
    by (subst at [where pat = "[Lit ''subchannel'', Param ''channel'']" and segs = "[''subchannel'', s]"]) (auto simp: parsed dest: splitByte_pieces)
  moreover have "serve m ?mp (?mp @ ''server/'' @ s) q = id_answer ''server'' s ServerPage"
    using assms(4-6)
    by (subst at [where pat = "[Lit ''server'', Param ''server'']" and segs = "[''server'', s]"]) (auto simp: parsed dest: splitByte_pieces)
  moreover have "serve m ?mp (?mp @ ''socket/'' @ s) q = id_answer ''socket'' s SocketPage"
    using assms(4-6)
    by (subst at [where pat = "[Lit ''socket'', Param ''socket'']" and segs = "[''socket'', s]"]) (auto simp: parsed dest: splitByte_pieces)
  moreover have "serve m ?mp (?mp @ ''xds/vhost/'' @ s) q = id_answer ''channel'' s XdsVirtualHostsPage"
    using assms(4-6)
    by (subst at [where pat = "[Lit ''xds'', Lit ''vhost'', Param ''channel'']" and segs = "[''xds'', ''vhost'', s]"]) (auto simp: parsed dest: splitByte_pieces)
  moreover have "serve m ?mp (?mp @ ''xds/vhost/'' @ s @ ''/'' @ n) q = id_answer ''channel'' s (\<lambda>i. XdsVirtualHostPage i n)"
    using assms(4-6)
    by (subst at [where pat = "[Lit ''xds'', Lit ''vhost'', Param ''channel'', Wild]" and segs = "''xds'' # ''vhost'' # s # splitByte slash n"]) (auto simp: parsed dest: splitByte_pieces)
  moreover have "serve m ?mp (?mp @ ''xds/cluster/'' @ s @ ''/'' @ n) q = id_answer ''channel'' s (\<lambda>i. XdsClusterPage i n)"
    using assms(4-6)
    by (subst at [where pat = "[Lit ''xds'', Lit ''cluster'', Param ''channel'', Wild]" and segs = "''xds'' # ''cluster'' # s # splitByte slash n"]) (auto simp: parsed dest: splitByte_pieces)
  moreover have "serve m ?mp (?mp @ ''channel/'' @ s @ ''/pools'') q = id_answer ''channel'' s SubchannelPoolsPage"
    using assms(4-6)
    by (subst at [where pat = "[Lit ''channel'', Param ''channel'', Lit ''pools'']" and segs = "[''channel'', s, ''pools'']"]) (auto simp: parsed dest: splitByte_pieces)
  moreover have "serve m ?mp (?mp @ ''channel/'' @ s @ ''/pool'') q = id_answer ''channel'' s (\<lambda>i. SubchannelPoolPage i (q ''addr'') (q ''cluster''))"
    using assms(4-6)
    by (subst at [where pat = "[Lit ''channel'', Param ''channel'', Lit ''pool'']" and segs = "[''channel'', s, ''pool'']"]) (auto simp: parsed dest: splitByte_pieces)
  ultimately show ?thesis unfolding Let_def by blast
qed

theorem channel_id_parsing_witness:
  "let mp = mount_prefix ''/'' in
    serve first_match mp (mp @ ''channel/'' @ ''9223372036854775808'') (\<lambda>k. []) =
      LoggedError (''channelz: Unable to parse int for channel ID. '' @ ''9223372036854775808'') \<and>
    serve first_match mp (mp @ ''xds/cluster/'' @ ''9223372036854775808'' @ ''/'' @ ''edge'') (\<lambda>k. []) =
      LoggedError (''channelz: Unable to parse int for channel ID. '' @ ''9223372036854775808'')"
proof -
  have "decimal_value ''9223372036854775808'' = Some (2 ^ 63)"
    by (simp add: decimal_value_def digit_of_def Let_def)
  then have "id_answer ''channel'' ''9223372036854775808'' k =
      LoggedError (''channelz: Unable to parse int for channel ID. '' @ ''9223372036854775808'')" for k
    by (simp add: id_answer_def)
  moreover have "hasPrefix ''/'' [slash]" "plain_prefix ''/''" "slash \<notin> set ''9223372036854775808''"
    by (simp_all add: slash_def plain_prefix_def printable_def)
  ultimately show ?thesis
    using channel_id_parsing [OF first_match_ok, of "''/''" "''9223372036854775808''" "''edge''" "\<lambda>k. []"]
    unfolding Let_def by (simp del: append.simps)
qed

text \<open>
  C34. Links belong to the handler created last. When a second handler has been created under a prefix
  that does not nest with the first one's, every link the pages of the first handler print is not found
  there. Both prefixes start with a slash and are plain, and so are the names in the links.
\<close>

theorem second_handler_takes_links:
  assumes "chi_ok m" and "hasPrefix p1 [slash]" and "hasPrefix p2 [slash]" and "page_named pg"
    and "plain_prefix p1" and "plain_prefix p2"
    and "\<not> hasPrefix (mount_prefix p1) (mount_prefix p2)" and "\<not> hasPrefix (mount_prefix p2) (mount_prefix p1)"
  shows "case (CreateHandlerWithDialOpts m p1, CreateHandlerWithDialOpts m p2) of
    ((global1, Some mux1), (global2, Some mux2)) \<Rightarrow>
      get m mux1 (page_href global2 pg) = NotFound
    | _ \<Rightarrow> False"
proof -
  have segs: "page_segs pg \<noteq> []" using assms(4) by (cases pg) auto
  have link: "createHyperlink (mount_prefix p2) (page_link pg) = mount_prefix p2 @ joinByte slash (page_segs pg)"
    using createHyperlink_mounted [OF assms(3), of "page_link pg"] segs page_link_clean [OF assms(4)]
    by (simp add: part_segs_page)
  have "\<not> hasPrefix (mount_prefix p2 @ rest) (mount_prefix p1)" for rest
    using assms(7,8) by (auto simp: hasPrefix_iff append_eq_append_conv2 dest: sym)
  moreover have "\<exists>rest. fst (reference_parts (page_href (mount_prefix p2) pg)) = mount_prefix p2 @ rest"
    unfolding page_href_def link append_assoc
    by (rule reference_path_prefix) (use mount_prefix_plain [OF assms(3,6)] in \<open>auto simp: plain_prefix_def\<close>)
  ultimately have "find_route m (mount_prefix p1) (map fst routes) (fst (reference_parts (page_href (mount_prefix p2) pg))) = None"
    using assms(1) mount_prefix_plain [OF assms(2,5)] by (auto simp: chi_ok_def)
  moreover have "accepts_prefix m (mount_prefix p1)" "accepts_prefix m (mount_prefix p2)"
    using mount_accepted [OF assms(1,2,5)] mount_accepted [OF assms(1,3,6)] by simp_all
  ultimately show ?thesis
    by (simp add: CreateHandlerWithDialOpts_def createRouter_def serve_def get_def split_def)
qed

theorem second_handler_takes_links_witness:
  "case (CreateHandlerWithDialOpts first_match ''/a'', CreateHandlerWithDialOpts first_match ''/b'') of
    ((global1, Some mux1), (global2, Some mux2)) \<Rightarrow>
      get first_match mux1 (page_href global2 (ChannelPage 7)) = NotFound
    | _ \<Rightarrow> False"
proof (rule second_handler_takes_links [OF first_match_ok])
  have "mount_prefix ''/a'' = ''/a/channelz/''" "mount_prefix ''/b'' = ''/b/channelz/''"
    by (subst mount_prefix_rooted; simp add: slash_def clean_segs_def clean_step_def)+
  then show "\<not> hasPrefix (mount_prefix ''/a'') (mount_prefix ''/b'')" "\<not> hasPrefix (mount_prefix ''/b'') (mount_prefix ''/a'')"
    by simp_all
qed (simp_all add: slash_def plain_prefix_def printable_def)

text \<open>
  C35. The mount point without its trailing slash, the address the README gives for the user
  interface, is not found, for every plain prefix that starts with a slash.
\<close>

theorem mount_point_needs_slash:
  assumes "chi_ok m" and "hasPrefix p [slash]" and "plain_prefix p"
  shows "case CreateHandlerWithDialOpts m p of
    (_, Some mux) \<Rightarrow> serve m mux (pathJoin [p, ''channelz'']) q = NotFound
    | _ \<Rightarrow> False"
proof -
  have "\<not> hasPrefix (pathJoin [p, ''channelz'']) (mount_prefix p)"
    by (auto simp: mount_prefix_def hasPrefix_iff)
  moreover have "accepts_prefix m (mount_prefix p)" using assms by (rule mount_accepted)
  ultimately show ?thesis
    using assms(1) mount_prefix_plain [OF assms(2,3)]
    by (simp add: chi_ok_def serve_def CreateHandlerWithDialOpts_def createRouter_def)
qed

theorem mount_point_needs_slash_witness:
  "case CreateHandlerWithDialOpts first_match ''/foo'' of
    (_, Some mux) \<Rightarrow> serve first_match mux ''/foo/channelz'' (\<lambda>n. []) = NotFound
    | _ \<Rightarrow> False"
proof -
  have "pathJoin [''/foo'', ''channelz''] = ''/foo/channelz''"
    by (simp add: pathJoin_def join_buf_def join_step_def pathClean_def slash_def clean_step_def)
  then show ?thesis
    using mount_point_needs_slash [OF first_match_ok, of "''/foo''" "\<lambda>n. []"]
    by (simp add: slash_def plain_prefix_def printable_def)
qed

text \<open>
  C36. Links do not tell apart resource names with the same non-empty segments, none of them a dot or
  two dots: \<^verbatim>\<open>path.Join\<close> drops the
  empty ones, so the link of a cluster \<^verbatim>\<open>xdstp://auth/c\<close> is the link of \<^verbatim>\<open>xdstp:/auth/c\<close>.
\<close>

theorem links_conflate_names:
  assumes "hasPrefix p [slash]" and "\<forall>w\<in>set (splitByte slash n @ splitByte slash n'). w = [] \<or> clean_seg w"
    and "filter (\<lambda>w. w \<noteq> []) (splitByte slash n) = filter (\<lambda>w. w \<noteq> []) (splitByte slash n')"
  shows "createHyperlink (mount_prefix p) (page_link (XdsClusterPage i n)) =
    createHyperlink (mount_prefix p) (page_link (XdsClusterPage i n'))"
proof -
  have seg: "clean_seg ''xds''" "clean_seg ''cluster''" by (simp_all add: clean_seg_def slash_def)
  have "createHyperlink (mount_prefix p) (page_link (XdsClusterPage i k)) =
      mount_prefix p @ joinByte slash (filter (\<lambda>w. w \<noteq> []) (page_segs (XdsClusterPage i k)))"
    if "\<forall>w\<in>set (splitByte slash k). w = [] \<or> clean_seg w" for k
    using createHyperlink_filtered [OF assms(1), of "page_link (XdsClusterPage i k)"] that seg formatInt_clean
    by (simp only: part_segs_page) simp
  then show ?thesis using assms(2,3) by simp
qed

theorem links_conflate_names_witness:
  "createHyperlink (mount_prefix ''/foo'') (page_link (XdsClusterPage 7 ''xdstp://auth/c'')) =
    createHyperlink (mount_prefix ''/foo'') (page_link (XdsClusterPage 7 ''xdstp:/auth/c'')) \<and>
   ''xdstp://auth/c'' \<noteq> ''xdstp:/auth/c''"
  using links_conflate_names [of "''/foo''" "''xdstp://auth/c''" "''xdstp:/auth/c''" 7]
  by (simp add: slash_def clean_seg_def)

end
