(* ===== verification/GoNet.thy ===== *)
theory GoNet
  imports GoStrings
begin

text \<open>
  Go's \<^verbatim>\<open>net.SplitHostPort\<close> and \<^verbatim>\<open>net.JoinHostPort\<close>, with the errors of the former as values. A
  host with colons (an IPv6 address) only splits when it is in brackets, and only \<^verbatim>\<open>JoinHostPort\<close>
  puts them there.
\<close>

datatype addr_err = MissingPort | MissingCloseBracket | TooManyColons
  | UnexpectedOpenBracket | UnexpectedCloseBracket

definition splitHostPort :: "gostring \<Rightarrow> addr_err + (gostring \<times> gostring)" where
  "splitHostPort s =
     (case lastIndexByte s CHR '':'' of
        None \<Rightarrow> Inl MissingPort
      | Some i \<Rightarrow>
          let finish = (\<lambda>host j k.
                if indexByte (drop j s) CHR ''['' \<noteq> None then Inl UnexpectedOpenBracket
                else if indexByte (drop k s) CHR '']'' \<noteq> None then Inl UnexpectedCloseBracket
                else Inr (host, drop (Suc i) s))
          in if hd s = CHR ''['' then
               (case indexByte s CHR '']'' of
                  None \<Rightarrow> Inl MissingCloseBracket
                | Some e \<Rightarrow>
                    if e + 1 = length s then Inl MissingPort
                    else if e + 1 = i then finish (drop 1 (take e s)) 1 (e + 1)
                    else if s ! (e + 1) = CHR '':'' then Inl TooManyColons
                    else Inl MissingPort)
             else if indexByte (take i s) CHR '':'' \<noteq> None then Inl TooManyColons
             else finish (take i s) 0 0)"

definition joinHostPort :: "gostring \<Rightarrow> gostring \<Rightarrow> gostring" where
  "joinHostPort host port =
     (if indexByte host CHR '':'' \<noteq> None
      then CHR ''['' # host @ [CHR '']'', CHR '':''] @ port
      else host @ CHR '':'' # port)"

definition net_free :: "gostring \<Rightarrow> bool" where
  "net_free s \<longleftrightarrow> CHR ''['' \<notin> set s \<and> CHR '']'' \<notin> set s"

lemma splitHostPort_plain:
  assumes "CHR '':'' \<notin> set host" and "net_free host" and "CHR '':'' \<notin> set port" and "net_free port"
  shows "splitHostPort (host @ CHR '':'' # port) = Inr (host, port)"
proof -
  have "hd (host @ CHR '':'' # port) \<noteq> CHR ''[''"
    using assms(2) by (cases host) (auto simp: net_free_def)
  then show ?thesis
    using assms by (simp add: splitHostPort_def lastIndexByte_append net_free_def Let_def)
qed

lemma splitHostPort_bracketed:
  assumes "net_free host" and "CHR '':'' \<notin> set port" and "net_free port"
  shows "splitHostPort (CHR ''['' # host @ [CHR '']'', CHR '':''] @ port) = Inr (host, port)"
proof -
  let ?s = "CHR ''['' # host @ [CHR '']'', CHR '':''] @ port"
  have s: "?s = (CHR ''['' # host @ [CHR '']'']) @ CHR '':'' # port" by simp
  have "lastIndexByte ?s CHR '':'' = Some (length host + 2)"
    unfolding s by (subst lastIndexByte_append) (use assms(2) in simp_all)
  moreover have "indexByte ?s CHR '']'' = Some (Suc (length host))"
    using indexByte_append [of "CHR '']''" "CHR ''['' # host" "CHR '':'' # port"] assms(1)
    by (simp add: net_free_def)
  ultimately show ?thesis
    using assms by (simp add: splitHostPort_def net_free_def Let_def)
qed

lemma splitHostPort_joinHostPort:
  assumes "net_free host" and "CHR '':'' \<notin> set port" and "net_free port"
  shows "splitHostPort (joinHostPort host port) = Inr (host, port)"
  using assms splitHostPort_plain [of host port] splitHostPort_bracketed [of host port]
  by (simp add: joinHostPort_def)

lemma splitHostPort_unbracketed:
  assumes "CHR '':'' \<in> set host" and "hd host \<noteq> CHR ''[''" and "CHR '':'' \<notin> set port"
  shows "splitHostPort (host @ CHR '':'' # port) = Inl TooManyColons"
proof -
  have "hd (host @ CHR '':'' # port) \<noteq> CHR ''[''"
    using assms(1,2) by (cases host) auto
  then show ?thesis
    using assms by (simp add: splitHostPort_def lastIndexByte_append Let_def)
qed

end
