(* ===== verification/Cmd.thy ===== *)
theory Cmd
  imports Routes GoNet
begin

text \<open>
  \<^verbatim>\<open>cmd/channelz-ui/main.go\<close>: what the command does with its flags: the target it dials, the address it
  listens on, the handler it mounts and the URL it prints. Listening is decided by the environment and
  serving is one GET at a time (\<open>serve\<close> of Routes); the router is the argument of that theory.
\<close>

record flags =
  admin_port :: int
  admin_host :: gostring
  http_port :: int
  path_prefix :: gostring

definition default_flags :: flags where
  "default_flags = \<lparr>admin_port = 50051, admin_host = ''localhost'', http_port = 8081, path_prefix = ''/''\<rparr>"

definition normalizePrefix :: "gostring \<Rightarrow> gostring" where
  "normalizePrefix p =
     (if p = [] \<or> p = ''/'' then ''/''
      else
        let p = (if hd p \<noteq> slash then slash # p else p)
        in if last p \<noteq> slash then p @ [slash] else p)"

text \<open>The path of the printed URL, and the URL.\<close>

definition printed_path :: "gostring \<Rightarrow> gostring" where
  "printed_path p = normalizePrefix p @ ''channelz/''"

definition printed_url :: "flags \<Rightarrow> gostring" where
  "printed_url f = ''http://localhost:'' @ fmt_int (http_port f) @ printed_path (path_prefix f)"

text \<open>How \<^verbatim>\<open>main\<close> gets to its serving loop, or does not: \<^verbatim>\<open>log.Fatalf\<close>, or the panic of the router.\<close>

datatype startup = Fatal gostring | Panics
  | Serving gostring gostring gostring

definition main_program :: "chi_mux \<Rightarrow> (gostring \<Rightarrow> gostring option) \<Rightarrow> flags \<Rightarrow> startup" where
  "main_program m listen f =
     (let target = joinHostPort (admin_host f) (fmt_int (admin_port f));
          httpAddr = '':'' @ fmt_int (http_port f)
      in case listen httpAddr of
           Some err \<Rightarrow> Fatal (''Failed to listen on '' @ httpAddr @ '': '' @ err)
         | None \<Rightarrow>
             (case CreateHandlerWithDialOpts m (path_prefix f) of
                (_, None) \<Rightarrow> Panics
              | (_, Some prefix) \<Rightarrow> Serving target (printed_url f) prefix))"

section \<open>Double slashes\<close>

definition double_slash :: "gostring \<Rightarrow> bool" where
  "double_slash p \<longleftrightarrow> (\<exists>u v. p = u @ ''//'' @ v)"

lemma double_slash_Cons:
  "double_slash [] \<longleftrightarrow> False"
  "double_slash (x # p) \<longleftrightarrow> (x = slash \<and> hasPrefix p [slash]) \<or> double_slash p"
  by (auto simp: double_slash_def Cons_eq_append_conv hasPrefix_iff slash_def)

lemma double_slash_segs: "double_slash p \<longleftrightarrow> [] \<in> set (butlast (tl (splitByte slash p)))"
proof (induction p)
  case Nil
  then show ?case by (simp add: double_slash_Cons)
next
  case (Cons x p)
  obtain h t where ht: "splitByte slash p = h # t" using splitByte_not_Nil by (metis neq_Nil_conv)
  have "t \<noteq> [] \<and> h = [] \<longleftrightarrow> hasPrefix p [slash]"
    using ht by (cases p) (auto simp: hasPrefix_iff split: list.splits if_splits)
  then show ?case using Cons ht by (auto simp: double_slash_Cons)
qed

lemma splitByte_empty: "splitByte c q = [[]] \<longleftrightarrow> q = []"
proof
  assume "splitByte c q = [[]]"
  then have "joinByte c (splitByte c q) = []" by simp
  then show "q = []" by (simp add: joinByte_splitByte)
qed simp

text \<open>The segments of a prefix, without the empty one of a trailing slash.\<close>

definition prefix_segs :: "gostring \<Rightarrow> gostring list" where
  "prefix_segs q = (let ws = splitByte slash q in if last ws = [] then butlast ws else ws)"

lemma printed_path_segs:
  "printed_path (slash # q) = slash # joinByte slash (prefix_segs q @ [''channelz'', []])"
proof -
  let ?ws = "splitByte slash q"
  have q: "joinByte slash ?ws = q" by (rule joinByte_splitByte)
  have last: "last ?ws = [] \<longleftrightarrow> q = [] \<or> last q = slash"
    by (induction q) (auto simp: splitByte_empty split: list.splits)
  show ?thesis
  proof (cases "last ?ws = []")
    case True
    show ?thesis
    proof (cases "butlast ?ws = []")
      case True
      then have "?ws = [[]]" using \<open>last ?ws = []\<close> by (metis append_butlast_last_id append_Nil splitByte_not_Nil)
      then have "q = []" using q by (metis joinByte.simps(2))
      then show ?thesis by (simp add: printed_path_def normalizePrefix_def prefix_segs_def slash_def)
    next
      case False
      then have "q = joinByte slash (butlast ?ws) @ [slash]"
        using q \<open>last ?ws = []\<close> joinByte_append [of "butlast ?ws" "[[]]" slash]
        by (metis append_butlast_last_id joinByte.simps(2) not_Cons_self2 splitByte_not_Nil)
      moreover have "q \<noteq> []" using calculation by auto
      moreover have "joinByte slash (prefix_segs q @ [''channelz'', []]) =
          joinByte slash (butlast ?ws) @ slash # ''channelz/''"
        using False True by (simp add: prefix_segs_def joinByte_append slash_def)
      ultimately show ?thesis
        using last True by (auto simp: printed_path_def normalizePrefix_def slash_def Let_def)
    qed
  next
    case False
    then have "prefix_segs q = ?ws" "q \<noteq> []" "last q \<noteq> slash" using last by (auto simp: prefix_segs_def)
    then show ?thesis
      using q by (simp add: printed_path_def normalizePrefix_def joinByte_append slash_def)
  qed
qed

lemma splitByte_prefix_segs:
  "splitByte slash q = prefix_segs q \<and> last (splitByte slash q) \<noteq> [] \<or> splitByte slash q = prefix_segs q @ [[]]"
proof (cases "last (splitByte slash q) = []")
  case True
  then have "splitByte slash q = butlast (splitByte slash q) @ [[]]"
    using append_butlast_last_id [OF splitByte_not_Nil, of slash q] by simp
  then show ?thesis using True by (simp add: prefix_segs_def)
qed (simp add: prefix_segs_def)

lemma prefix_segs_subset: "w \<in> set (prefix_segs q) \<Longrightarrow> w \<in> set (splitByte slash q)"
  using splitByte_prefix_segs [of q] by (metis UnCI set_append)

lemma mount_prefix_segs:
  assumes "\<forall>w\<in>set (splitByte slash q). w = [] \<or> clean_seg w"
  shows "mount_prefix (slash # q) =
    slash # joinByte slash (filter (\<lambda>w. w \<noteq> []) (prefix_segs q) @ [''channelz'', []])"
proof -
  let ?ws = "splitByte slash q"
  have "filter (\<lambda>w. w \<noteq> []) ?ws = filter (\<lambda>w. w \<noteq> []) (prefix_segs q)"
    using splitByte_prefix_segs [of q] by (elim disjE conjE) simp_all
  then have "clean_segs (slash # q) = filter (\<lambda>w. w \<noteq> []) (prefix_segs q)"
    using assms by (simp add: clean_segs_def foldl_clean_step_filter splitByte_rooted clean_step_def)
  moreover have "joinByte slash (ws @ [''channelz'', []]) = joinByte slash (ws @ [''channelz'']) @ [slash]" for ws
    using joinByte_append [of "ws @ [''channelz'']" "[[]]" slash] by simp
  moreover have "hasPrefix (slash # q) [slash]" by simp
  ultimately show ?thesis by (simp only: mount_prefix_rooted)
qed

lemma prefix_segs_empty: "[] \<in> set (prefix_segs q) \<longleftrightarrow> [] \<in> set (butlast (splitByte slash q))"
proof (rule disjE [OF splitByte_prefix_segs [of q]])
  assume "splitByte slash q = prefix_segs q \<and> last (splitByte slash q) \<noteq> []"
  then have eq: "splitByte slash q = prefix_segs q" and last: "last (splitByte slash q) \<noteq> []" by blast+
  have "splitByte slash q = butlast (splitByte slash q) @ [last (splitByte slash q)]" by simp
  then have "set (splitByte slash q) = insert (last (splitByte slash q)) (set (butlast (splitByte slash q)))"
    by (metis list.simps(15) rotate1.simps(2) set_rotate1)
  then show ?thesis using last by (simp add: eq [symmetric])
qed simp

text \<open>A path with an empty segment does not start with its clean form.\<close>

lemma short_prefix:
  assumes "\<forall>w\<in>set ws. slash \<notin> set w" and "[] \<in> set ws"
  shows "\<not> hasPrefix (slash # joinByte slash (ws @ [''channelz'', []]))
    (slash # joinByte slash (filter (\<lambda>w. w \<noteq> []) ws @ [''channelz'', []]))"
proof
  let ?F = "filter (\<lambda>w. w \<noteq> []) ws"
  assume "hasPrefix (slash # joinByte slash (ws @ [''channelz'', []])) (slash # joinByte slash (?F @ [''channelz'', []]))"
  then obtain t where "joinByte slash (ws @ [''channelz'', []]) = joinByte slash (?F @ [''channelz'', []]) @ t"
    by (auto simp: hasPrefix_iff)
  moreover have "joinByte slash (?F @ [''channelz'', []]) = joinByte slash (?F @ [''channelz'']) @ [slash]"
    using joinByte_append [of "?F @ [''channelz'']" "[[]]" slash] by simp
  ultimately have eq: "splitByte slash (joinByte slash (ws @ [''channelz'', []])) =
      splitByte slash (joinByte slash (?F @ [''channelz'']) @ slash # t)" by simp
  have ch: "slash \<notin> set ''channelz''" by (simp add: slash_def)
  have lhs: "splitByte slash (joinByte slash (ws @ [''channelz'', []])) = ws @ [''channelz'', []]"
    by (rule splitByte_slash_join) (use assms(1) ch in auto)
  have "splitByte slash (joinByte slash (?F @ [''channelz''])) = ?F @ [''channelz'']"
    by (rule splitByte_slash_join) (use assms(1) ch in auto)
  then have all: "ws @ [''channelz'', []] = ?F @ ''channelz'' # splitByte slash t"
    using eq unfolding lhs splitByte_at by simp
  let ?S = "splitByte slash t"
  have "filter (\<lambda>w. w \<noteq> []) ?S = []"
    using arg_cong [OF all, of "filter (\<lambda>w. w \<noteq> [])"] by simp
  moreover have "length ?F < length ws" using assms(2) by (intro length_filter_less) auto
  then have "2 \<le> length ?S" using arg_cong [OF all, of length] by simp
  then have "\<exists>S' a b. ?S = S' @ [a, b]"
    by (cases ?S rule: rev_cases; simp; metis Suc_le_length_iff append_butlast_last_id list.distinct(1))
  then obtain S' a b where S: "?S = S' @ [a, b]" by blast
  moreover have "a = ''channelz''" using all by (simp add: S)
  ultimately show False by simp
qed

text \<open>A relative prefix has a relative mount point.\<close>

lemma mount_prefix_relative:
  assumes "p \<noteq> []" and "hd p \<noteq> slash"
  shows "\<not> hasPrefix (mount_prefix p) [slash]"
proof -
  let ?b = "join_buf [p, ''channelz'']"
  let ?out = "foldl (clean_step False) [] (splitByte slash ?b)"
  have b: "?b = p @ slash # ''channelz''" using assms(1) by (simp add: join_buf_def join_step_def)
  have "\<forall>w\<in>set (foldl (clean_step False) out segs). w \<noteq> [] \<and> slash \<notin> set w"
    if "\<forall>w\<in>set out. w \<noteq> [] \<and> slash \<notin> set w" "\<forall>w\<in>set segs. slash \<notin> set w" for out segs
    using that
  proof (induction segs arbitrary: out)
    case (Cons s segs)
    have "\<forall>w\<in>set (clean_step False out s). w \<noteq> [] \<and> slash \<notin> set w"
      using Cons.prems by (auto simp: clean_step_def slash_def dest: in_set_butlastD)
    then show ?case using Cons.IH [of "clean_step False out s"] Cons.prems(2) by simp
  qed simp
  from this [of "[]" "splitByte slash ?b"]
  have out: "\<forall>w\<in>set ?out. w \<noteq> [] \<and> slash \<notin> set w" using splitByte_pieces by auto
  have "joinByte slash ?out \<noteq> [] \<and> hd (joinByte slash ?out) \<noteq> slash" if ne: "?out \<noteq> []"
  proof -
    obtain w ws where ws: "?out = w # ws" using ne by (metis neq_Nil_conv)
    then obtain c w' where "w = c # w'" "c \<noteq> slash" using out by (cases w) auto
    moreover have "hasPrefix (joinByte slash (w # ws)) w"
      by (cases ws) (simp_all add: hasPrefix_iff)
    ultimately show ?thesis by (auto simp: ws hasPrefix_iff)
  qed
  moreover have "pathClean ?b = (if ?out = [] then ''.'' else joinByte slash ?out)"
    using assms by (simp add: pathClean_def b)
  ultimately have "pathClean ?b \<noteq> [] \<and> hd (pathClean ?b) \<noteq> slash"
    by (simp add: slash_def)
  moreover have "pathJoin [p, ''channelz''] = pathClean ?b" by (simp add: pathJoin_def)
  ultimately show ?thesis by (cases "pathClean ?b") (simp_all add: mount_prefix_def hasPrefix_iff)
qed

section \<open>Properties\<close>

text \<open>
  C37. For a path prefix that starts with a slash, has no dot segments and only plain letters, and a port
  the command gets: the command serves, and a GET of the path it prints is answered with the top channels
  page if the prefix has no double slash, and not found if it has one. It prints what the prefix says and
  mounts what \<^verbatim>\<open>path.Join\<close> makes of it.
\<close>

theorem printed_url_reached:
  assumes "chi_ok m" and "hasPrefix p [slash]" and "plain_prefix p"
    and "\<forall>w\<in>set (splitByte slash p). w = [] \<or> clean_seg w" and "listen ('':'' @ fmt_int (http_port f)) = None"
    and "path_prefix f = p"
  shows "case main_program m listen f of
    Serving target url mux \<Rightarrow>
      target = joinHostPort (admin_host f) (fmt_int (admin_port f)) \<and>
      url = ''http://localhost:'' @ fmt_int (http_port f) @ printed_path p \<and>
      serve m mux (printed_path p) q = (if double_slash p then NotFound else Served TopChannelsPage)
    | _ \<Rightarrow> False"
proof -
  obtain r where p: "p = slash # r" using assms(2) by (auto simp: hasPrefix_iff)
  let ?ps = "prefix_segs r"
  have segs: "\<forall>w\<in>set (splitByte slash r). w = [] \<or> clean_seg w"
    using assms(4) by (simp add: p splitByte_rooted)
  have free: "\<forall>w\<in>set ?ps. slash \<notin> set w"
    using splitByte_pieces prefix_segs_subset by blast
  have double: "double_slash p \<longleftrightarrow> [] \<in> set ?ps"
    by (simp add: double_slash_segs p splitByte_rooted prefix_segs_empty)
  have mux: "accepts_prefix m (mount_prefix p)" "plain_prefix (mount_prefix p)"
    using mount_accepted [OF assms(1-3)] mount_prefix_plain [OF assms(2,3)] by simp_all
  have "serve m (mount_prefix p) (printed_path p) q = (if double_slash p then NotFound else Served TopChannelsPage)"
  proof (cases "double_slash p")
    case True
    then have "\<not> hasPrefix (printed_path p) (mount_prefix p)"
      using short_prefix [OF free] double by (simp only: p printed_path_segs mount_prefix_segs [OF segs] simp_thms)
    then show ?thesis using True mount_misses [OF assms(1) mux(2)] by (simp add: serve_def)
  next
    case False
    have keep: "filter (\<lambda>w. w \<noteq> []) ?ps = ?ps"
      by (rule filter_True) (use False double in blast)
    have "printed_path p = mount_prefix p @ joinByte slash [[]]"
      by (simp add: p printed_path_segs mount_prefix_segs [OF segs] keep)
    moreover have "serve m (mount_prefix p) (mount_prefix p @ joinByte slash [[]]) q = handle_route RTop [] q"
      by (rule serve_route [OF assms(1), of "[Lit []]"]) (use mux(2) in \<open>simp_all add: routes_def\<close>)
    ultimately show ?thesis using False by simp
  qed
  then show ?thesis
    using assms(5,6) mux(1)
    by (simp add: main_program_def CreateHandlerWithDialOpts_def createRouter_def printed_url_def)
qed

theorem printed_url_reached_witness:
  "case main_program first_match (\<lambda>a. None) (default_flags \<lparr>path_prefix := ''//foo''\<rparr>) of
    Serving target url mux \<Rightarrow>
      target = joinHostPort ''localhost'' (fmt_int 50051) \<and>
      url = ''http://localhost:'' @ fmt_int 8081 @ printed_path ''//foo'' \<and>
      serve first_match mux (printed_path ''//foo'') (\<lambda>n. []) = NotFound
    | _ \<Rightarrow> False"
proof -
  have "double_slash ''//foo''" by (simp add: double_slash_Cons slash_def)
  then show ?thesis
    using printed_url_reached [OF first_match_ok, of "''//foo''" "\<lambda>a. None" "default_flags \<lparr>path_prefix := ''//foo''\<rparr>" "\<lambda>n. []"]
    by (auto simp: slash_def plain_prefix_def printable_def clean_seg_def default_flags_def split: startup.splits)
qed

text \<open>
  C38. A prefix without a leading slash is completed in the printed URL but not in the mount point: after
  the command has got its port, the router panics, for every such prefix that is not empty and whose
  mount point has only plain letters.
\<close>

theorem relative_prefix_panics:
  assumes "chi_ok m" and "p \<noteq> []" and "hd p \<noteq> slash" and "plain_prefix (mount_prefix p)"
    and "listen ('':'' @ fmt_int (http_port f)) = None" and "path_prefix f = p"
  shows "main_program m listen f = Panics \<and> hasPrefix (printed_path p) [slash]"
proof -
  have "\<not> hasPrefix (mount_prefix p) [slash]" using assms(2,3) by (rule mount_prefix_relative)
  then have "\<not> accepts_prefix m (mount_prefix p)" using assms(1,4) by (simp add: chi_ok_def)
  moreover have "hasPrefix (printed_path p) [slash]"
    using assms(2,3) by (cases p) (auto simp: printed_path_def normalizePrefix_def slash_def Let_def)
  ultimately show ?thesis
    using assms(5,6) by (simp add: main_program_def CreateHandlerWithDialOpts_def createRouter_def)
qed

theorem relative_prefix_panics_witness:
  "main_program first_match (\<lambda>a. None) (default_flags \<lparr>path_prefix := ''admin''\<rparr>) = Panics \<and>
   hasPrefix (printed_path ''admin'') [slash]"
proof (rule relative_prefix_panics [OF first_match_ok])
  show "plain_prefix (mount_prefix ''admin'')"
    by (simp add: mount_prefix_def pathJoin_def join_buf_def join_step_def pathClean_def slash_def clean_step_def plain_prefix_def printable_def)
qed (simp_all add: slash_def default_flags_def)

end
