(* ===== verification/Render.thy ===== *)
theory Render
  imports GoText GoNet Proto
begin

text \<open>
  \<^verbatim>\<open>templates.go\<close> and the dump functions of \<^verbatim>\<open>xds.go\<close>: the frame every page shares (header, footer,
  the message shown when the target cannot be reached), the raw config dump and the address of a
  socket. A page is written to an \<^verbatim>\<open>io.Writer\<close>; here it is the text written. The templates are
  \<^verbatim>\<open>text/template\<close> templates, which insert values as they are. The YAML marshaller of the
  external package \<^verbatim>\<open>protoyaml\<close> is an argument: the text it gives or its error. The logging of
  errors is not part of the model.
\<close>

section \<open>The frame of a page\<close>

definition newline :: char where
  "newline = char_of (10 :: nat)"

definition header_before_title :: gostring where
  \<open>header_before_title = ''
<!DOCTYPE html>
<html lang="en"><head>
    <meta charset="utf-8">
    <title>''\<close>

definition header_between_titles :: gostring where
  \<open>header_between_titles = ''</title>
    <link rel="stylesheet" href="https://fonts.googleapis.com/icon?family=Material+Icons">
    <link rel="stylesheet" href="https://code.getmdl.io/1.3.0/material.indigo-pink.min.css">
	<style>
		body {padding: 1em}
		table {
			background-color: #fff5ee;
		}
		table.section-header {
			background-color: #eeeeff;
			font-size: x-large;
		}
		table.vertical th {
			text-align: right;
			padding-right: 1em;
		}
		tr.header {
			background-color: #eee5de;
		}
		td {
			vertical-align: top;
		}
		footer {
			padding-top: 1em;
		}
	</style>
</head>
<body>
<h1>''\<close>

definition header_after_title :: gostring where
  \<open>header_after_title = ''</h1>
''\<close>

definition writeHeader :: "gostring \<Rightarrow> gostring" where
  "writeHeader title =
     header_before_title @ title @ header_between_titles @ title @ header_after_title"

definition footer_html :: gostring where
  \<open>footer_html = ''
<footer>
	<a href="https://github.com/grpc/proposal/blob/master/A14-channelz.md" target="spec">Channelz Spec</a>
</footer>
</body>
</html>
''\<close>

definition writeFooter :: gostring where
  "writeFooter = footer_html"

definition writeUnavailable :: gostring where
  "writeUnavailable =
     ''<p><i>Unable to reach the target server. Check its connection and reload this page.</i></p>'' @ [newline]"

section \<open>Protocol messages as YAML\<close>

text \<open>\<^verbatim>\<open>protoToYAML\<close> of a message that is present; \<open>yaml\<close> is the marshaller with its resolver.\<close>

definition protoToYAML :: "('m \<Rightarrow> gostring + gostring) \<Rightarrow> 'm option \<Rightarrow> gostring" where
  "protoToYAML yaml msg =
     (case msg of
        None \<Rightarrow> []
      | Some m \<Rightarrow>
          (case yaml m of
             Inl err \<Rightarrow> ''# protoyaml.Marshal error: '' @ err @ [newline]
           | Inr text \<Rightarrow> text))"

definition renderProtoYAMLHTML :: "('m \<Rightarrow> gostring + gostring) \<Rightarrow> 'm option \<Rightarrow> gostring" where
  "renderProtoYAMLHTML yaml msg = (if msg = None then [] else escapeString (protoToYAML yaml msg))"

record 'm rawDumpSection =
  rd_Title :: gostring
  rd_Msg :: "'m option"

definition raw_section :: "('m \<Rightarrow> gostring + gostring) \<Rightarrow> 'm rawDumpSection \<Rightarrow> gostring" where
  "raw_section yaml s =
     (if rd_Title s \<noteq> [] then ''<h4>'' @ escapeString (rd_Title s) @ ''</h4>'' @ [newline] else []) @
     (if rd_Msg s = None then ''<pre><i>(not available)</i></pre>'' @ [newline]
      else ''<pre>'' @ escapeString (protoToYAML yaml (rd_Msg s)) @ ''</pre>'' @ [newline])"

definition writeRawDump :: "('m \<Rightarrow> gostring + gostring) \<Rightarrow> 'm rawDumpSection list \<Rightarrow> gostring" where
  \<open>writeRawDump yaml secs =
     (if secs = [] then []
      else ''<details style="margin-top:1em" open><summary><b>Raw config dump</b></summary>'' @ [newline] @
        concat (map (raw_section yaml) secs) @ ''</details>'' @ [newline])\<close>

section \<open>Addresses\<close>

text \<open>\<^verbatim>\<open>net.IP.String\<close> on a slice of bytes.\<close>

fun hex_nat :: "nat \<Rightarrow> gostring" where
  "hex_nat n = (if n < 16 then [hex_digit n] else hex_nat (n div 16) @ [hex_digit (n mod 16)])"

declare hex_nat.simps [simp del]

fun groups16 :: "nat list \<Rightarrow> nat list" where
  "groups16 (a # b # bs) = (256 * a + b) # groups16 bs"
| "groups16 _ = []"

definition zero_run :: "nat list \<Rightarrow> nat" where
  "zero_run gs = length (takeWhile (\<lambda>g. g = 0) gs)"

text \<open>The first of the longest runs of at least two zero groups: where it starts and its length.\<close>

definition best_run :: "nat list \<Rightarrow> nat \<times> nat" where
  "best_run gs =
     fold (\<lambda>i (s, l). let r = zero_run (drop i gs) in if 2 \<le> r \<and> l < r then (i, r) else (s, l))
       [0..<length gs] (0, 0)"

definition ipv6_string :: "nat list \<Rightarrow> gostring" where
  "ipv6_string gs =
     (let (s, l) = best_run gs
      in if l = 0 then joinByte CHR '':'' (map hex_nat gs)
         else joinByte CHR '':'' (map hex_nat (take s gs)) @ ''::'' @
              joinByte CHR '':'' (map hex_nat (drop (s + l) gs)))"

definition ipv4_string :: "nat list \<Rightarrow> gostring" where
  "ipv4_string bs = joinByte CHR ''.'' (map fmt_nat bs)"

definition ip_string :: "gostring \<Rightarrow> gostring" where
  "ip_string ip =
     (let bs = map byte ip
      in if bs = [] then ''<nil>''
         else if length bs = 4 then ipv4_string bs
         else if length bs = 16 then
           (if take 12 bs = replicate 10 0 @ [255, 255] then ipv4_string (drop 12 bs)
            else ipv6_string (groups16 bs))
         else CHR ''?'' # concat (map (hex_digits 2) bs))"

definition formatAddress :: "channelz_address option \<Rightarrow> gostring" where
  "formatAddress addr =
     (case addr of
        None \<Rightarrow> []
      | Some (TcpipAddress ip port) \<Rightarrow> joinHostPort (ip_string ip) (fmt_int (sint port))
      | Some (UdsAddress filename) \<Rightarrow> filename
      | Some (OtherAddress name) \<Rightarrow> name
      | Some NoAddress \<Rightarrow> [])"

section \<open>Lemmas\<close>

lemma fmt_int_chars: "c \<in> set (fmt_int i) \<Longrightarrow> c = CHR ''-'' \<or> digit_of c \<noteq> None"
  by (auto simp: fmt_int_def dest: fmt_nat_digits split: if_splits)

lemma fmt_int_free:
  "net_free (fmt_int i)" "CHR '':'' \<notin> set (fmt_int i)"
  using fmt_int_chars by (fastforce simp: net_free_def)+

lemma hex_digit_free: "n < 16 \<Longrightarrow> hex_digit n \<notin> {CHR ''['', CHR '']'', CHR '':''}"
proof -
  have "\<forall>n\<in>set [0..<16]. hex_digit n \<notin> {CHR ''['', CHR '']'', CHR '':''}" by code_simp
  then show "n < 16 \<Longrightarrow> hex_digit n \<notin> {CHR ''['', CHR '']'', CHR '':''}" by simp
qed

lemma hex_nat_free: "net_free (hex_nat n)"
proof (induction n rule: hex_nat.induct)
  case (1 n)
  then show ?case
    using hex_digit_free [of n] hex_digit_free [of "n mod 16"]
    by (subst hex_nat.simps) (auto simp: net_free_def)
qed

lemma net_free_append: "net_free (s @ t) \<longleftrightarrow> net_free s \<and> net_free t"
  by (auto simp: net_free_def)

lemma net_free_Cons: "net_free (c # s) \<longleftrightarrow> c \<notin> {CHR ''['', CHR '']''} \<and> net_free s"
  by (auto simp: net_free_def)

lemma net_free_Nil: "net_free []"
  by (simp add: net_free_def)

lemmas net_free_simps = net_free_append net_free_Cons net_free_Nil

lemma hex_digits_free: "net_free (hex_digits k n)"
proof (induction k n rule: hex_digits.induct)
  case (2 k n)
  then show ?case using hex_digit_free [of "n mod 16"] by (auto simp: net_free_simps)
qed (simp add: net_free_simps)

lemma fmt_nat_net_free: "net_free (fmt_nat n)"
  by (simp add: net_free_def fmt_nat_free)

lemma net_free_join: "c \<notin> {CHR ''['', CHR '']''} \<Longrightarrow> \<forall>w\<in>set ws. net_free w \<Longrightarrow> net_free (joinByte c ws)"
  by (induction c ws rule: joinByte.induct) (auto simp: net_free_def)

lemma net_free_concat: "\<forall>w\<in>set ws. net_free w \<Longrightarrow> net_free (concat ws)"
  by (auto simp: net_free_def)

lemma ip_string_free: "net_free (ip_string ip)"
proof -
  have v4: "net_free (ipv4_string bs)" for bs
    unfolding ipv4_string_def by (rule net_free_join) (auto simp: fmt_nat_net_free)
  have join: "net_free (joinByte CHR '':'' (map hex_nat gs))" for gs
    by (rule net_free_join) (auto simp: hex_nat_free)
  have v6: "net_free (ipv6_string gs)" for gs
    using join by (simp add: ipv6_string_def net_free_simps split: prod.splits)
  have "net_free (concat (map (hex_digits 2) bs))" for bs
    by (rule net_free_concat) (auto simp: hex_digits_free)
  with v4 v6 show ?thesis
    by (auto simp: ip_string_def Let_def net_free_simps simp del: map_map)
qed

lemma escape_no_markup: "filter markup_char (escapeString s) = []"
  by (auto simp: filter_empty_conv dest: escapeString_no_markup)

lemma raw_section_markup:
  "filter markup_char (raw_section yaml s) =
     filter markup_char (raw_section yaml' (s\<lparr>rd_Title := if rd_Title s = [] then [] else ''x''\<rparr>))"
proof -
  have upd: "rd_Title (s\<lparr>rd_Title := x\<rparr>) = x" "rd_Msg (s\<lparr>rd_Title := x\<rparr>) = rd_Msg s" for x
    by simp_all
  show ?thesis
    by (cases "rd_Title s = []"; cases "rd_Msg s = None")
      (simp_all only: raw_section_def filter_append escape_no_markup upd if_True if_False
        simp_thms list.distinct)
qed

section \<open>Properties\<close>

text \<open>
  C39. The address shown for a TCP socket is a host:port pair in Go's notation: for every IP, four
  bytes, sixteen or malformed, \<^verbatim>\<open>net.SplitHostPort\<close> gives back the printed IP and port.
\<close>

theorem formatAddress_splits:
  "splitHostPort (formatAddress (Some (TcpipAddress ip port))) = Inr (ip_string ip, fmt_int (sint port))"
  by (simp add: formatAddress_def splitHostPort_joinHostPort ip_string_free fmt_int_free)

text \<open>
  C40. Nothing from the target can add markup to a page through a message: a rendered message holds no
  quote and no angle bracket, and the quotes and brackets of the raw dump are those of a dump with
  other titles and empty messages in the same places.
\<close>

theorem dump_markup_free:
  "filter markup_char (renderProtoYAMLHTML yaml msg) = [] \<and>
   filter markup_char (writeRawDump yaml secs) =
     filter markup_char (writeRawDump (\<lambda>m. Inr [])
       (map (\<lambda>s. s\<lparr>rd_Title := if rd_Title s = [] then [] else ''x''\<rparr>) secs))"
proof
  show "filter markup_char (renderProtoYAMLHTML yaml msg) = []"
    by (simp add: renderProtoYAMLHTML_def escape_no_markup)
  have "filter markup_char (concat (map (raw_section yaml) secs)) =
      filter markup_char (concat (map (raw_section (\<lambda>m. Inr []))
        (map (\<lambda>s. s\<lparr>rd_Title := if rd_Title s = [] then [] else ''x''\<rparr>) secs)))"
    by (induction secs) (simp_all add: raw_section_markup [of yaml _ "\<lambda>m. Inr []"])
  then show "filter markup_char (writeRawDump yaml secs) =
     filter markup_char (writeRawDump (\<lambda>m. Inr [])
       (map (\<lambda>s. s\<lparr>rd_Title := if rd_Title s = [] then [] else ''x''\<rparr>) secs))"
    by (simp only: writeRawDump_def filter_append list.map_disc_iff split: if_split) simp
qed

end
