(* ===== verification/Template.thy ===== *)
theory Template
  imports Render Routes
begin

text \<open>
  Executing a \<^verbatim>\<open>text/template\<close> template: it writes as it goes and stops at the first expression it
  cannot evaluate, which is a field of a nil pointer, so what is rendered is the text written so far and
  whether execution reached the end. A template of the program is a function from its data to that,
  built from its text and actions in their order with the functions below. Values are inserted as they
  are; the functions \<^verbatim>\<open>timestamp\<close>, \<^verbatim>\<open>link\<close>, \<^verbatim>\<open>isXds\<close>, \<^verbatim>\<open>address\<close> and \<^verbatim>\<open>urlquery\<close> are those of
  \<^verbatim>\<open>getFuncs\<close> and the template package.
\<close>

section \<open>Rendering\<close>

type_synonym rendered = "gostring \<times> bool"

definition emit :: "gostring \<Rightarrow> rendered" where
  "emit s = (s, True)"

text \<open>A field of a nil pointer.\<close>

definition cut_off :: rendered where
  "cut_off = ([], False)"

definition also_render :: "rendered \<Rightarrow> rendered \<Rightarrow> rendered" where
  "also_render r r' = (if snd r then (fst r @ fst r', snd r') else r)"

definition tseq :: "rendered list \<Rightarrow> rendered" where
  "tseq rs = foldr also_render rs (emit [])"

definition trange :: "'a list \<Rightarrow> ('a \<Rightarrow> rendered) \<Rightarrow> rendered" where
  "trange xs body = tseq (map body xs)"

definition need :: "'a option \<Rightarrow> ('a \<Rightarrow> rendered) \<Rightarrow> rendered" where
  "need x f = (case x of None \<Rightarrow> cut_off | Some v \<Rightarrow> f v)"

definition twith :: "'a option \<Rightarrow> ('a \<Rightarrow> rendered) \<Rightarrow> rendered \<Rightarrow> rendered" where
  "twith x f els = (case x of None \<Rightarrow> els | Some v \<Rightarrow> f v)"

definition tif :: "bool \<Rightarrow> rendered \<Rightarrow> rendered \<Rightarrow> rendered" where
  "tif b r els = (if b then r else els)"

definition tint :: "int64 \<Rightarrow> rendered" where
  "tint w = emit (formatInt w)"

definition tlink :: "gostring \<Rightarrow> part list \<Rightarrow> rendered" where
  "tlink pre parts = emit (createHyperlink pre parts)"

definition ttime :: "timestamp option \<Rightarrow> rendered" where
  "ttime ts = emit (formatTimestamp ts)"

text \<open>How the generated packages print the values of their types.\<close>

record 'sec printers =
  show_state :: "int option \<Rightarrow> gostring"
  show_severity :: "int \<Rightarrow> gostring"
  show_discovery :: "discovery_type \<Rightarrow> gostring"
  show_health :: "health_status \<Rightarrow> gostring"
  show_any :: "any_msg \<Rightarrow> gostring"
  show_security :: "'sec option \<Rightarrow> gostring"

section \<open>What is rendered\<close>

named_theorems finishes \<open>when a template reaches its end\<close>

lemma tseq_simps: "tseq [] = ([], True)" "tseq (r # rs) = also_render r (tseq rs)"
  by (simp_all add: tseq_def emit_def)

lemma snd_also_render: "snd (also_render r r') \<longleftrightarrow> snd r \<and> snd r'"
  by (simp add: also_render_def)

lemma snd_tseq: "snd (tseq rs) \<longleftrightarrow> (\<forall>r\<in>set rs. snd r)"
  by (induction rs) (simp_all add: tseq_simps snd_also_render)

lemma snd_trange: "snd (trange xs body) \<longleftrightarrow> (\<forall>x\<in>set xs. snd (body x))"
  by (simp add: trange_def snd_tseq)

lemma snd_emit: "snd (emit s)"
  by (simp add: emit_def)

lemma snd_need: "snd (need x f) \<longleftrightarrow> (\<exists>v. x = Some v \<and> snd (f v))"
  by (cases x) (simp_all add: need_def cut_off_def)

lemma snd_twith: "snd (twith x f els) \<longleftrightarrow> (case x of None \<Rightarrow> snd els | Some v \<Rightarrow> snd (f v))"
  by (cases x) (simp_all add: twith_def)

lemma snd_tif: "snd (tif b r els) \<longleftrightarrow> (if b then snd r else snd els)"
  by (simp add: tif_def)

lemma snd_cut_off: "\<not> snd cut_off"
  by (simp add: cut_off_def)

lemma snd_values: "snd (tint w)" "snd (tlink pre parts)" "snd (ttime ts)"
  by (simp_all add: tint_def tlink_def ttime_def emit_def)

lemmas render_finishes [finishes] = snd_also_render snd_trange snd_emit snd_need snd_twith snd_tif
  snd_cut_off snd_values

lemma snd_tseq_list [finishes]: "snd (tseq [])" "snd (tseq (r # rs)) \<longleftrightarrow> snd r \<and> snd (tseq rs)"
  by (simp_all add: snd_tseq)

text \<open>A piece of a finished template is in its text.\<close>

definition shows_text :: "gostring \<Rightarrow> gostring \<Rightarrow> bool" where
  "shows_text page s \<longleftrightarrow> (\<exists>u v. page = u @ s @ v)"

lemma shows_append: "shows_text a s \<Longrightarrow> shows_text (a @ b) s" "shows_text b s \<Longrightarrow> shows_text (a @ b) s"
  unfolding shows_text_def by (metis append_assoc)+

lemma shows_self: "shows_text s s"
  unfolding shows_text_def by (metis append_Nil append_Nil2)

lemma shows_trans: "shows_text a b \<Longrightarrow> shows_text b c \<Longrightarrow> shows_text a c"
  unfolding shows_text_def by (metis append_assoc)

lemma fst_tseq: "snd (tseq rs) \<Longrightarrow> fst (tseq rs) = concat (map fst rs)"
  by (induction rs) (simp_all add: tseq_simps also_render_def split: if_splits)

lemma shows_concat: "w \<in> set ws \<Longrightarrow> shows_text w s \<Longrightarrow> shows_text (concat ws) s"
  by (induction ws) (auto intro: shows_append)

lemma shows_tseq: "snd (tseq rs) \<Longrightarrow> r \<in> set rs \<Longrightarrow> shows_text (fst r) s \<Longrightarrow> shows_text (fst (tseq rs)) s"
  by (simp add: fst_tseq) (rule shows_concat; simp)

lemma shows_trange:
  "snd (trange xs body) \<Longrightarrow> x \<in> set xs \<Longrightarrow> shows_text (fst (body x)) s \<Longrightarrow> shows_text (fst (trange xs body)) s"
  unfolding trange_def by (rule shows_tseq) auto

text \<open>Two neighbouring pieces.\<close>

lemma also_render_assoc: "also_render (also_render a b) c = also_render a (also_render b c)"
  by (simp add: also_render_def)

lemma also_render_emit: "also_render (emit s) (also_render (emit t) r) = also_render (emit (s @ t)) r"
  by (simp add: also_render_def emit_def)

end
