(* ===== verification/Xds.thy ===== *)
theory Xds
  imports GoText GoNet Proto
begin

text \<open>
  \<^verbatim>\<open>xds.go\<close>: splitting an \<^verbatim>\<open>xds:\<close> target, sorting the resources of a client status dump by type and
  name, and the host:port strings by which endpoints are compared with subchannel targets.
\<close>

section \<open>Targets\<close>

definition parseXdsTarget :: "gostring \<Rightarrow> gostring \<times> gostring \<times> bool" where
  "parseXdsTarget target =
     (if \<not> hasPrefix target ''xds:'' then ([], [], False)
      else let rest = trimPrefix target ''xds:'' in
        if \<not> hasPrefix rest ''//'' then ([], trimPrefix rest ''/'', True)
        else let rest = trimPrefix rest ''//'' in
          (case indexByte rest CHR ''/'' of
             None \<Rightarrow> (rest, [], True)
           | Some i \<Rightarrow> (take i rest, drop (i + 1) rest, True)))"

definition isXdsTarget :: "gostring \<Rightarrow> bool" where
  "isXdsTarget target = (case parseXdsTarget target of (_, _, ok) \<Rightarrow> ok)"

lemma isXdsTarget_iff: "isXdsTarget t \<longleftrightarrow> hasPrefix t ''xds:''"
  by (auto simp: isXdsTarget_def parseXdsTarget_def Let_def split: option.splits)

text \<open>How a target is read back: which target can have been split into these parts.\<close>

lemma parseXdsTarget_cases:
  assumes "parseXdsTarget t = (a, r, ok)"
  shows "(if ok then
            CHR ''/'' \<notin> set a \<and>
            (t = ''xds://'' @ a @ CHR ''/'' # r \<or> (t = ''xds://'' @ a \<and> r = []) \<or>
             (a = [] \<and> \<not> hasPrefix r ''/'' \<and> (t = ''xds:'' @ r \<or> t = ''xds:/'' @ r)))
          else \<not> hasPrefix t ''xds:'' \<and> a = [] \<and> r = [])"
proof (cases "hasPrefix t ''xds:''")
  case False
  with assms show ?thesis by (auto simp: parseXdsTarget_def)
next
  case True
  then obtain rest where t: "t = ''xds:'' @ rest" by (auto simp: hasPrefix_iff)
  have trim: "trimPrefix t ''xds:'' = rest" unfolding t by (rule trimPrefix_append)
  show ?thesis
  proof (cases "hasPrefix rest ''//''")
    case False
    have "trimPrefix rest ''/'' = rest \<or> rest = ''/'' @ trimPrefix rest ''/''"
        "\<not> hasPrefix (trimPrefix rest ''/'') ''/''"
      using False by (cases rest; cases "tl rest"; auto simp: trimPrefix_def hasPrefix_iff)+
    with False True trim assms t show ?thesis by (auto simp: parseXdsTarget_def Let_def)
  next
    case slashes: True
    then obtain rest' where rest: "rest = ''//'' @ rest'" by (auto simp: hasPrefix_iff)
    have "trimPrefix rest ''//'' = rest'" unfolding rest by (rule trimPrefix_append)
    with True slashes trim assms t rest show ?thesis
      by (auto simp: parseXdsTarget_def Let_def indexByte_Some split: option.splits)
  qed
qed

lemma parseXdsTarget_authority:
  "CHR ''/'' \<notin> set a \<Longrightarrow> parseXdsTarget (''xds://'' @ a @ CHR ''/'' # r) = (a, r, True)"
  by (simp add: parseXdsTarget_def trimPrefix_def Let_def indexByte_append)

lemma parseXdsTarget_plain:
  "\<not> hasPrefix r ''/'' \<Longrightarrow> parseXdsTarget (''xds:'' @ r) = ([], r, True)"
  by (cases r) (auto simp: parseXdsTarget_def trimPrefix_def Let_def)

section \<open>Resources of a client status dump\<close>

definition virtualHostTypeURL :: gostring where
  "virtualHostTypeURL = ''type.googleapis.com/envoy.config.route.v3.VirtualHost''"

definition clusterTypeURL :: gostring where
  "clusterTypeURL = ''type.googleapis.com/envoy.config.cluster.v3.Cluster''"

definition endpointTypeURL :: gostring where
  "endpointTypeURL = ''type.googleapis.com/envoy.config.endpoint.v3.ClusterLoadAssignment''"

record 'm xds_resources =
  virtualHosts :: "(gostring, 'm virtual_host) gomap"
  clusters :: "(gostring, cluster_msg) gomap"
  endpoints :: "(gostring, cluster_load_assignment) gomap"

definition no_resources :: "'m xds_resources" where
  "no_resources = \<lparr>virtualHosts = gm_empty, clusters = gm_empty, endpoints = gm_empty\<rparr>"

text \<open>One round of the loop: a config without payload, of another type or that does not decode is
  skipped (the last with a log line).\<close>

definition store_config :: "'m proto_lib \<Rightarrow> generic_xds_config \<Rightarrow> 'm xds_resources \<Rightarrow> 'm xds_resources" where
  "store_config lib gx r =
     (case gx_config gx of
        None \<Rightarrow> r
      | Some any \<Rightarrow>
          if gx_type_url gx = virtualHostTypeURL then
            (case unmarshal_virtual_host lib any of
               Some m \<Rightarrow> r\<lparr>virtualHosts := gm_set (gx_name gx) m (virtualHosts r)\<rparr> | None \<Rightarrow> r)
          else if gx_type_url gx = clusterTypeURL then
            (case unmarshal_cluster lib any of
               Some m \<Rightarrow> r\<lparr>clusters := gm_set (gx_name gx) m (clusters r)\<rparr> | None \<Rightarrow> r)
          else if gx_type_url gx = endpointTypeURL then
            (case unmarshal_endpoints lib any of
               Some m \<Rightarrow> r\<lparr>endpoints := gm_set (gx_name gx) m (endpoints r)\<rparr> | None \<Rightarrow> r)
          else r)"

definition newXdsResources :: "'m proto_lib \<Rightarrow> 'n client_config option \<Rightarrow> 'm xds_resources" where
  "newXdsResources lib cfg =
     (case cfg of
        None \<Rightarrow> no_resources
      | Some c \<Rightarrow> fold (store_config lib) (cc_generic c) no_resources)"

text \<open>The specification: the configs of one type that decode, in the order of the dump.\<close>

definition decoded :: "gostring \<Rightarrow> (any_msg \<Rightarrow> 'v option) \<Rightarrow> generic_xds_config list \<Rightarrow> (gostring \<times> 'v) list" where
  "decoded url dec gxs =
     List.map_filter (\<lambda>gx. if gx_type_url gx = url
       then map_option (Pair (gx_name gx)) (Option.bind (gx_config gx) dec) else None) gxs"

definition dump_of :: "'n client_config option \<Rightarrow> generic_xds_config list" where
  "dump_of cfg = (case cfg of None \<Rightarrow> [] | Some c \<Rightarrow> cc_generic c)"

lemma type_urls_distinct [simp]:
  "virtualHostTypeURL \<noteq> clusterTypeURL" "virtualHostTypeURL \<noteq> endpointTypeURL"
  "clusterTypeURL \<noteq> endpointTypeURL" "clusterTypeURL \<noteq> virtualHostTypeURL"
  "endpointTypeURL \<noteq> virtualHostTypeURL" "endpointTypeURL \<noteq> clusterTypeURL"
  by (simp_all add: virtualHostTypeURL_def clusterTypeURL_def endpointTypeURL_def)

lemma decoded_simps:
  "decoded url dec [] = []"
  "decoded url dec (gx # gxs) =
     (if gx_type_url gx = url then
        (case Option.bind (gx_config gx) dec of
           None \<Rightarrow> decoded url dec gxs | Some v \<Rightarrow> (gx_name gx, v) # decoded url dec gxs)
      else decoded url dec gxs)"
  by (simp_all add: decoded_def List.map_filter_simps split: option.splits)

text \<open>Each of the three maps is built by the insertions of the configs of its own type.\<close>

lemma decoded_Cons: "decoded url dec (gx # gxs) = decoded url dec [gx] @ decoded url dec gxs"
  by (simp add: decoded_simps split: option.splits)

lemma store_config_maps:
  "virtualHosts (store_config lib gx r) =
     gm.put_all (decoded virtualHostTypeURL (unmarshal_virtual_host lib) [gx]) (virtualHosts r)"
  "clusters (store_config lib gx r) =
     gm.put_all (decoded clusterTypeURL (unmarshal_cluster lib) [gx]) (clusters r)"
  "endpoints (store_config lib gx r) =
     gm.put_all (decoded endpointTypeURL (unmarshal_endpoints lib) [gx]) (endpoints r)"
  by (auto simp: store_config_def decoded_simps gm.put_all_def split: option.splits)

lemma fold_store_config:
  "virtualHosts (fold (store_config lib) gxs r) =
     gm.put_all (decoded virtualHostTypeURL (unmarshal_virtual_host lib) gxs) (virtualHosts r)"
  "clusters (fold (store_config lib) gxs r) =
     gm.put_all (decoded clusterTypeURL (unmarshal_cluster lib) gxs) (clusters r)"
  "endpoints (fold (store_config lib) gxs r) =
     gm.put_all (decoded endpointTypeURL (unmarshal_endpoints lib) gxs) (endpoints r)"
proof (induction gxs arbitrary: r)
  case Nil
  { case 1 show ?case by (simp add: decoded_simps gm.put_all_Nil) }
  { case 2 show ?case by (simp add: decoded_simps gm.put_all_Nil) }
  { case 3 show ?case by (simp add: decoded_simps gm.put_all_Nil) }
next
  case (Cons gx gxs)
  note split = decoded_Cons [of _ _ gx gxs]
  { case 1 show ?case by (simp add: Cons.IH store_config_maps split [of virtualHostTypeURL] gm.put_all_append) }
  { case 2 show ?case by (simp add: Cons.IH store_config_maps split [of clusterTypeURL] gm.put_all_append) }
  { case 3 show ?case by (simp add: Cons.IH store_config_maps split [of endpointTypeURL] gm.put_all_append) }
qed

lemma newXdsResources_maps:
  "virtualHosts (newXdsResources lib cfg) =
     gm.put_all (decoded virtualHostTypeURL (unmarshal_virtual_host lib) (dump_of cfg)) gm_empty"
  "clusters (newXdsResources lib cfg) =
     gm.put_all (decoded clusterTypeURL (unmarshal_cluster lib) (dump_of cfg)) gm_empty"
  "endpoints (newXdsResources lib cfg) =
     gm.put_all (decoded endpointTypeURL (unmarshal_endpoints lib) (dump_of cfg)) gm_empty"
  by (simp_all add: newXdsResources_def dump_of_def no_resources_def fold_store_config
      decoded_simps gm.put_all_def split: option.splits)

lemma newXdsResources_wf [simp]:
  "gm_wf (virtualHosts (newXdsResources lib cfg))" "gm_wf (clusters (newXdsResources lib cfg))"
  "gm_wf (endpoints (newXdsResources lib cfg))"
  by (simp_all add: newXdsResources_maps gm.wf_put_all gm.wf_empty)

section \<open>Addresses\<close>

definition formatSocketAddress :: "socket_address option \<Rightarrow> gostring" where
  "formatSocketAddress sa =
     (case sa of None \<Rightarrow> [] | Some a \<Rightarrow> sa_address a @ CHR '':'' # formatUint (sa_port_value a))"

definition formatLbEndpointAddress :: "lb_endpoint option \<Rightarrow> gostring" where
  "formatLbEndpointAddress ep =
     (case ep of
        None \<Rightarrow> []
      | Some e \<Rightarrow>
          (case lbe_endpoint e of
             None \<Rightarrow> []
           | Some en \<Rightarrow>
               (case ep_address en of None \<Rightarrow> [] | Some ad \<Rightarrow> formatSocketAddress (addr_socket_address ad))))"

definition edsServiceNameForCluster :: "cluster_msg option \<Rightarrow> gostring" where
  "edsServiceNameForCluster c =
     (case c of
        None \<Rightarrow> []
      | Some cl \<Rightarrow>
          (case cluster_eds_config cl of
             Some eds \<Rightarrow> if eds_service_name eds \<noteq> [] then eds_service_name eds else cluster_name cl
           | None \<Rightarrow> cluster_name cl))"

lemma formatLbEndpointAddress_socket:
  "formatLbEndpointAddress (Some e) = formatSocketAddress (endpoint_socket_address e)"
  by (simp add: formatLbEndpointAddress_def endpoint_socket_address_def formatSocketAddress_def opt_def
      split: option.splits)

lemma formatSocketAddress_empty: "formatSocketAddress sa = [] \<longleftrightarrow> sa = None"
  by (simp add: formatSocketAddress_def split: option.splits)

section \<open>Properties\<close>

text \<open>
  C15. Splitting a target: it is an xDS target exactly when it starts with the scheme, and then it is
  put together again from its parts, the authority up to the first slash and the rest.
\<close>

theorem parseXdsTarget_parts:
  "case parseXdsTarget t of (authority, resource, ok) \<Rightarrow>
     if ok then CHR ''/'' \<notin> set authority \<and>
       (t = ''xds://'' @ authority @ CHR ''/'' # resource \<or> (t = ''xds://'' @ authority \<and> resource = []) \<or>
        (authority = [] \<and> \<not> hasPrefix resource ''/'' \<and> (t = ''xds:'' @ resource \<or> t = ''xds:/'' @ resource)))
     else \<not> hasPrefix t ''xds:'' \<and> authority = [] \<and> resource = []"
proof -
  obtain a r ok where p: "parseXdsTarget t = (a, r, ok)" by (metis prod_cases3)
  show ?thesis using parseXdsTarget_cases [OF p] unfolding p by simp
qed

text \<open>
  C13. Sorting a dump into maps: looking up a name in one of the three maps finds the last config of
  the dump that has this name, the type of the map and a payload that decodes; configs of other
  types, without payload or garbled ones change nothing.
\<close>

theorem newXdsResources_lookup:
  "gm_get (virtualHosts (newXdsResources lib cfg)) n =
     map_of (rev (decoded virtualHostTypeURL (unmarshal_virtual_host lib) (dump_of cfg))) n \<and>
   gm_get (clusters (newXdsResources lib cfg)) n =
     map_of (rev (decoded clusterTypeURL (unmarshal_cluster lib) (dump_of cfg))) n \<and>
   gm_get (endpoints (newXdsResources lib cfg)) n =
     map_of (rev (decoded endpointTypeURL (unmarshal_endpoints lib) (dump_of cfg))) n"
  by (simp add: newXdsResources_maps gm.get_built)

end
