(* ===== verification/Pages.thy ===== *)
theory Pages
  imports Template Client Xds
begin

text \<open>
  The pages over the channelz service itself: \<^verbatim>\<open>channel-page.go\<close>, \<^verbatim>\<open>channels-page.go\<close>,
  \<^verbatim>\<open>sub-channel-page.go\<close>, \<^verbatim>\<open>server-page.go\<close>, \<^verbatim>\<open>servers-page.go\<close>, \<^verbatim>\<open>socket-page.go\<close> and
  \<^verbatim>\<open>top-channels-page.go\<close>. Each has its template, text and actions in the order of the source, and its
  writer: the header, the template or the message that the target cannot be reached, and the footer.
  \<open>pre\<close> is the package variable for links, \<open>pr\<close> how the generated packages print their values. A
  writer runs alone from a state of the connection and gives the next one; when the RPC panics, so
  does the writer.
\<close>

section \<open>Templates\<close>

text \<open>The lines of references several templates share; those of the subchannel page open the bold
  element first.\<close>

definition ref_lines :: "gostring \<Rightarrow> gostring \<Rightarrow> channel_ref list \<Rightarrow> rendered" where
  \<open>ref_lines pre kind refs = trange refs (\<lambda>r. tseq [
       emit ''
				<a href="'',
       tlink pre [PStr kind, PInt64 (cr_id r)],
       emit ''"><b>'',
       tint (cr_id r),
       emit ''</b> '',
       emit (cr_name r),
       emit ''</a><br/>
			''])\<close>

definition bold_ref_lines :: "gostring \<Rightarrow> gostring \<Rightarrow> channel_ref list \<Rightarrow> rendered" where
  \<open>bold_ref_lines pre kind refs = trange refs (\<lambda>r. tseq [
       emit ''
				<b><a href="'',
       tlink pre [PStr kind, PInt64 (cr_id r)],
       emit ''">'',
       tint (cr_id r),
       emit ''</b> '',
       emit (cr_name r),
       emit ''</a><br/>
			''])\<close>

lemma ref_lines_finish [finishes]: "snd (ref_lines pre kind refs)" "snd (bold_ref_lines pre kind refs)"
  by (simp_all add: ref_lines_def bold_ref_lines_def finishes)

definition channelTemplate :: "gostring \<Rightarrow> 'sec printers \<Rightarrow> channel_response \<Rightarrow> rendered" where
  \<open>channelTemplate pre pr d =
     (tseq [
     emit ''
<table frame=box cellspacing=0 cellpadding=2 class="vertical">
    <tr>
		<th>ChannelId</th>
        <td>'',
     need (resp_channel d) (\<lambda>c. need (ch_ref c) (\<lambda>x. tint (cr_id x))),
     emit ''
	</tr>
    <tr>
		<th>Channel Name</th>
        <td>'',
     need (resp_channel d) (\<lambda>c. need (ch_ref c) (\<lambda>x. emit (cr_name x))),
     emit ''</td>
	</tr>
	<tr>
        <th>State</th>
        <td>'',
     need (resp_channel d) (\<lambda>c. need (ch_data c) (\<lambda>x. emit (show_state pr (cd_state x)))),
     emit ''</td>
	</tr>
	<tr>
        <th>Target</th>
        <td>
			'',
     need (resp_channel d) (\<lambda>c. need (ch_data c) (\<lambda>x. emit (cd_target x))),
     emit ''
			'',
     need (resp_channel d) (\<lambda>c. need (ch_data c) (\<lambda>x. tif (isXdsTarget (cd_target x)) (tseq [
       emit ''
				&nbsp;[<a href="'',
       need (resp_channel d) (\<lambda>c. need (ch_ref c) (\<lambda>x. tlink pre [PStr ''xds'', PStr ''vhost'', PInt64 (cr_id x)])),
       emit ''">view xDS config</a>]
			'']) (emit []))),
     emit ''
		</td>
	</tr>
	<tr>
        <th>Subchannels</th>
		<td>
			'',
     need (resp_channel d) (\<lambda>c. ref_lines pre ''subchannel'' (ch_subchannels c)),
     emit ''
		</td>
	</tr>
	<tr>
        <th>Child Channels</th>
		<td>
			'',
     need (resp_channel d) (\<lambda>c. ref_lines pre ''channel'' (ch_channels c)),
     emit ''
		</td>
	</tr>
	<tr>
        <th>Sockets</th>
		<td>
			'',
     need (resp_channel d) (\<lambda>c. ref_lines pre ''socket'' (ch_sockets c)),
     emit ''
		</td>
	</tr>
	<tr>
        <th>CreationTimestamp</th>
        <td>'',
     need (resp_channel d) (\<lambda>c. need (ch_data c) (\<lambda>x. need (cd_trace x) (\<lambda>t. ttime (tr_creation t)))),
     emit ''</td>
	</tr>
	<tr>
        <th>CallsStarted</th>
        <td>'',
     need (resp_channel d) (\<lambda>c. need (ch_data c) (\<lambda>x. tint (cd_calls_started x))),
     emit ''</td>
	</tr>
	<tr>
        <th>CallsSucceeded</th>
        <td>'',
     need (resp_channel d) (\<lambda>c. need (ch_data c) (\<lambda>x. tint (cd_calls_succeeded x))),
     emit ''</td>
	</tr>
	<tr>
        <th>CallsFailed</th>
        <td>'',
     need (resp_channel d) (\<lambda>c. need (ch_data c) (\<lambda>x. tint (cd_calls_failed x))),
     emit ''</td>
	</tr>
	<tr>
        <th>LastCallStartedTimestamp</th>
        <td>'',
     need (resp_channel d) (\<lambda>c. need (ch_data c) (\<lambda>x. ttime (cd_last_call x))),
     emit ''</td>
    </tr>
    <tr>
        <th>Events</th>
        <td>
			<pre>'',
     need (resp_channel d) (\<lambda>c. need (ch_data c) (\<lambda>x. need (cd_trace x) (\<lambda>t. trange (tr_events t) (\<lambda>e. (tseq [
       emit ''
'',
       emit (show_severity pr (ev_severity e)),
       emit '' ['',
       ttime (ev_timestamp e),
       emit '']: '',
       emit (ev_description e)]))))),
     emit ''</pre>
		</td>
    </tr>
</table>
''])\<close>

definition channel_header :: gostring where
  \<open>channel_header = ''
    <tr classs="header">
        <th>Channel</th>
        <th>State</th>
        <th>Target</th>
        <th>Subchannels</th>
        <th>Child Channels</th>
        <th>Sockets</th>
        <th>CreationTimestamp</th>
        <th>CallsStarted</th>
        <th>CallsSucceeded</th>
        <th>CallsFailed</th>
        <th>LastCallStartedTimestamp</th>
    </tr>
''\<close>

definition channel_body :: "gostring \<Rightarrow> 'sec printers \<Rightarrow> channel_msg \<Rightarrow> rendered" where
  \<open>channel_body pre pr c =
     (tseq [
     emit ''
    <tr>
        <td><a href="'',
     need (ch_ref c) (\<lambda>x. tlink pre [PStr ''channel'', PInt64 (cr_id x)]),
     emit ''"><b>'',
     need (ch_ref c) (\<lambda>x. tint (cr_id x)),
     emit ''</b> '',
     need (ch_ref c) (\<lambda>x. emit (cr_name x)),
     emit ''</td>
        <td>'',
     need (ch_data c) (\<lambda>x. emit (show_state pr (cd_state x))),
     emit ''</td>
        <td>'',
     need (ch_data c) (\<lambda>x. emit (cd_target x)),
     emit ''</td>
		<td>'',
     emit (fmt_nat (length (ch_subchannels c))),
     emit ''</td>
		<td>
			'',
     ref_lines pre ''channel'' (ch_channels c),
     emit ''
		</td>
		<td>
			'',
     ref_lines pre ''socket'' (ch_sockets c),
     emit ''
		</td>
        <td>'',
     need (ch_data c) (\<lambda>x. need (cd_trace x) (\<lambda>t. ttime (tr_creation t))),
     emit ''</td>
        <td>'',
     need (ch_data c) (\<lambda>x. tint (cd_calls_started x)),
     emit ''</td>
        <td>'',
     need (ch_data c) (\<lambda>x. tint (cd_calls_succeeded x)),
     emit ''</td>
        <td>'',
     need (ch_data c) (\<lambda>x. tint (cd_calls_failed x)),
     emit ''</td>
        <td>'',
     need (ch_data c) (\<lambda>x. ttime (cd_last_call x)),
     emit ''</td>
	</tr>
''])\<close>

text \<open>
  The variable \<^verbatim>\<open>$last\<close> holds the list of channels at first, which has no field \<^verbatim>\<open>Ref\<close>, and then each
  channel in turn.
\<close>

definition last_start :: "top_channels_response \<Rightarrow> rendered" where
  "last_start d =
     (if top_channels d = [] then cut_off
      else need (ch_ref (last (top_channels d))) (\<lambda>x. tint (cr_id x)))"

definition next_line :: "gostring \<Rightarrow> top_channels_response \<Rightarrow> rendered" where
  \<open>next_line pre d = tseq [
       emit ''
		<tr>
			<th colspan=100 style="text-align:left">
				<a href="'',
       tlink pre [PStr ''channels''],
       emit ''?start='',
       last_start d,
       emit ''">Next&nbsp;&gt;</a>
			</th>
		</tr>
	'']\<close>

definition channelsTemplate :: "gostring \<Rightarrow> 'sec printers \<Rightarrow> top_channels_response \<Rightarrow> rendered" where
  \<open>channelsTemplate pre pr d =
     (tseq [
     emit ''
'',
     emit ''

'',
     emit ''
<p><table class="section-header" width=100%><tr align=center><td>Clients</td></tr></table></p>
<table frame=box cellspacing=0 cellpadding=2>
    <tr class="header">
		<th colspan=100 style="text-align:left">Top Channels: '',
     emit (fmt_nat (length (top_channels d))),
     emit ''</th>
    </tr>

	'',
     emit channel_header,
     emit ''
	'',
     emit ''
	'',
     trange (top_channels d) (\<lambda>c. (tseq [
       emit ''
		'',
       channel_body pre pr c,
       emit ''
		'',
       emit ''
	''])),
     emit ''
	'',
     tif (\<not> top_end d) (next_line pre d) (emit []),
     emit ''
</table>
<br/>
<br/>
''])\<close>

definition subChannelTemplate :: "gostring \<Rightarrow> 'sec printers \<Rightarrow> subchannel_response \<Rightarrow> rendered" where
  \<open>subChannelTemplate pre pr d =
     (tseq [
     emit ''
<table frame=box cellspacing=0 cellpadding=2 class="vertical">
    <tr>
		<th>Subchannel</th>
        <td>
			<a href="'',
     need (resp_subchannel d) (\<lambda>c. need (sub_ref c) (\<lambda>x. tlink pre [PStr ''subchannel'', PInt64 (cr_id x)])),
     emit ''">
				<b>'',
     need (resp_subchannel d) (\<lambda>c. need (sub_ref c) (\<lambda>x. tint (cr_id x))),
     emit ''</b> '',
     need (resp_subchannel d) (\<lambda>c. need (sub_ref c) (\<lambda>x. emit (cr_name x))),
     emit ''
			</a>
		</td>
	</tr>
	<tr>
        <th>State</th>
        <td>'',
     need (resp_subchannel d) (\<lambda>c. need (sub_data c) (\<lambda>x. emit (show_state pr (cd_state x)))),
     emit ''</td>
	</tr>
	<tr>
        <th>Target</th>
        <td>'',
     need (resp_subchannel d) (\<lambda>c. need (sub_data c) (\<lambda>x. emit (cd_target x))),
     emit ''</td>
	</tr>
	<tr>
        <th>CreationTimestamp</th>
        <td>'',
     need (resp_subchannel d) (\<lambda>c. need (sub_data c) (\<lambda>x. need (cd_trace x) (\<lambda>t. ttime (tr_creation t)))),
     emit ''</td>
	</tr>
	<tr>
        <th>CallsStarted</th>
        <td>'',
     need (resp_subchannel d) (\<lambda>c. need (sub_data c) (\<lambda>x. tint (cd_calls_started x))),
     emit ''</td>
	</tr>
	<tr>
        <th>CallsSucceeded</th>
        <td>'',
     need (resp_subchannel d) (\<lambda>c. need (sub_data c) (\<lambda>x. tint (cd_calls_succeeded x))),
     emit ''</td>
	</tr>
	<tr>
        <th>CallsFailed</th>
        <td>'',
     need (resp_subchannel d) (\<lambda>c. need (sub_data c) (\<lambda>x. tint (cd_calls_failed x))),
     emit ''</td>
	</tr>
	<tr>
        <th>LastCallStartedTimestamp</th>
        <td>'',
     need (resp_subchannel d) (\<lambda>c. need (sub_data c) (\<lambda>x. ttime (cd_last_call x))),
     emit ''</td>
	</tr>
	<tr>
        <th>Child Channels</th>
		<td>
			'',
     need (resp_subchannel d) (\<lambda>c. bold_ref_lines pre ''channel'' (sub_channels c)),
     emit ''
		</td>
	</tr>
	<tr>
        <th>Child Subchannels</th>
		<td>
			'',
     need (resp_subchannel d) (\<lambda>c. bold_ref_lines pre ''subchannel'' (sub_subchannels c)),
     emit ''
		</td>
	</tr>
	<tr>
        <th>Socket</th>
		<td>
			'',
     need (resp_subchannel d) (\<lambda>c. bold_ref_lines pre ''socket'' (sub_sockets c)),
     emit ''
		</td>
    </tr>
	<tr>
        <th>Events</th>
        <td colspan=100>
			<pre>'',
     need (resp_subchannel d) (\<lambda>c. need (sub_data c) (\<lambda>x. need (cd_trace x) (\<lambda>t. trange (tr_events t) (\<lambda>e. (tseq [
       emit ''
'',
       emit (show_severity pr (ev_severity e)),
       emit '' ['',
       ttime (ev_timestamp e),
       emit '']: '',
       emit (ev_description e)]))))),
     emit ''</pre>
		</td>
    </tr>
</table>
''])\<close>

definition server_header :: gostring where
  \<open>server_header = ''
    <tr classs="header">
        <th>Server</th>
		<th>CreationTimestamp</th>
        <th>CallsStarted</th>
        <th>CallsSucceeded</th>
        <th>CallsFailed</th>
        <th>LastCallStartedTimestamp</th>
		<th>Sockets</th>
    </tr>
''\<close>

definition server_body :: "gostring \<Rightarrow> 'sec printers \<Rightarrow> server_msg \<Rightarrow> rendered" where
  \<open>server_body pre pr c =
     (tseq [
     emit ''
    <tr>
        <td><a href="'',
     need (sv_ref c) (\<lambda>x. tlink pre [PStr ''server'', PInt64 (cr_id x)]),
     emit ''"><b>'',
     need (sv_ref c) (\<lambda>x. tint (cr_id x)),
     emit ''</b> '',
     need (sv_ref c) (\<lambda>x. emit (cr_name x)),
     emit ''</a></td>
        <td>'',
     need (sv_data c) (\<lambda>x. twith (sd_trace x) (\<lambda>t. (tseq [
       emit '' '',
       ttime (tr_creation t),
       emit '' ''])) (emit [])),
     emit ''</td>
        <td>'',
     need (sv_data c) (\<lambda>x. tint (sd_calls_started x)),
     emit ''</td>
        <td>'',
     need (sv_data c) (\<lambda>x. tint (sd_calls_succeeded x)),
     emit ''</td>
        <td>'',
     need (sv_data c) (\<lambda>x. tint (sd_calls_failed x)),
     emit ''</td>
        <td>'',
     need (sv_data c) (\<lambda>x. ttime (sd_last_call x)),
     emit ''</td>
		<td>
			'',
     trange (sv_listen c) (\<lambda>r. (tseq [
       emit ''
				<a href="'',
       tlink pre [PStr ''socket'', PInt64 (cr_id r)],
       emit ''"><b>'',
       tint (cr_id r),
       emit ''</b> '',
       emit (cr_name r),
       emit ''</a> <br/>
			''])),
     emit ''
		</td>
	</tr>
	'',
     need (sv_data c) (\<lambda>x. twith (sd_trace x) (\<lambda>t. (tseq [
       emit ''
		<tr classs="header">
			<th colspan=100>Events</th>
		</tr>
		<tr>
			<td>&nbsp;</td>
			<td colspan=100>
				<pre>'',
       trange (tr_events t) (\<lambda>e. (tseq [
         emit ''
'',
         emit (show_severity pr (ev_severity e)),
         emit '' ['',
         ttime (ev_timestamp e),
         emit '']: '',
         emit (ev_description e)])),
       emit ''</pre>
			</td>
		</tr>
	''])) (emit [])),
     emit ''
''])\<close>

definition serversTemplate :: "gostring \<Rightarrow> 'sec printers \<Rightarrow> servers_response \<Rightarrow> rendered" where
  \<open>serversTemplate pre pr d =
     (tseq [
     emit ''
'',
     emit ''

'',
     emit ''

<p><table class="section-header" width=100%><tr align=center><td>Servers</td></tr></table></p>
<table frame=box cellspacing=0 cellpadding=2>
    <tr class="header">
		<th colspan=100 style="text-align:left">Servers: '',
     emit (fmt_nat (length (resp_servers d))),
     emit ''</th>
    </tr>

	'',
     emit server_header,
     emit ''
	'',
     trange (resp_servers d) (\<lambda>c. (tseq [
       emit ''
		'',
       server_body pre pr c,
       emit ''
	''])),
     emit ''
</table>
''])\<close>

definition serverTemplate :: "gostring \<Rightarrow> 'sec printers \<Rightarrow> server_response \<Rightarrow> rendered" where
  \<open>serverTemplate pre pr d =
     (tseq [
     emit ''
<table frame=box cellspacing=0 cellpadding=2 class="vertical">
    <tr>
		<th>ServerId</th>
        <td>'',
     need (resp_server d) (\<lambda>c. need (sv_ref c) (\<lambda>x. tint (cr_id x))),
     emit ''</td>
	</tr>
    <tr>
		<th>Server Name</th>
        <td>'',
     need (resp_server d) (\<lambda>c. need (sv_ref c) (\<lambda>x. emit (cr_name x))),
     emit ''</td>
	</tr>
	<tr>
		<th>CreationTimestamp</th>
        <td>'',
     need (resp_server d) (\<lambda>c. need (sv_data c) (\<lambda>x. twith (sd_trace x) (\<lambda>t. (tseq [
       emit '' '',
       ttime (tr_creation t),
       emit '' ''])) (emit []))),
     emit ''</td>
	</tr>
	<tr>
        <th>CallsStarted</th>
        <td>'',
     need (resp_server d) (\<lambda>c. need (sv_data c) (\<lambda>x. tint (sd_calls_started x))),
     emit ''</td>
	</tr>
	<tr>
        <th>CallsSucceeded</th>
        <td>'',
     need (resp_server d) (\<lambda>c. need (sv_data c) (\<lambda>x. tint (sd_calls_succeeded x))),
     emit ''</td>
	</tr>
	<tr>
        <th>CallsFailed</th>
        <td>'',
     need (resp_server d) (\<lambda>c. need (sv_data c) (\<lambda>x. tint (sd_calls_failed x))),
     emit ''</td>
	</tr>
	<tr>
        <th>LastCallStartedTimestamp</th>
        <td>'',
     need (resp_server d) (\<lambda>c. need (sv_data c) (\<lambda>x. ttime (sd_last_call x))),
     emit ''</td>
	</tr>
	<tr>
		<th>Sockets</th>
		<td>
			'',
     need (resp_server d) (\<lambda>c. trange (sv_listen c) (\<lambda>r. (tseq [
       emit ''
				<a href="'',
       tlink pre [PStr ''socket'', PInt64 (cr_id r)],
       emit ''"><b>'',
       tint (cr_id r),
       emit ''</b> '',
       emit (cr_name r),
       emit ''</a> <br/>
			'']))),
     emit ''
		</td>
    </tr>
	'',
     need (resp_server d) (\<lambda>c. need (sv_data c) (\<lambda>x. twith (sd_trace x) (\<lambda>t. (tseq [
       emit ''
		<tr>
			<th>Events</th>
			<td>
				<pre>'',
       trange (tr_events t) (\<lambda>e. (tseq [
         emit ''
'',
         emit (show_severity pr (ev_severity e)),
         emit '' ['',
         ttime (ev_timestamp e),
         emit '']: '',
         emit (ev_description e)])),
       emit ''</pre>
			</td>
		</tr>
	''])) (emit []))),
     emit ''
</table>
''])\<close>

definition socketTemplate :: "'sec printers \<Rightarrow> 'sec socket_response \<Rightarrow> rendered" where
  \<open>socketTemplate pr d =
     (tseq [
     emit ''
<table frame=box cellspacing=0 cellpadding=2 class="vertical">
    <tr>
		<th>SocketId</th>
        <td>
			'',
     need (resp_socket d) (\<lambda>c. need (so_ref c) (\<lambda>x. tint (cr_id x))),
     emit ''
		</td>
	</tr>
	<tr>
		<th>Socket Name</th>
        <td>
			'',
     need (resp_socket d) (\<lambda>c. need (so_ref c) (\<lambda>x. emit (cr_name x))),
     emit ''
		</td>
	</tr>
	<tr>
		<th>Socket Local -> Remote</th>
        <td>
			<pre>'',
     need (resp_socket d) (\<lambda>c. emit (formatAddress (so_local c))),
     emit '' -> '',
     need (resp_socket d) (\<lambda>c. emit (formatAddress (so_remote c))),
     emit '' '',
     need (resp_socket d) (\<lambda>c. tif (so_remote_name c \<noteq> []) (tseq [
       emit ''('',
       emit (so_remote_name c),
       emit '')'']) (emit [])),
     emit ''</pre>
		</td>
	</tr>
	<tr>
		<th>StreamsStarted</th>
		<td>'',
     need (resp_socket d) (\<lambda>c. need (so_data c) (\<lambda>x. tint (sk_streams_started x))),
     emit ''</td>
	</tr>
	<tr>
		<th>StreamsSucceeded</th>
		<td>'',
     need (resp_socket d) (\<lambda>c. need (so_data c) (\<lambda>x. tint (sk_streams_succeeded x))),
     emit ''</td>
	</tr>
	<tr>
		<th>StreamsFailed</th>
		<td>'',
     need (resp_socket d) (\<lambda>c. need (so_data c) (\<lambda>x. tint (sk_streams_failed x))),
     emit ''</td>
	</tr>
	<tr>
		<th>MessagesSent</th>
		<td>'',
     need (resp_socket d) (\<lambda>c. need (so_data c) (\<lambda>x. tint (sk_messages_sent x))),
     emit ''</td>
	</tr>
	<tr>
		<th>MessagesReceived</th>
		<td>'',
     need (resp_socket d) (\<lambda>c. need (so_data c) (\<lambda>x. tint (sk_messages_received x))),
     emit ''</td>
	</tr>
	<tr>
		<th>KeepAlivesSent</th>
		<td>'',
     need (resp_socket d) (\<lambda>c. need (so_data c) (\<lambda>x. tint (sk_keep_alives_sent x))),
     emit ''</td>
	</tr>
	<tr>
		<th>LastLocalStreamCreated</th>
		<td>'',
     need (resp_socket d) (\<lambda>c. need (so_data c) (\<lambda>x. ttime (sk_last_local_stream x))),
     emit ''</td>
	</tr>
	<tr>
		<th>LastRemoteStreamCreated</th>
		<td>'',
     need (resp_socket d) (\<lambda>c. need (so_data c) (\<lambda>x. ttime (sk_last_remote_stream x))),
     emit ''</td>
	</tr>
	<tr>
		<th>LastMessageSent</th>
		<td>'',
     need (resp_socket d) (\<lambda>c. need (so_data c) (\<lambda>x. ttime (sk_last_sent x))),
     emit ''</td>
	</tr>
	<tr>
		<th>LastMessageReceived</th>
		<td>'',
     need (resp_socket d) (\<lambda>c. need (so_data c) (\<lambda>x. ttime (sk_last_received x))),
     emit ''</td>
	</tr>
	<tr>
		<th>LocalFlowControlWindow</th>
		<td>'',
     need (resp_socket d) (\<lambda>c. need (so_data c) (\<lambda>x. need (sk_local_window x) tint)),
     emit ''</td>
	</tr>
	<tr>
		<th>RemoteFlowControlWindow</th>
		<td>'',
     need (resp_socket d) (\<lambda>c. need (so_data c) (\<lambda>x. need (sk_remote_window x) tint)),
     emit ''</td>
	</tr>
	<tr>
		<th>Options</th>
		<td>
			'',
     need (resp_socket d) (\<lambda>c. need (so_data c) (\<lambda>x. trange (sk_options x) (\<lambda>p. (tseq [
       emit ''
				'',
       emit (so_name p),
       emit '': '',
       emit (so_value p),
       emit '' '',
       twith (so_additional p) (\<lambda>a. (tseq [
         emit ''('',
         emit (show_any pr a),
         emit '')''])) (emit []),
       emit ''<br/>
			''])))),
     emit ''
		</td>
	</tr>
	<tr>
		<th>Security</th>
		<td>'',
     need (resp_socket d) (\<lambda>c. emit (show_security pr (so_security c))),
     emit ''</td>
    </tr>
</table>
''])\<close>

section \<open>Writers\<close>

definition executed :: "('a \<Rightarrow> rendered) \<Rightarrow> 'a option \<Rightarrow> gostring" where
  "executed tmpl data = (case data of None \<Rightarrow> writeUnavailable | Some d \<Rightarrow> fst (tmpl d))"

definition framed :: "gostring \<Rightarrow> gostring \<Rightarrow> gostring" where
  "framed title body = writeHeader title @ body @ writeFooter"

definition WriteChannelPage where
  "WriteChannelPage gd rpc pre pr s channel =
     (case getChannel gd rpc s channel of (s', r) \<Rightarrow>
       (s', map_outcome (\<lambda>data. framed (''ChannelZ channel '' @ formatInt channel) (executed (channelTemplate pre pr) data)) r))"

definition WriteSubchannelPage where
  "WriteSubchannelPage gd rpc pre pr s subchannel =
     (case getSubchannel gd rpc s subchannel of (s', r) \<Rightarrow>
       (s', map_outcome (\<lambda>data. framed (''ChannelZ subchannel '' @ formatInt subchannel)
          (executed (subChannelTemplate pre pr) data)) r))"

definition WriteServerPage where
  "WriteServerPage gd rpc pre pr s server =
     (case getServer gd rpc s server of (s', r) \<Rightarrow>
       (s', map_outcome (\<lambda>data. framed (''ChannelZ server '' @ formatInt server) (executed (serverTemplate pre pr) data)) r))"

definition WriteSocketPage where
  "WriteSocketPage gd rpc pr s socket =
     (case getSocket gd rpc s socket of (s', r) \<Rightarrow>
       (s', map_outcome (\<lambda>data. framed (''ChannelZ socket '' @ formatInt socket) (executed (socketTemplate pr) data)) r))"

definition writeChannels where
  "writeChannels gd rpc pre pr s start =
     (case getTopChannels gd rpc s start of (s', r) \<Rightarrow> (s', map_outcome (executed (channelsTemplate pre pr)) r))"

definition writeServers where
  "writeServers gd rpc pre pr s =
     (case getServers gd rpc s of (s', r) \<Rightarrow> (s', map_outcome (executed (serversTemplate pre pr)) r))"

definition WriteChannelsPage where
  "WriteChannelsPage gd rpc pre pr s start =
     (case writeChannels gd rpc pre pr s start of (s', r) \<Rightarrow> (s', map_outcome (framed ''Channels'') r))"

definition WriteTopChannelsPage where
  "WriteTopChannelsPage gd rpc pre pr s =
     (case writeChannels gd rpc pre pr s 0 of
        (s1, Panic) \<Rightarrow> (s1, Panic)
      | (s1, Ret channels) \<Rightarrow>
          (case writeServers gd rpc pre pr s1 of (s2, r) \<Rightarrow>
            (s2, map_outcome (\<lambda>servers. framed ''ChannelZ Stats'' (channels @ servers)) r)))"

section \<open>When a template reaches its end\<close>

definition complete_channel :: "channel_msg \<Rightarrow> bool" where
  "complete_channel c \<longleftrightarrow> ch_ref c \<noteq> None \<and> (\<exists>x. ch_data c = Some x \<and> cd_trace x \<noteq> None)"

definition complete_subchannel :: "subchannel_msg \<Rightarrow> bool" where
  "complete_subchannel c \<longleftrightarrow> sub_ref c \<noteq> None \<and> (\<exists>x. sub_data c = Some x \<and> cd_trace x \<noteq> None)"

definition complete_socket :: "'sec socket_msg \<Rightarrow> bool" where
  "complete_socket c \<longleftrightarrow> so_ref c \<noteq> None \<and>
     (\<exists>x. so_data c = Some x \<and> sk_local_window x \<noteq> None \<and> sk_remote_window x \<noteq> None)"

lemma channelTemplate_finishes:
  "snd (channelTemplate pre pr d) \<longleftrightarrow> (\<exists>c. resp_channel d = Some c \<and> complete_channel c)"
  by (cases "resp_channel d") (auto simp: channelTemplate_def complete_channel_def finishes)

lemma subChannelTemplate_finishes:
  "snd (subChannelTemplate pre pr d) \<longleftrightarrow> (\<exists>c. resp_subchannel d = Some c \<and> complete_subchannel c)"
  by (cases "resp_subchannel d") (auto simp: subChannelTemplate_def complete_subchannel_def finishes)

lemma channel_body_finishes: "snd (channel_body pre pr c) \<longleftrightarrow> complete_channel c"
  by (auto simp: channel_body_def complete_channel_def finishes)

lemma last_start_finishes:
  "snd (last_start d) \<longleftrightarrow> top_channels d \<noteq> [] \<and> ch_ref (last (top_channels d)) \<noteq> None"
  by (auto simp: last_start_def finishes)

lemma next_line_finishes: "snd (next_line pre d) \<longleftrightarrow> snd (last_start d)"
  by (simp add: next_line_def finishes)

lemma channelsTemplate_finishes:
  "snd (channelsTemplate pre pr d) \<longleftrightarrow>
     (\<forall>c\<in>set (top_channels d). complete_channel c) \<and> (top_channels d = [] \<longrightarrow> top_end d)"
  by (auto simp: channelsTemplate_def finishes channel_body_finishes next_line_finishes last_start_finishes complete_channel_def)

lemma server_body_finishes: "snd (server_body pre pr c) \<longleftrightarrow> sv_ref c \<noteq> None \<and> sv_data c \<noteq> None"
  by (auto simp: server_body_def finishes split: option.splits)

lemma serversTemplate_finishes:
  "snd (serversTemplate pre pr d) \<longleftrightarrow> (\<forall>c\<in>set (resp_servers d). sv_ref c \<noteq> None \<and> sv_data c \<noteq> None)"
  by (auto simp: serversTemplate_def finishes server_body_finishes)

lemma serverTemplate_finishes:
  "snd (serverTemplate pre pr d) \<longleftrightarrow> (\<exists>c. resp_server d = Some c \<and> sv_ref c \<noteq> None \<and> sv_data c \<noteq> None)"
  by (cases "resp_server d") (auto simp: serverTemplate_def finishes split: option.splits)

lemma socketTemplate_finishes:
  "snd (socketTemplate pr d) \<longleftrightarrow> (\<exists>c. resp_socket d = Some c \<and> complete_socket c)"
  by (cases "resp_socket d") (auto simp: socketTemplate_def complete_socket_def finishes split: option.splits)

text \<open>
  C29. Which answers of a server cut a page short: the template of a channel or subchannel reaches its
  end exactly when reference, data and trace are there, that of a list of channels when they are there
  for each channel and an empty list is marked as the end, those of servers without regard to the
  trace, and that of a socket when both flow control windows are there.
\<close>

theorem templates_finish:
  "(snd (channelTemplate pre pr d) \<longleftrightarrow> (\<exists>c. resp_channel d = Some c \<and> complete_channel c)) \<and>
   (snd (subChannelTemplate pre pr sub) \<longleftrightarrow> (\<exists>c. resp_subchannel sub = Some c \<and> complete_subchannel c)) \<and>
   (snd (channelsTemplate pre pr tops) \<longleftrightarrow>
     (\<forall>c\<in>set (top_channels tops). complete_channel c) \<and> \<not> (top_channels tops = [] \<and> \<not> top_end tops)) \<and>
   (snd (serverTemplate pre pr srv) \<longleftrightarrow> (\<exists>c. resp_server srv = Some c \<and> sv_ref c \<noteq> None \<and> sv_data c \<noteq> None)) \<and>
   (snd (serversTemplate pre pr srvs) \<longleftrightarrow> (\<forall>c\<in>set (resp_servers srvs). sv_ref c \<noteq> None \<and> sv_data c \<noteq> None)) \<and>
   (snd (socketTemplate pr' sock) \<longleftrightarrow> (\<exists>c. resp_socket sock = Some c \<and> complete_socket c))"
  by (simp add: channelTemplate_finishes subChannelTemplate_finishes channelsTemplate_finishes
      serverTemplate_finishes serversTemplate_finishes socketTemplate_finishes)

text \<open>Printers that print nothing, for concrete pages.\<close>

definition sample_printers :: "unit printers" where
  "sample_printers = \<lparr>show_state = (\<lambda>_. []), show_severity = (\<lambda>_. []), show_discovery = (\<lambda>_. []),
     show_health = (\<lambda>_. []), show_any = (\<lambda>_. []), show_security = (\<lambda>_. [])\<rparr>"

theorem templates_finish_witness:
  "\<not> snd (channelsTemplate ''/channelz/'' sample_printers \<lparr>top_channels = [], top_end = False\<rparr>) \<and>
   snd (serversTemplate ''/channelz/'' sample_printers \<lparr>resp_servers = [\<lparr>sv_ref = Some \<lparr>cr_id = 1, cr_name = []\<rparr>,
     sv_data = Some \<lparr>sd_trace = None, sd_calls_started = 0, sd_calls_succeeded = 0, sd_calls_failed = 0,
     sd_last_call = None\<rparr>, sv_listen = []\<rparr>]\<rparr>)"
  by (simp add: templates_finish [THEN conjunct2, THEN conjunct2, THEN conjunct1]
      templates_finish [THEN conjunct2, THEN conjunct2, THEN conjunct2, THEN conjunct2, THEN conjunct1])

end
