(* ===== verification/Subchannels.thy ===== *)
theory Subchannels
  imports Proto
begin

text \<open>
  \<^verbatim>\<open>subchannelsByAddress\<close> (\<^verbatim>\<open>xds-cluster-page.go\<close>) as a function: the subchannels of a channel, fetched
  one RPC each, as a map from address to subchannel ids and a map from sid to what is shown of it.
  The workers deliver their results in any order; the order is an argument (\<open>arrival\<close>), and the
  theory \<open>WorkerPool\<close> shows that every run of the worker pool is such an order.
\<close>

record subchannelInfo =
  si_Name :: gostring
  si_Target :: gostring
  si_State :: gostring
  si_CallsStarted :: int64
  si_CallsSucceeded :: int64
  si_CallsFailed :: int64
  si_SocketIDs :: "int64 list"

type_synonym result = "int64 \<times> subchannelInfo"
type_synonym addr_map = "(gostring, int64 list) gomap"
type_synonym info_map = "(int64, subchannelInfo) gomap"

definition subchannel_info :: "'m proto_lib \<Rightarrow> subchannel_msg \<Rightarrow> subchannelInfo" where
  "subchannel_info lib s =
     \<lparr>si_Name = ref_name (sub_ref s),
      si_Target = data_target (sub_data s),
      si_State = connectivity_name lib (opt 0 id (opt None cd_state (sub_data s))),
      si_CallsStarted = opt 0 cd_calls_started (sub_data s),
      si_CallsSucceeded = opt 0 cd_calls_succeeded (sub_data s),
      si_CallsFailed = opt 0 cd_calls_failed (sub_data s),
      si_SocketIDs = map cr_id (sub_sockets s)\<rparr>"

text \<open>The body of a worker's loop: what it delivers for one id, if anything. \<open>sub\<close> is the answer of
  \<^verbatim>\<open>h.getSubchannel\<close>, nil where it failed.\<close>

definition fetch_info :: "'m proto_lib \<Rightarrow> (int64 \<Rightarrow> subchannel_response option) \<Rightarrow> int64 \<Rightarrow> result option" where
  "fetch_info lib sub sid =
     (case sub sid of
        None \<Rightarrow> None
      | Some resp \<Rightarrow>
          (case resp_subchannel resp of
             None \<Rightarrow> None
           | Some s \<Rightarrow> Some (ref_id (sub_ref s), subchannel_info lib s)))"

definition add_result :: "result \<Rightarrow> addr_map \<times> info_map \<Rightarrow> addr_map \<times> info_map" where
  "add_result r m =
     (gm_append (si_Target (snd r)) (fst r) (fst m), gm_set (fst r) (snd r) (snd m))"

definition sort_addr_map :: "addr_map \<Rightarrow> addr_map" where
  "sort_addr_map m = map (\<lambda>(addr, ids). (addr, sort_slice id_less ids)) m"

definition collect_results :: "result list \<Rightarrow> addr_map \<times> info_map" where
  "collect_results rs = (let (byAddr, info) = fold add_result rs (gm_empty, gm_empty)
     in (sort_addr_map byAddr, info))"

definition channel_refs :: "channel_response option \<Rightarrow> channel_ref list" where
  "channel_refs ch =
     (case ch of None \<Rightarrow> [] | Some resp \<Rightarrow> (case resp_channel resp of None \<Rightarrow> [] | Some c \<Rightarrow> ch_subchannels c))"

definition delivered :: "'m proto_lib \<Rightarrow> (int64 \<Rightarrow> subchannel_response option) \<Rightarrow> channel_ref list \<Rightarrow> result list" where
  "delivered lib sub refs = List.map_filter (\<lambda>r. fetch_info lib sub (cr_id r)) refs"

definition subchannelsByAddress ::
  "'m proto_lib \<Rightarrow> (result list \<Rightarrow> result list) \<Rightarrow> channel_response option \<Rightarrow>
     (int64 \<Rightarrow> subchannel_response option) \<Rightarrow> addr_map \<times> info_map" where
  "subchannelsByAddress lib arrival ch sub =
     (case ch of
        None \<Rightarrow> (gm_empty, gm_empty)
      | Some resp \<Rightarrow>
          (case resp_channel resp of
             None \<Rightarrow> (gm_empty, gm_empty)
           | Some c \<Rightarrow> collect_results (arrival (delivered lib sub (ch_subchannels c)))))"

section \<open>What the two maps hold\<close>

lemma fold_add_result:
  "fold add_result rs (a, i) =
     (group_by (\<lambda>r. si_Target (snd r)) fst rs a, gm.put_all rs i)"
  by (induction rs arbitrary: a i)
    (auto simp: add_result_def group_by_def gm.put_all_def split: prod.splits)

lemma gm_get_sort_addr_map: "gm_get (sort_addr_map m) a = map_option (sort_slice id_less) (gm_get m a)"
  by (induction m) (auto simp: sort_addr_map_def gm_get_def)

lemma gm_wf_sort_addr_map: "gm_wf (sort_addr_map m) = gm_wf m"
  by (simp add: gm_wf_def sort_addr_map_def comp_def case_prod_beta)

lemma collect_results_eq:
  "collect_results rs =
     (sort_addr_map (group_by (\<lambda>r. si_Target (snd r)) fst rs gm_empty), gm.put_all rs gm_empty)"
  by (simp add: collect_results_def fold_add_result)

lemma collect_results_wf: "gm_wf (fst (collect_results rs))" "gm_wf (snd (collect_results rs))"
  by (simp_all add: collect_results_eq gm_wf_sort_addr_map gm_wf_group_by gm.wf_put_all gm.wf_empty)

lemma collect_results_addr:
  "gm_get (fst (collect_results rs)) a =
     (if a \<in> (\<lambda>r. si_Target (snd r)) ` set rs
      then Some (sort_slice id_less (map fst (filter (\<lambda>r. si_Target (snd r) = a) rs))) else None)"
  by (simp add: collect_results_eq gm_get_sort_addr_map gm_get_group_by gm.get_empty gm_slice_def)

lemma collect_results_info: "gm_get (snd (collect_results rs)) sid = map_of (rev rs) sid"
  by (simp add: collect_results_eq gm.get_built)

lemma subchannelsByAddress_collect:
  "subchannelsByAddress lib arrival ch sub =
     (if ch = None \<or> ch = Some \<lparr>resp_channel = None\<rparr> then (gm_empty, gm_empty)
      else collect_results (arrival (delivered lib sub (channel_refs ch))))"
  by (auto simp: subchannelsByAddress_def channel_refs_def split: option.splits)

lemma fair_order_Nil [simp]: "fair_order f \<Longrightarrow> f [] = []"
  by (metis fair_order_mset mset_zero_iff)

lemma subchannelsByAddress_fair:
  assumes "fair_order arrival"
  shows "subchannelsByAddress lib arrival ch sub = collect_results (arrival (delivered lib sub (channel_refs ch)))"
  using assms by (auto simp: subchannelsByAddress_collect channel_refs_def delivered_def
      collect_results_def sort_addr_map_def gm_empty_def List.map_filter_simps)

text \<open>
  The order of arrival does not show: the address map always holds the sorted ids of the delivered
  subchannels of that address.
\<close>

lemma addr_map_order_free:
  assumes "mset rs = mset rs'"
  shows "gm_get (fst (collect_results rs)) a = gm_get (fst (collect_results rs')) a"
proof -
  have "set rs = set rs'" using assms by (metis set_mset_mset)
  moreover have "mset (map fst (filter (\<lambda>r. si_Target (snd r) = a) rs)) =
      mset (map fst (filter (\<lambda>r. si_Target (snd r) = a) rs'))"
    using assms by simp
  ultimately show ?thesis
    by (simp add: collect_results_addr sort_ids_cong)
qed

text \<open>
  The info map is independent of the order when no two delivered results disagree about an id, which
  holds when the server answers with the subchannel it was asked for.
\<close>

definition consistent :: "result list \<Rightarrow> bool" where
  "consistent rs \<longleftrightarrow> (\<forall>r\<in>set rs. \<forall>r'\<in>set rs. fst r = fst r' \<longrightarrow> r = r')"

lemma consistentD: "consistent rs \<Longrightarrow> (k, v) \<in> set rs \<Longrightarrow> (k, v') \<in> set rs \<Longrightarrow> v = v'"
  by (fastforce simp: consistent_def)

lemma map_of_consistent:
  assumes "consistent rs"
  shows "map_of rs sid = Some i \<longleftrightarrow> (sid, i) \<in> set rs"
proof
  assume "(sid, i) \<in> set rs"
  moreover from this obtain i' where "map_of rs sid = Some i'"
    by (metis (mono_tags) fst_conv map_of_eq_None_iff not_None_eq rev_image_eqI)
  ultimately show "map_of rs sid = Some i"
    using assms by (auto dest!: map_of_SomeD dest: consistentD)
qed (rule map_of_SomeD)

lemma info_map_order_free:
  assumes "mset rs = mset rs'" and "consistent rs"
  shows "gm_get (snd (collect_results rs)) sid = gm_get (snd (collect_results rs')) sid"
proof -
  have set: "set rs = set rs'" using assms(1) by (metis set_mset_mset)
  have "consistent (rev rs)" "consistent (rev rs')"
    using assms(2) set by (auto simp: consistent_def)
  then show ?thesis
    using set map_of_consistent [of "rev rs" sid] map_of_consistent [of "rev rs'" sid]
    by (cases "map_of (rev rs) sid"; cases "map_of (rev rs') sid") (auto simp: collect_results_info)
qed

definition honest_server :: "'m proto_lib \<Rightarrow> (int64 \<Rightarrow> subchannel_response option) \<Rightarrow> bool" where
  "honest_server lib sub \<longleftrightarrow> (\<forall>sid r. fetch_info lib sub sid = Some r \<longrightarrow> fst r = sid)"

lemma map_filter_mem: "y \<in> set (List.map_filter f xs) \<longleftrightarrow> (\<exists>x\<in>set xs. f x = Some y)"
  by (auto simp: List.map_filter_def comp_def) force

lemma delivered_mem:
  "r \<in> set (delivered lib sub refs) \<longleftrightarrow> (\<exists>ref\<in>set refs. fetch_info lib sub (cr_id ref) = Some r)"
  by (simp add: delivered_def map_filter_mem)

lemma honest_consistent:
  assumes "honest_server lib sub"
  shows "consistent (delivered lib sub refs)"
  unfolding consistent_def
proof (intro ballI impI)
  have ids: "fetch_info lib sub (fst r) = Some r" if r: "r \<in> set (delivered lib sub refs)" for r
  proof -
    obtain ref :: channel_ref where f: "fetch_info lib sub (cr_id ref) = Some r"
      using r unfolding delivered_mem by blast
    then have "fst r = cr_id ref" using assms unfolding honest_server_def by blast
    then show ?thesis using f by simp
  qed
  fix r r' assume "r \<in> set (delivered lib sub refs)" "r' \<in> set (delivered lib sub refs)" "fst r = fst r'"
  with ids [of r] ids [of r'] show "r = r'" by (metis option.inject)
qed

text \<open>Every id of the address map has an entry in the info map, with that address.\<close>

definition maps_agree :: "addr_map \<Rightarrow> info_map \<Rightarrow> bool" where
  "maps_agree byAddr info \<longleftrightarrow>
     (\<forall>a sid. sid \<in> set (gm_slice byAddr a) \<longleftrightarrow> (\<exists>i. gm_get info sid = Some i \<and> si_Target i = a))"

lemma collect_results_agree:
  assumes "consistent rs"
  shows "maps_agree (fst (collect_results rs)) (snd (collect_results rs))"
proof -
  have con: "consistent (rev rs)" using assms by (simp add: consistent_def)
  have mem: "sid \<in> set (gm_slice (fst (collect_results rs)) a) \<longleftrightarrow> (\<exists>i. (sid, i) \<in> set rs \<and> si_Target i = a)" for sid a
    by (force simp: gm_slice_def collect_results_addr split: option.splits if_splits)
  show ?thesis
    by (simp add: maps_agree_def mem collect_results_info map_of_consistent [OF con])
qed

end
