(* ===== verification/Pools.thy ===== *)
theory Pools
  imports Subchannels Xds
begin

text \<open>
  \<^verbatim>\<open>pool-page.go\<close>: subchannels of a channel grouped by remote address, the members of one such pool
  and the stream limit its cluster configures. Rows are computed by range loops over maps, whose
  order is an argument, and then sorted.
\<close>

section \<open>max_concurrent_streams\<close>

definition httpOptionsKey :: gostring where
  "httpOptionsKey = ''envoy.extensions.upstreams.http.v3.HttpProtocolOptions''"

definition clusterMaxConcurrentStreams :: "'m proto_lib \<Rightarrow> cluster_msg option \<Rightarrow> uint32 \<times> bool" where
  "clusterMaxConcurrentStreams lib c =
     (case c of
        None \<Rightarrow> (0, False)
      | Some cl \<Rightarrow>
          let modern =
            (case gm_get (cluster_protocol_options cl) httpOptionsKey of
               Some (Some tepo) \<Rightarrow>
                 (case unmarshal_http_options lib tepo of
                    Some opts \<Rightarrow>
                      let h2 = opt None hc_http2 (explicit_http_config opts);
                          h2 = (if h2 = None then opt None hc_http2 (use_downstream_protocol_config opts) else h2)
                      in opt None max_concurrent_streams h2
                  | None \<Rightarrow> None)
             | _ \<Rightarrow> None)
          in case modern of
               Some v \<Rightarrow> (v, True)
             | None \<Rightarrow>
                 (case opt None max_concurrent_streams (cluster_http2_options cl) of
                    Some v \<Rightarrow> (v, True)
                  | None \<Rightarrow> (0, False)))"

section \<open>Pool rows\<close>

record poolRow =
  pr_Address :: gostring
  pr_Count :: nat
  pr_SubchannelIDs :: "int64 list"
  pr_CallsStarted :: int64
  pr_CallsSucceeded :: int64
  pr_CallsFailed :: int64

definition zero_info :: subchannelInfo where
  "zero_info = \<lparr>si_Name = [], si_Target = [], si_State = [], si_CallsStarted = 0,
     si_CallsSucceeded = 0, si_CallsFailed = 0, si_SocketIDs = []\<rparr>"

text \<open>\<^verbatim>\<open>info[id]\<close>: the zero value where the key is missing.\<close>

definition info_at :: "info_map \<Rightarrow> int64 \<Rightarrow> subchannelInfo" where
  "info_at info sid = (case gm_get info sid of None \<Rightarrow> zero_info | Some i \<Rightarrow> i)"

definition pool_row :: "info_map \<Rightarrow> gostring \<times> int64 list \<Rightarrow> poolRow" where
  "pool_row info entry =
     (let (addr, ids) = entry in
      \<lparr>pr_Address = addr, pr_Count = length ids, pr_SubchannelIDs = ids,
       pr_CallsStarted = sum_list (map (\<lambda>i. si_CallsStarted (info_at info i)) ids),
       pr_CallsSucceeded = sum_list (map (\<lambda>i. si_CallsSucceeded (info_at info i)) ids),
       pr_CallsFailed = sum_list (map (\<lambda>i. si_CallsFailed (info_at info i)) ids)\<rparr>)"

text \<open>Largest pools first, then by address.\<close>

definition pool_less :: "poolRow \<Rightarrow> poolRow \<Rightarrow> bool" where
  "pool_less a b =
     (if pr_Count a \<noteq> pr_Count b then pr_Count a > pr_Count b else pr_Address a < pr_Address b)"

interpretation pool_order: slice_order pool_less
  by unfold_locales (auto simp: pool_less_def split: if_splits)

section \<open>The page of all pools\<close>

record poolsPageData =
  pp_ChannelID :: int64
  pp_Pools :: "poolRow list"

definition subchannelPools ::
  "(gostring, int64 list) range_order \<Rightarrow> addr_map \<times> info_map \<Rightarrow> int64 \<Rightarrow> poolsPageData" where
  "subchannelPools ord maps channelID =
     (let (byAddr, info) = maps in
      \<lparr>pp_ChannelID = channelID, pp_Pools = sort_slice pool_less (map (pool_row info) (ord byAddr))\<rparr>)"

section \<open>The page of one pool\<close>

record poolMemberRow =
  pm_SubchannelID :: int64
  pm_Name :: gostring
  pm_State :: gostring
  pm_CallsStarted :: int64
  pm_CallsSucceeded :: int64
  pm_CallsFailed :: int64
  pm_SocketIDs :: "int64 list"

record poolDetailPageData =
  pd_ChannelID :: int64
  pd_Address :: gostring
  pd_ClusterName :: gostring
  pd_MaxConcurrentStreams :: uint32
  pd_MaxConcurrentStreamsSet :: bool
  pd_Members :: "poolMemberRow list"

definition member_row :: "int64 \<Rightarrow> subchannelInfo \<Rightarrow> poolMemberRow" where
  "member_row sid si =
     \<lparr>pm_SubchannelID = sid, pm_Name = si_Name si, pm_State = si_State si,
      pm_CallsStarted = si_CallsStarted si, pm_CallsSucceeded = si_CallsSucceeded si,
      pm_CallsFailed = si_CallsFailed si, pm_SocketIDs = si_SocketIDs si\<rparr>"

definition member_less :: "poolMemberRow \<Rightarrow> poolMemberRow \<Rightarrow> bool" where
  "member_less a b \<longleftrightarrow> id_less (pm_SubchannelID a) (pm_SubchannelID b)"

interpretation member_order: slice_order member_less
  by unfold_locales (auto simp: member_less_def id_less_def)

text \<open>The limits shown for a cluster: unset without a cluster name, a dump or the cluster.\<close>

definition pool_stream_limit ::
  "'m proto_lib \<Rightarrow> (gostring + 'n client_config option) \<Rightarrow> gostring \<Rightarrow> uint32 \<times> bool" where
  "pool_stream_limit lib cfg clusterName =
     (if clusterName = [] then (0, False)
      else case cfg of
             Inl err \<Rightarrow> (0, False)
           | Inr c \<Rightarrow> clusterMaxConcurrentStreams lib (gm_get (clusters (newXdsResources lib c)) clusterName))"

definition subchannelPool ::
  "'m proto_lib \<Rightarrow> (gostring + 'n client_config option) \<Rightarrow> addr_map \<times> info_map \<Rightarrow>
     int64 \<Rightarrow> gostring \<Rightarrow> gostring \<Rightarrow> poolDetailPageData" where
  "subchannelPool lib cfg maps channelID address clusterName =
     (let (byAddr, info) = maps;
          (v, set) = pool_stream_limit lib cfg clusterName;
          members = List.map_filter (\<lambda>i. map_option (member_row i) (gm_get info i)) (gm_slice byAddr address)
      in \<lparr>pd_ChannelID = channelID, pd_Address = address, pd_ClusterName = clusterName,
          pd_MaxConcurrentStreams = v, pd_MaxConcurrentStreamsSet = set,
          pd_Members = sort_slice member_less members\<rparr>)"

section \<open>Lemmas\<close>

lemma pool_row_simps [simp]:
  "pr_Address (pool_row info e) = fst e" "pr_Count (pool_row info e) = length (snd e)"
  "pr_SubchannelIDs (pool_row info e) = snd e"
  by (simp_all add: pool_row_def split_beta)

lemma pool_rows_decides:
  assumes "gm_wf m"
  shows "decides pool_less (map (pool_row info) m)"
  unfolding decides_def
proof (intro ballI impI)
  fix x y assume xy: "x \<in> set (map (pool_row info) m)" "y \<in> set (map (pool_row info) m)" "x \<noteq> y"
  then obtain e f where ef: "x = pool_row info e" "e \<in> set m" "y = pool_row info f" "f \<in> set m" by auto
  with xy(3) have "e \<noteq> f" by auto
  with ef assms have "fst e \<noteq> fst f"
    by (metis eq_key_imp_eq_value gm_wf_def prod.collapse)
  then show "pool_less x y \<or> pool_less y x"
    by (auto simp: ef pool_less_def)
qed

text \<open>The sorted rows depend on the lookups of the map only, not on how it was visited.\<close>

lemma sorted_pool_rows_cong:
  assumes "fair_order ord" and "fair_order ord'" and "gm_wf m" and "gm_wf m'"
    and "\<And>a. gm_get m a = gm_get m' a"
    and "\<And>a ids i. gm_get m a = Some ids \<Longrightarrow> i \<in> set ids \<Longrightarrow> info_at info i = info_at info' i"
  shows "sort_slice pool_less (map (pool_row info) (ord m)) = sort_slice pool_less (map (pool_row info') (ord' m'))"
proof (rule pool_order.sort_slice_mset_cong)
  have same: "pool_row info e = pool_row info' e" if "e \<in> set m" for e
  proof -
    obtain a ids where e: "e = (a, ids)" by (cases e)
    then have "gm_get m a = Some ids" using that assms(3) by (simp add: gm_entries_iff)
    then have "\<forall>i\<in>set ids. info_at info i = info_at info' i" using assms(6) by blast
    then show ?thesis by (simp add: pool_row_def e cong: map_cong)
  qed
  have "mset (map (pool_row info) (ord m)) = image_mset (pool_row info) (mset m)"
    using assms(1) by simp
  also have "\<dots> = image_mset (pool_row info') (mset m)"
    using same by (intro image_mset_cong) simp
  also have "\<dots> = image_mset (pool_row info') (mset m')"
    using gm_mset_eqI [OF assms(3,4,5)] by simp
  also have "\<dots> = mset (map (pool_row info') (ord' m'))"
    using assms(2) by simp
  finally show "mset (map (pool_row info) (ord m)) = mset (map (pool_row info') (ord' m'))" .
  have "decides pool_less (map (pool_row info) m)" using assms(3) by (rule pool_rows_decides)
  then show "decides pool_less (map (pool_row info) (ord m))"
    using assms(1) by (auto simp: decides_def)
qed

text \<open>Every entry of the map is one row, and the call counts of the rows add up.\<close>

lemma pool_rows_entries:
  assumes "fair_order ord"
  shows "mset (map (\<lambda>r. (pr_Address r, pr_SubchannelIDs r)) (sort_slice pool_less (map (pool_row info) (ord m)))) = mset m"
proof -
  have "mset (map (\<lambda>r. (pr_Address r, pr_SubchannelIDs r)) (sort_slice pool_less (map (pool_row info) (ord m))))
      = image_mset (\<lambda>r. (pr_Address r, pr_SubchannelIDs r)) (image_mset (pool_row info) (mset m))"
    using assms by simp
  also have "\<dots> = mset m" by (simp add: multiset.map_comp comp_def)
  finally show ?thesis .
qed

lemma sum_list_mset_cong:
  fixes f :: "'a \<Rightarrow> 'b::comm_monoid_add"
  assumes "mset xs = mset ys"
  shows "sum_list (map f xs) = sum_list (map f ys)"
  using assms by (metis mset_map sum_mset_sum_list)

lemma pool_rows_calls:
  assumes "fair_order ord"
  shows "sum_list (map pr_CallsStarted (sort_slice pool_less (map (pool_row info) (ord m)))) =
    sum_list (map (\<lambda>i. si_CallsStarted (info_at info i)) (concat (map snd m)))"
proof -
  have sum_concat: "sum_list (map f (concat xss)) = sum_list (map (\<lambda>xs. sum_list (map f xs)) xss)"
    for f :: "int64 \<Rightarrow> int64" and xss
    by (induction xss) auto
  have "sum_list (map pr_CallsStarted (sort_slice pool_less (map (pool_row info) (ord m)))) =
      sum_list (map pr_CallsStarted (map (pool_row info) m))"
    using assms by (intro sum_list_mset_cong) simp
  also have "\<dots> = sum_list (map (\<lambda>i. si_CallsStarted (info_at info i)) (concat (map snd m)))"
    by (simp add: sum_concat pool_row_def split_beta comp_def)
  finally show ?thesis .
qed

lemma id_less_linear: "i \<noteq> j \<Longrightarrow> id_less i j \<or> id_less j i"
  using id_less_decides [of "[i, j]"] by (simp add: decides_def)

lemma member_row_id [simp]: "pm_SubchannelID (member_row i si) = i"
  by (simp add: member_row_def)

lemma member_rows_decides: "decides member_less (List.map_filter (\<lambda>i. map_option (member_row i) (gm_get info i)) ids)"
  unfolding decides_def map_filter_mem
proof (intro ballI impI)
  fix x y
  assume "x \<in> set (List.map_filter (\<lambda>i. map_option (member_row i) (gm_get info i)) ids)"
    and "y \<in> set (List.map_filter (\<lambda>i. map_option (member_row i) (gm_get info i)) ids)" and "x \<noteq> y"
  then obtain i j si sj where "x = member_row i si" "gm_get info i = Some si"
      "y = member_row j sj" "gm_get info j = Some sj"
    by (auto simp: map_filter_mem)
  with \<open>x \<noteq> y\<close> have "i \<noteq> j" by auto
  then show "member_less x y \<or> member_less y x"
    unfolding member_less_def \<open>x = _\<close> \<open>y = _\<close> by (simp add: id_less_linear)
qed

end
