(* ===== verification/LbPolicy.thy ===== *)
theory LbPolicy
  imports Xds GoPath
begin

text \<open>
  The display name of a cluster's load balancing policy (\<^verbatim>\<open>xds-cluster-page.go\<close>): the first entry of
  the extensible policy list, with subset wrappers unwrapped to a depth of five, or else the name of
  the legacy enum.
\<close>

definition subsetLbTypeURL :: gostring where
  "subsetLbTypeURL = ''type.googleapis.com/envoy.extensions.load_balancing_policies.subset.v3.Subset''"

definition after_last :: "char \<Rightarrow> gostring \<Rightarrow> gostring" where
  "after_last c s = (case lastIndexByte s c of None \<Rightarrow> s | Some i \<Rightarrow> drop (i + 1) s)"

definition lbPolicyShortName :: "unicode_tables \<Rightarrow> gostring \<Rightarrow> gostring" where
  "lbPolicyShortName u typeURL =
     (let name = after_last CHR ''.'' (after_last CHR ''/'' typeURL)
      in concat (map (\<lambda>(i, r, bs). (if i > 0 \<and> isUpper u r then ''_'' else []) @ encodeRune (toUpper u r))
           (runes 0 name)))"

function describeLbPolicy :: "'m proto_lib \<Rightarrow> unicode_tables \<Rightarrow> any_msg option \<Rightarrow> nat \<Rightarrow> gostring" where
  "describeLbPolicy lib u cfg depth =
     (case cfg of
        None \<Rightarrow> []
      | Some c \<Rightarrow>
          if depth > 5 then []
          else if any_type_url c = subsetLbTypeURL then
            (case unmarshal_subset lib c of
               None \<Rightarrow> ''SUBSET''
             | Some sb \<Rightarrow>
                 (case policy_list (subset_lb_policy sb) of
                    [] \<Rightarrow> ''SUBSET''
                  | p # ps \<Rightarrow>
                      (let name = describeLbPolicy lib u (policy_config p) (depth + 1)
                       in if name \<noteq> [] then name else ''SUBSET'')))
          else lbPolicyShortName u (any_type_url c))"
  by pat_completeness auto
termination
  by (relation "measure (\<lambda>(lib, u, cfg, depth). 6 - depth)") auto

declare describeLbPolicy.simps [simp del]

definition formatLbPolicy :: "'m proto_lib \<Rightarrow> unicode_tables \<Rightarrow> cluster_msg \<Rightarrow> gostring" where
  "formatLbPolicy lib u cluster =
     (case policy_list (cluster_lb_config cluster) of
        [] \<Rightarrow> lb_policy_name lib (cluster_lb_policy cluster)
      | p # ps \<Rightarrow>
          (let name = describeLbPolicy lib u (policy_config p) 0
           in if name \<noteq> [] then name else lb_policy_name lib (cluster_lb_policy cluster)))"

section \<open>Short names\<close>

lemma after_last_append: "c \<notin> set v \<Longrightarrow> after_last c (u @ c # v) = v"
  by (simp add: after_last_def lastIndexByte_append)

lemma after_last_none: "c \<notin> set s \<Longrightarrow> after_last c s = s"
  using lastIndexByte_None [of s c] by (simp add: after_last_def del: lastIndexByte_None)

definition ascii :: "gostring \<Rightarrow> bool" where
  "ascii s \<longleftrightarrow> (\<forall>c\<in>set s. byte c < 128)"

definition ascii_upper :: "char \<Rightarrow> char" where
  "ascii_upper c = (if 97 \<le> byte c \<and> byte c \<le> 122 then char_of (byte c - 32) else c)"

definition is_upper_char :: "char \<Rightarrow> bool" where
  "is_upper_char c \<longleftrightarrow> 65 \<le> byte c \<and> byte c \<le> 90"

text \<open>The words of a camel-case name: a capital letter opens one.\<close>

definition extend_first :: "char \<Rightarrow> gostring list \<Rightarrow> gostring list" where
  "extend_first c ws = (case ws of [] \<Rightarrow> [[c]] | w # ws' \<Rightarrow> (c # w) # ws')"

fun camel_words :: "gostring \<Rightarrow> gostring list" where
  "camel_words [] = []"
| "camel_words [c] = [[c]]"
| "camel_words (c # d # cs) =
     (if is_upper_char d then [c] # camel_words (d # cs) else extend_first c (camel_words (d # cs)))"

lemma concat_extend_first [simp]: "concat (extend_first c ws) = c # concat ws"
  by (simp add: extend_first_def split: list.splits)

lemma camel_words_concat: "concat (camel_words s) = s"
  by (induction s rule: camel_words.induct) auto

lemma camel_words_Nil [simp]: "camel_words s = [] \<longleftrightarrow> s = []"
  by (induction s rule: camel_words.induct) (auto simp: extend_first_def split: list.splits)

lemma joinByte_head: "joinByte x ((c # w) # ws) = c # joinByte x (w # ws)"
  by (cases ws) auto

lemma joinByte_extend_first:
  "ws \<noteq> [] \<Longrightarrow> joinByte x (map (map f) (extend_first c ws)) = f c # joinByte x (map (map f) ws)"
  by (cases ws) (auto simp: extend_first_def joinByte_head)

lemma ascii_rune_name:
  assumes "ascii_tables u" and "ascii s"
  shows "concat (map (\<lambda>(i, r, bs). (if i > 0 \<and> isUpper u r then ''_'' else []) @ encodeRune (toUpper u r))
           (runes i s)) =
         concat (map (\<lambda>(k, c). (if k > 0 \<and> is_upper_char c then ''_'' else []) @ [ascii_upper c]) (enumerate i s))"
proof -
  have char: "isUpper u (byte c) = is_upper_char c" "encodeRune (toUpper u (byte c)) = [ascii_upper c]"
    if "byte c < 128" for c
    using that assms(1)
    by (auto simp: ascii_tables_def is_upper_char_def ascii_upper_def encodeRune_ascii)
  show ?thesis
    using assms(2)
    by (subst runes_ascii)
      (auto simp: ascii_def char o_def intro!: arg_cong [where f = concat] map_cong dest!: in_set_enumerate_eq [THEN iffD1])
qed

lemma camel_join:
  "concat (map (\<lambda>(k, c). (if k > 0 \<and> is_upper_char c then ''_'' else []) @ [ascii_upper c]) (enumerate i (c # cs))) =
     (if i > 0 \<and> is_upper_char c then ''_'' else []) @
       joinByte CHR ''_'' (map (map ascii_upper) (camel_words (c # cs)))"
proof (induction cs arbitrary: i c)
  case Nil
  then show ?case by simp
next
  case (Cons d ds)
  have "camel_words (d # ds) \<noteq> []" by simp
  then show ?case
    using Cons.IH [of "Suc i" d]
    by (cases "is_upper_char d") (simp_all add: joinByte_extend_first joinByte_Cons enumerate_simps(2))
qed

text \<open>
  On an ASCII type name the short name is the words of the name in capitals, joined by underscores.
\<close>

lemma lbPolicyShortName_ascii:
  assumes "ascii_tables u" and "ascii name"
    and "after_last CHR ''.'' (after_last CHR ''/'' url) = name"
  shows "lbPolicyShortName u url = joinByte CHR ''_'' (map (map ascii_upper) (camel_words name))"
proof (cases name)
  case Nil
  with assms show ?thesis by (simp add: lbPolicyShortName_def)
next
  case (Cons c cs)
  have "lbPolicyShortName u url =
    concat (map (\<lambda>(k, c). (if k > 0 \<and> is_upper_char c then ''_'' else []) @ [ascii_upper c]) (enumerate 0 name))"
    using assms ascii_rune_name [OF assms(1,2), of 0] by (simp add: lbPolicyShortName_def Let_def)
  also have "\<dots> = joinByte CHR ''_'' (map (map ascii_upper) (camel_words name))"
    using camel_join [of 0 c cs] Cons by simp
  finally show ?thesis .
qed

section \<open>Unwrapping\<close>

inductive wrapped :: "'m proto_lib \<Rightarrow> nat \<Rightarrow> any_msg \<Rightarrow> any_msg \<Rightarrow> bool" for lib where
  wrapped_leaf: "wrapped lib 0 c c"
| wrapped_subset: "any_type_url c = subsetLbTypeURL \<Longrightarrow> unmarshal_subset lib c = Some s \<Longrightarrow>
     policy_list (subset_lb_policy s) = p # ps \<Longrightarrow> policy_config p = Some c' \<Longrightarrow>
     wrapped lib n c' leaf \<Longrightarrow> wrapped lib (Suc n) c leaf"

lemma describe_too_deep: "5 < d \<Longrightarrow> describeLbPolicy lib u cfg d = []"
  by (subst describeLbPolicy.simps) (simp split: option.splits)

lemma describe_leaf:
  "d \<le> 5 \<Longrightarrow> any_type_url c \<noteq> subsetLbTypeURL \<Longrightarrow>
     describeLbPolicy lib u (Some c) d = lbPolicyShortName u (any_type_url c)"
  by (subst describeLbPolicy.simps) simp

lemma describe_subset_not_Nil:
  "d \<le> 5 \<Longrightarrow> any_type_url c = subsetLbTypeURL \<Longrightarrow> describeLbPolicy lib u (Some c) d \<noteq> []"
  by (subst describeLbPolicy.simps) (auto simp: Let_def split: option.splits list.splits)

lemma describe_wrapped:
  assumes "wrapped lib n c leaf" and "any_type_url leaf \<noteq> subsetLbTypeURL"
    and "lbPolicyShortName u (any_type_url leaf) \<noteq> []"
  shows "describeLbPolicy lib u (Some c) d =
    (if d + n \<le> 5 then lbPolicyShortName u (any_type_url leaf) else if d \<le> 5 then ''SUBSET'' else [])"
  using assms
proof (induction arbitrary: d rule: wrapped.induct)
  case (wrapped_leaf c)
  then show ?case by (simp add: describe_leaf describe_too_deep)
next
  case (wrapped_subset c s p ps c' n leaf)
  show ?case
  proof (cases "d \<le> 5")
    case False
    then show ?thesis by (simp add: describe_too_deep)
  next
    case True
    then have "describeLbPolicy lib u (Some c) d =
      (let name = describeLbPolicy lib u (Some c') (d + 1) in if name \<noteq> [] then name else ''SUBSET'')"
      using wrapped_subset.hyps by (subst describeLbPolicy.simps) simp
    with True wrapped_subset show ?thesis by (auto simp: Let_def)
  qed
qed

section \<open>Properties\<close>

text \<open>
  C17. The short name of a policy is the last dotted component of its type, its camel-case words in
  capitals joined by underscores.
\<close>

theorem lbPolicyShortName_words:
  assumes "ascii_tables u" and "ascii name" and "CHR ''.'' \<notin> set name" and "CHR ''/'' \<notin> set (pkg @ name)"
  shows "lbPolicyShortName u (host @ CHR ''/'' # pkg @ CHR ''.'' # name) =
    joinByte CHR ''_'' (map (map ascii_upper) (camel_words name))"
  using assms by (intro lbPolicyShortName_ascii) (simp_all add: after_last_append)

theorem lbPolicyShortName_words_witness:
  "lbPolicyShortName ascii_only
     (''type.googleapis.com'' @ CHR ''/'' # ''envoy.extensions.load_balancing_policies.least_request.v3'' @ CHR ''.'' # ''LeastRequest'') =
   ''LEAST_REQUEST''"
proof -
  have "ascii ''LeastRequest''" by (simp add: ascii_def byte_def)
  note words = lbPolicyShortName_words [OF ascii_only_tables this,
      of "''envoy.extensions.load_balancing_policies.least_request.v3''" "''type.googleapis.com''"]
  have "joinByte CHR ''_'' (map (map ascii_upper) (camel_words ''LeastRequest'')) = ''LEAST_REQUEST''"
    by code_simp
  from trans [OF words this] show ?thesis by simp
qed

text \<open>
  C16. The policy shown for a cluster is the innermost one: a policy in up to five subset wrappers is
  shown under its own short name, one wrapped deeper as a subset policy; the legacy enum field shows
  only when the policy list is empty.
\<close>

theorem formatLbPolicy_unwraps:
  assumes "policy_list (cluster_lb_config cl) = p # ps" and "policy_config p = Some c"
    and "wrapped lib n c leaf" and "any_type_url leaf \<noteq> subsetLbTypeURL"
    and "lbPolicyShortName u (any_type_url leaf) \<noteq> []"
  shows "formatLbPolicy lib u cl =
      (if n \<le> 5 then lbPolicyShortName u (any_type_url leaf) else ''SUBSET'') \<and>
    formatLbPolicy lib u (cl\<lparr>cluster_lb_config := None\<rparr>) = lb_policy_name lib (cluster_lb_policy cl)"
  using assms(1,2,5) describe_wrapped [OF assms(3-5), of 0]
  by (simp add: formatLbPolicy_def policy_list_def opt_def Let_def)

definition random_config :: any_msg where
  "random_config = \<lparr>any_type_url = ''t/lb.v3.Random'', any_value = []\<rparr>"

definition policy_of :: "any_msg \<Rightarrow> load_balancing_policy" where
  "policy_of c = \<lparr>policies = [\<lparr>typed_extension_config = Some \<lparr>typed_config = Some c\<rparr>\<rparr>]\<rparr>"

definition subset_config :: any_msg where
  "subset_config = \<lparr>any_type_url = subsetLbTypeURL, any_value = []\<rparr>"

definition wrap_lib :: "unit proto_lib" where
  "wrap_lib =
     \<lparr>unmarshal_virtual_host = (\<lambda>a. None), unmarshal_cluster = (\<lambda>a. None),
      unmarshal_endpoints = (\<lambda>a. None),
      unmarshal_subset = (\<lambda>a. Some \<lparr>subset_lb_policy = Some (policy_of random_config)\<rparr>),
      unmarshal_http_options = (\<lambda>a. None), lb_policy_name = (\<lambda>p. ''ROUND_ROBIN''),
      connectivity_name = (\<lambda>s. [])\<rparr>"

definition wrapped_cluster :: cluster_msg where
  "wrapped_cluster =
     \<lparr>cluster_name = ''c'', cluster_type = EDS, cluster_lb_policy = ROUND_ROBIN,
      cluster_lb_config = Some (policy_of subset_config), cluster_load_assignment = None,
      cluster_eds_config = None, cluster_http2_options = None, cluster_protocol_options = [], cluster_lrs_server = False\<rparr>"

theorem formatLbPolicy_unwraps_witness:
  "formatLbPolicy wrap_lib ascii_only wrapped_cluster = lbPolicyShortName ascii_only (any_type_url random_config) \<and>
   lbPolicyShortName ascii_only (any_type_url random_config) = ''RANDOM''"
proof -
  have "after_last CHR ''.'' (after_last CHR ''/'' (any_type_url random_config)) = ''Random''"
    by (simp add: random_config_def after_last_def)
  moreover have "ascii ''Random''" by (simp add: ascii_def byte_def)
  ultimately have "lbPolicyShortName ascii_only (any_type_url random_config) =
      joinByte CHR ''_'' (map (map ascii_upper) (camel_words ''Random''))"
    by (intro lbPolicyShortName_ascii ascii_only_tables)
  also have "\<dots> = ''RANDOM''" by code_simp
  finally have leaf: "lbPolicyShortName ascii_only (any_type_url random_config) = ''RANDOM''" .
  have w: "wrapped wrap_lib (Suc 0) subset_config random_config"
    by (rule wrapped_subset [where s = "\<lparr>subset_lb_policy = Some (policy_of random_config)\<rparr>" and ps = "[]"
          and p = "\<lparr>typed_extension_config = Some \<lparr>typed_config = Some random_config\<rparr>\<rparr>", OF _ _ _ _ wrapped_leaf])
      (simp_all add: wrap_lib_def subset_config_def policy_of_def policy_list_def policy_config_def)
  have "policy_list (cluster_lb_config wrapped_cluster) =
      \<lparr>typed_extension_config = Some \<lparr>typed_config = Some subset_config\<rparr>\<rparr> # []"
    by (simp add: wrapped_cluster_def policy_of_def policy_list_def)
  moreover have "policy_config \<lparr>typed_extension_config = Some \<lparr>typed_config = Some subset_config\<rparr>\<rparr> = Some subset_config"
    by (simp add: policy_config_def)
  moreover have "any_type_url random_config \<noteq> subsetLbTypeURL"
    by (simp add: random_config_def subsetLbTypeURL_def)
  moreover have "lbPolicyShortName ascii_only (any_type_url random_config) \<noteq> []"
    by (simp add: leaf)
  ultimately show ?thesis
    using formatLbPolicy_unwraps [OF _ _ w] leaf by simp
qed

end
