(* ===== verification/ClusterPage.thy ===== *)
theory ClusterPage
  imports Pools LbPolicy
begin

text \<open>
  \<^verbatim>\<open>xds-cluster-page.go\<close>: one cluster of an xDS channel, its endpoints joined with the channel's
  subchannels by address, the subchannel pools attributed to it, and the subchannels that belong to no
  cluster the channel watches. \<open>getXdsCluster\<close> takes the answers of its two parallel fetches as
  arguments: the client config (or the error text) and the two maps of \<open>subchannelsByAddress\<close>. The
  record \<open>orders\<close> holds one iteration order for every range loop over a map.
\<close>

section \<open>Ports\<close>

definition is_dns_type :: "discovery_type \<Rightarrow> bool" where
  "is_dns_type t \<longleftrightarrow> t = STRICT_DNS \<or> t = LOGICAL_DNS"

text \<open>The non-zero ports of the endpoints inline in a cluster.\<close>

definition inline_ports :: "cluster_msg \<Rightarrow> uint32 list" where
  "inline_ports c =
     filter (\<lambda>p. p \<noteq> 0)
       (map endpoint_port (concat (map lle_lb_endpoints (endpoints_of (cluster_load_assignment c)))))"

definition strictDNSPorts :: "(gostring, cluster_msg) range_order \<Rightarrow> (gostring, cluster_msg) gomap \<Rightarrow> uint32 list" where
  "strictDNSPorts ord cs =
     gs_add_all (concat (map (\<lambda>(n, c). if is_dns_type (cluster_type c) then inline_ports c else []) (ord cs))) []"

definition portFromHostPort :: "gostring \<Rightarrow> uint32" where
  "portFromHostPort target =
     (case splitHostPort target of
        Inl err \<Rightarrow> 0
      | Inr (host, portStr) \<Rightarrow> (case parseUint 32 portStr of None \<Rightarrow> 0 | Some p \<Rightarrow> of_nat p))"

section \<open>Localities\<close>

definition joinSlash :: "gostring list \<Rightarrow> gostring" where
  "joinSlash parts = fold (\<lambda>(i, p) out. (if i > 0 then out @ ''/'' else out) @ p) (enumerate 0 parts) []"

definition formatLocality :: "locality_msg option \<Rightarrow> gostring" where
  "formatLocality l =
     (case l of
        None \<Rightarrow> []
      | Some m \<Rightarrow>
          (let parts = filter (\<lambda>p. p \<noteq> []) [region m, zone m, sub_zone m]
           in if parts = [] then ''(default)'' else joinSlash parts))"

section \<open>Page data\<close>

record endpointRow =
  er_Address :: gostring
  er_HealthStatus :: health_status
  er_Weight :: uint32
  er_Locality :: gostring
  er_SubchannelID :: int64
  er_SubchannelName :: gostring
  er_PoolSize :: nat
  er_CallsStarted :: int64
  er_CallsFailed :: int64

record localityGroup =
  lg_Locality :: gostring
  lg_Priority :: uint32
  lg_Weight :: uint32
  lg_Rows :: "endpointRow list"
  lg_TotalCallsStarted :: int64
  lg_TotalCallsFailed :: int64

record unmatchedSubchannelRow =
  us_SubchannelID :: int64
  us_Name :: gostring
  us_Target :: gostring

record 'n xdsClusterPageData =
  xc_ChannelID :: int64
  xc_ClusterName :: gostring
  xc_Node :: "'n option"
  xc_Cluster :: "cluster_msg option"
  xc_LbPolicy :: gostring
  xc_IsDNSCluster :: bool
  xc_EDSServiceName :: gostring
  xc_Assignment :: "cluster_load_assignment option"
  xc_Localities :: "localityGroup list"
  xc_Pools :: "poolRow list"
  xc_UnmatchedSubchannels :: "unmatchedSubchannelRow list"
  xc_Error :: gostring

record orders =
  ord_dns_match :: "(int64, subchannelInfo) range_order"
  ord_siblings :: "(gostring, cluster_load_assignment) range_order"
  ord_dns_clusters :: "(gostring, cluster_msg) range_order"
  ord_unmatched :: "(int64, subchannelInfo) range_order"
  ord_matched :: "int64 list \<Rightarrow> int64 list"
  ord_pools :: "(gostring, int64 list) range_order"

definition fair_orders :: "orders \<Rightarrow> bool" where
  "fair_orders o1 \<longleftrightarrow> fair_order (ord_dns_match o1) \<and> fair_order (ord_siblings o1) \<and>
     fair_order (ord_dns_clusters o1) \<and> fair_order (ord_unmatched o1) \<and>
     fair_order (ord_matched o1) \<and> fair_order (ord_pools o1)"

section \<open>Joining endpoints with subchannels\<close>

definition new_group :: "locality_lb_endpoints \<Rightarrow> localityGroup" where
  "new_group lle =
     \<lparr>lg_Locality = formatLocality (lle_locality lle), lg_Priority = lle_priority lle,
      lg_Weight = weight_value (lle_weight lle), lg_Rows = [],
      lg_TotalCallsStarted = 0, lg_TotalCallsFailed = 0\<rparr>"

definition endpoint_row :: "addr_map \<times> info_map \<Rightarrow> gostring \<Rightarrow> lb_endpoint \<Rightarrow> endpointRow" where
  "endpoint_row maps locality ep =
     (let (byAddr, info) = maps; addr = formatLbEndpointAddress (Some ep);
          row = \<lparr>er_Address = addr, er_HealthStatus = lbe_health_status ep,
                 er_Weight = weight_value (lbe_weight ep), er_Locality = locality,
                 er_SubchannelID = 0, er_SubchannelName = [], er_PoolSize = 0,
                 er_CallsStarted = 0, er_CallsFailed = 0\<rparr>
      in case gm_get byAddr addr of
           Some (i # ids) \<Rightarrow>
             row\<lparr>er_SubchannelID := i, er_SubchannelName := si_Name (info_at info i),
                 er_PoolSize := length (i # ids),
                 er_CallsStarted := sum_list (map (\<lambda>i. si_CallsStarted (info_at info i)) (i # ids)),
                 er_CallsFailed := sum_list (map (\<lambda>i. si_CallsFailed (info_at info i)) (i # ids))\<rparr>
         | _ \<Rightarrow> row)"

text \<open>The body of the inner loop: the row, the ids it matches and the totals of its group.\<close>

definition add_endpoint :: "addr_map \<times> info_map \<Rightarrow> lb_endpoint \<Rightarrow> int64 list \<times> localityGroup \<Rightarrow> int64 list \<times> localityGroup" where
  "add_endpoint maps ep st =
     (let (matched, group) = st; row = endpoint_row maps (lg_Locality group) ep;
          matched = gs_add_all (gm_slice (fst maps) (er_Address row)) matched
      in (matched,
          group\<lparr>lg_Rows := lg_Rows group @ [row],
                lg_TotalCallsStarted := lg_TotalCallsStarted group + er_CallsStarted row,
                lg_TotalCallsFailed := lg_TotalCallsFailed group + er_CallsFailed row\<rparr>))"

definition add_locality ::
  "addr_map \<times> info_map \<Rightarrow> locality_lb_endpoints \<Rightarrow> int64 list \<times> localityGroup list \<Rightarrow> int64 list \<times> localityGroup list" where
  "add_locality maps lle st =
     (let (matched, groups) = st;
          (matched, group) = fold (add_endpoint maps) (lle_lb_endpoints lle) (matched, new_group lle)
      in (matched, groups @ [group]))"

definition locality_less :: "localityGroup \<Rightarrow> localityGroup \<Rightarrow> bool" where
  "locality_less a b \<longleftrightarrow> lg_Locality a < lg_Locality b"

interpretation locality_order: slice_order locality_less
  by unfold_locales (auto simp: locality_less_def)

definition join_endpoints ::
  "addr_map \<times> info_map \<Rightarrow> cluster_load_assignment option \<Rightarrow> int64 list \<Rightarrow> int64 list \<times> localityGroup list" where
  "join_endpoints maps assignment matched =
     (let (matched, groups) = fold (add_locality maps) (endpoints_of assignment) (matched, [])
      in (matched, sort_slice locality_less groups))"

section \<open>Sibling clusters, unmatched subchannels, pools\<close>

definition siblingAddrs :: "(gostring, cluster_load_assignment) range_order \<Rightarrow> (gostring, cluster_load_assignment) gomap \<Rightarrow> gostring list" where
  "siblingAddrs ord eps =
     gs_add_all (filter (\<lambda>addr. addr \<noteq> [])
       (concat (map (\<lambda>(n, cla). map (\<lambda>lb. formatLbEndpointAddress (Some lb))
          (concat (map lle_lb_endpoints (endpoints_of (Some cla))))) (ord eps)))) []"

definition dnsMatched :: "(int64, subchannelInfo) range_order \<Rightarrow> uint32 list \<Rightarrow> info_map \<Rightarrow> int64 list" where
  "dnsMatched ord ports info =
     gs_add_all (map fst (filter (\<lambda>(sid, i). portFromHostPort (si_Target i) \<in> set ports) (ord info))) []"

definition unmatched_less :: "unmatchedSubchannelRow \<Rightarrow> unmatchedSubchannelRow \<Rightarrow> bool" where
  "unmatched_less a b \<longleftrightarrow> id_less (us_SubchannelID a) (us_SubchannelID b)"

interpretation unmatched_order: slice_order unmatched_less
  by unfold_locales (auto simp: unmatched_less_def id_less_def)

definition unmatchedRows ::
  "(int64, subchannelInfo) range_order \<Rightarrow> int64 list \<Rightarrow> gostring list \<Rightarrow> uint32 list \<Rightarrow> info_map \<Rightarrow> unmatchedSubchannelRow list" where
  "unmatchedRows ord matched siblings dnsPorts info =
     sort_slice unmatched_less
       (map (\<lambda>(sid, i). \<lparr>us_SubchannelID = sid, us_Name = si_Name i, us_Target = si_Target i\<rparr>)
         (filter (\<lambda>(sid, i). \<not> (sid \<in> set matched \<or> si_Target i \<in> set siblings \<or>
             portFromHostPort (si_Target i) \<in> set dnsPorts)) (ord info)))"

definition add_to_pool :: "info_map \<Rightarrow> int64 \<Rightarrow> addr_map \<Rightarrow> addr_map" where
  "add_to_pool info sid pools =
     (case gm_get info sid of None \<Rightarrow> pools | Some i \<Rightarrow> gm_append (si_Target i) sid pools)"

definition clusterPools ::
  "(int64 list \<Rightarrow> int64 list) \<Rightarrow> (gostring, int64 list) range_order \<Rightarrow> int64 list \<Rightarrow> info_map \<Rightarrow> poolRow list" where
  "clusterPools ord ord' matched info =
     (let pools = fold (add_to_pool info) (ord matched) gm_empty
      in sort_slice pool_less
           (map (\<lambda>(addr, ids). pool_row info (addr, sort_slice id_less ids)) (ord' pools)))"

section \<open>getXdsCluster\<close>

definition empty_cluster_page :: "int64 \<Rightarrow> gostring \<Rightarrow> 'n xdsClusterPageData" where
  "empty_cluster_page channelID clusterName =
     \<lparr>xc_ChannelID = channelID, xc_ClusterName = clusterName, xc_Node = None, xc_Cluster = None,
      xc_LbPolicy = [], xc_IsDNSCluster = False, xc_EDSServiceName = [], xc_Assignment = None,
      xc_Localities = [], xc_Pools = [], xc_UnmatchedSubchannels = [], xc_Error = []\<rparr>"

definition cluster_assignment :: "'m xds_resources \<Rightarrow> cluster_msg \<Rightarrow> cluster_load_assignment option" where
  "cluster_assignment res c =
     (if is_dns_type (cluster_type c) then cluster_load_assignment c
      else gm_get (endpoints res) (edsServiceNameForCluster (Some c)))"

definition thisClusterPorts :: "cluster_msg \<Rightarrow> uint32 list" where
  "thisClusterPorts c = (if is_dns_type (cluster_type c) then gs_add_all (inline_ports c) [] else [])"

definition cluster_page ::
  "'m proto_lib \<Rightarrow> unicode_tables \<Rightarrow> orders \<Rightarrow> 'm xds_resources \<Rightarrow> cluster_msg \<Rightarrow>
     addr_map \<times> info_map \<Rightarrow> 'n xdsClusterPageData \<Rightarrow> 'n xdsClusterPageData" where
  "cluster_page lib u ord res c maps d =
     (let info = snd maps;
          dns = is_dns_type (cluster_type c);
          matched0 = (if dns then dnsMatched (ord_dns_match ord) (thisClusterPorts c) info else []);
          assignment = cluster_assignment res c;
          (matched, groups) =
            (if assignment \<noteq> None then join_endpoints maps assignment matched0 else (matched0, []));
          siblings = siblingAddrs (ord_siblings ord) (endpoints res);
          dnsPorts = strictDNSPorts (ord_dns_clusters ord) (clusters res)
      in d\<lparr>xc_Cluster := Some c, xc_LbPolicy := formatLbPolicy lib u c,
           xc_EDSServiceName := edsServiceNameForCluster (Some c),
           xc_IsDNSCluster := dns, xc_Assignment := assignment, xc_Localities := groups,
           xc_UnmatchedSubchannels := unmatchedRows (ord_unmatched ord) matched siblings dnsPorts info,
           xc_Pools := clusterPools (ord_matched ord) (ord_pools ord) matched info\<rparr>)"

definition getXdsCluster ::
  "'m proto_lib \<Rightarrow> unicode_tables \<Rightarrow> orders \<Rightarrow> (gostring + 'n client_config option) \<Rightarrow>
     addr_map \<times> info_map \<Rightarrow> int64 \<Rightarrow> gostring \<Rightarrow> 'n xdsClusterPageData" where
  "getXdsCluster lib u ord cfg maps channelID clusterName =
     (let d = empty_cluster_page channelID clusterName
      in case cfg of
           Inl err \<Rightarrow> d\<lparr>xc_Error := ''CSDS FetchClientStatus failed: '' @ err\<rparr>
         | Inr c \<Rightarrow>
             (let d = d\<lparr>xc_Node := opt None cc_node c\<rparr>; res = newXdsResources lib c
              in case gm_get (clusters res) clusterName of
                   None \<Rightarrow> d\<lparr>xc_Error := ''no CDS resource named '' @ goQuote u clusterName @ '' in CSDS dump''\<rparr>
                 | Some cluster \<Rightarrow> cluster_page lib u ord res cluster maps d))"

section \<open>What the loops compute\<close>

lemma joinSlash_joinByte: "joinSlash parts = joinByte CHR ''/'' parts"
proof -
  have step: "fold (\<lambda>(i, p) out. (if i > 0 then out @ ''/'' else out) @ p) (enumerate (Suc n) ps) out =
      out @ concat (map (\<lambda>p. CHR ''/'' # p) ps)" for n ps out
    by (induction ps arbitrary: n out) auto
  have join: "joinByte CHR ''/'' (q # ps) = q @ concat (map (\<lambda>p. CHR ''/'' # p) ps)" for q ps
    by (induction ps arbitrary: q) auto
  show ?thesis
    by (cases parts) (simp_all add: joinSlash_def step join del: joinByte.simps, simp)
qed

definition endpoint_addrs :: "cluster_load_assignment option \<Rightarrow> gostring list" where
  "endpoint_addrs a = map (\<lambda>lb. formatLbEndpointAddress (Some lb)) (concat (map lle_lb_endpoints (endpoints_of a)))"

definition group_of :: "addr_map \<times> info_map \<Rightarrow> locality_lb_endpoints \<Rightarrow> localityGroup" where
  "group_of maps lle =
     (let loc = formatLocality (lle_locality lle); rows = map (endpoint_row maps loc) (lle_lb_endpoints lle)
      in (new_group lle)\<lparr>lg_Rows := rows, lg_TotalCallsStarted := sum_list (map er_CallsStarted rows),
           lg_TotalCallsFailed := sum_list (map er_CallsFailed rows)\<rparr>)"

lemma gs_add_all_append: "gs_add_all (xs @ ys) s = gs_add_all ys (gs_add_all xs s)"
  by (simp add: gs_add_all_def)

lemma endpoint_row_address [simp]: "er_Address (endpoint_row maps loc ep) = formatLbEndpointAddress (Some ep)"
  by (auto simp: endpoint_row_def Let_def split: prod.splits option.splits list.splits)

lemma fold_add_endpoint:
  "fold (add_endpoint maps) eps (m, g) =
     (gs_add_all (concat (map (\<lambda>ep. gm_slice (fst maps) (formatLbEndpointAddress (Some ep))) eps)) m,
      g\<lparr>lg_Rows := lg_Rows g @ map (endpoint_row maps (lg_Locality g)) eps,
        lg_TotalCallsStarted := lg_TotalCallsStarted g + sum_list (map (er_CallsStarted \<circ> endpoint_row maps (lg_Locality g)) eps),
        lg_TotalCallsFailed := lg_TotalCallsFailed g + sum_list (map (er_CallsFailed \<circ> endpoint_row maps (lg_Locality g)) eps)\<rparr>)"
proof (induction eps arbitrary: m g)
  case Nil
  then show ?case by (simp add: gs_add_all_def)
next
  case (Cons ep eps)
  then show ?case by (simp add: add_endpoint_def Let_def gs_add_all_append add.assoc)
qed

lemma fold_add_locality:
  "fold (add_locality maps) lles (m, gs) =
     (gs_add_all (concat (map (\<lambda>lle. concat (map (\<lambda>ep. gm_slice (fst maps) (formatLbEndpointAddress (Some ep)))
        (lle_lb_endpoints lle))) lles)) m,
      gs @ map (group_of maps) lles)"
proof (induction lles arbitrary: m gs)
  case Nil
  then show ?case by (simp add: gs_add_all_def)
next
  case (Cons lle lles)
  have "add_locality maps lle (m, gs) =
      (gs_add_all (concat (map (\<lambda>ep. gm_slice (fst maps) (formatLbEndpointAddress (Some ep))) (lle_lb_endpoints lle))) m,
       gs @ [group_of maps lle])"
    by (simp add: add_locality_def fold_add_endpoint group_of_def new_group_def Let_def)
  then show ?case by (simp add: Cons.IH gs_add_all_append)
qed

lemma concat_map_concat: "concat (map (\<lambda>x. concat (map f (g x))) xs) = concat (map f (concat (map g xs)))"
  by (induction xs) simp_all

lemma join_endpoints_eq:
  "join_endpoints maps a m =
     (gs_add_all (concat (map (gm_slice (fst maps)) (endpoint_addrs a))) m,
      sort_slice locality_less (map (group_of maps) (endpoints_of a)))"
  by (simp add: join_endpoints_def fold_add_locality endpoint_addrs_def Let_def concat_map_concat comp_def)

text \<open>The ids the page attributes to the cluster.\<close>

definition matched_ids :: "orders \<Rightarrow> 'm xds_resources \<Rightarrow> cluster_msg \<Rightarrow> addr_map \<times> info_map \<Rightarrow> int64 list" where
  "matched_ids ord res c maps =
     gs_add_all (concat (map (gm_slice (fst maps)) (endpoint_addrs (cluster_assignment res c))))
       (if is_dns_type (cluster_type c)
        then dnsMatched (ord_dns_match ord) (thisClusterPorts c) (snd maps) else [])"

lemma endpoint_addrs_None [simp]: "endpoint_addrs None = []"
  by (simp add: endpoint_addrs_def endpoints_of_def)

lemma cluster_page_eq:
  "cluster_page lib u ord res c maps d =
     d\<lparr>xc_Cluster := Some c, xc_LbPolicy := formatLbPolicy lib u c,
       xc_EDSServiceName := edsServiceNameForCluster (Some c),
       xc_IsDNSCluster := is_dns_type (cluster_type c), xc_Assignment := cluster_assignment res c,
       xc_Localities := sort_slice locality_less (map (group_of maps) (endpoints_of (cluster_assignment res c))),
       xc_UnmatchedSubchannels := unmatchedRows (ord_unmatched ord) (matched_ids ord res c maps)
         (siblingAddrs (ord_siblings ord) (endpoints res))
         (strictDNSPorts (ord_dns_clusters ord) (clusters res)) (snd maps),
       xc_Pools := clusterPools (ord_matched ord) (ord_pools ord) (matched_ids ord res c maps) (snd maps)\<rparr>"
proof (cases "cluster_assignment res c")
  case None
  then show ?thesis
    by (simp add: cluster_page_def matched_ids_def gs_add_all_def endpoints_of_def Let_def)
next
  case (Some a)
  then show ?thesis
    by (simp add: cluster_page_def matched_ids_def join_endpoints_eq Let_def)
qed

section \<open>Which subchannels belong to the cluster\<close>

definition belongs :: "'m xds_resources \<Rightarrow> cluster_msg \<Rightarrow> subchannelInfo \<Rightarrow> bool" where
  "belongs res c i \<longleftrightarrow>
     (is_dns_type (cluster_type c) \<and> portFromHostPort (si_Target i) \<in> set (inline_ports c)) \<or>
     si_Target i \<in> set (endpoint_addrs (cluster_assignment res c))"

definition owned_elsewhere :: "'m xds_resources \<Rightarrow> subchannelInfo \<Rightarrow> bool" where
  "owned_elsewhere res i \<longleftrightarrow>
     (\<exists>(n, a)\<in>set (endpoints res). si_Target i \<noteq> [] \<and> si_Target i \<in> set (endpoint_addrs (Some a))) \<or>
     (\<exists>(n, c)\<in>set (clusters res). is_dns_type (cluster_type c) \<and>
        portFromHostPort (si_Target i) \<in> set (inline_ports c))"

lemma set_siblingAddrs:
  "fair_order ord \<Longrightarrow> set (siblingAddrs ord eps) = {a. a \<noteq> [] \<and> (\<exists>(n, cla)\<in>set eps. a \<in> set (endpoint_addrs (Some cla)))}"
  by (force simp: siblingAddrs_def endpoint_addrs_def)

lemma set_strictDNSPorts:
  "fair_order ord \<Longrightarrow> set (strictDNSPorts ord cs) =
     {p. \<exists>(n, c)\<in>set cs. is_dns_type (cluster_type c) \<and> p \<in> set (inline_ports c)}"
  by (fastforce simp: strictDNSPorts_def split: if_splits)

lemma set_matched_ids:
  assumes "fair_orders ord" and "gm_wf info" and "maps_agree byAddr info"
  shows "sid \<in> set (matched_ids ord res c (byAddr, info)) \<longleftrightarrow>
    (\<exists>i. gm_get info sid = Some i \<and> belongs res c i)"
proof -
  have slice: "(\<exists>a\<in>set as. sid \<in> set (gm_slice byAddr a)) \<longleftrightarrow>
      (\<exists>i. gm_get info sid = Some i \<and> si_Target i \<in> set as)" for as
    using assms(3) by (auto simp: maps_agree_def)
  have dns: "sid \<in> set (dnsMatched (ord_dns_match ord) ports info) \<longleftrightarrow>
      (\<exists>i. gm_get info sid = Some i \<and> portFromHostPort (si_Target i) \<in> set ports)" for ports
    using assms(1,2) by (force simp: dnsMatched_def fair_orders_def gm_entries_iff)
  show ?thesis
    using slice [of "endpoint_addrs (cluster_assignment res c)"] dns [of "thisClusterPorts c"]
    by (auto simp: matched_ids_def belongs_def thisClusterPorts_def)
qed

lemma distinct_matched_ids: "distinct (matched_ids ord res c maps)"
  by (simp add: matched_ids_def dnsMatched_def)

section \<open>Pools of a cluster\<close>

lemma fold_add_to_pool:
  "fold (add_to_pool info) ids m =
     group_by (\<lambda>i. si_Target (info_at info i)) (\<lambda>i. i) (filter (\<lambda>i. gm_get info i \<noteq> None) ids) m"
  by (induction ids arbitrary: m) (auto simp: add_to_pool_def group_by_def info_at_def split: option.splits)

text \<open>The pools as a map, independent of any iteration order but for the order of its list.\<close>

definition pool_map :: "int64 list \<Rightarrow> info_map \<Rightarrow> addr_map" where
  "pool_map matched info = sort_addr_map (fold (add_to_pool info) matched gm_empty)"

lemma pool_map_wf: "gm_wf (pool_map matched info)"
  by (simp add: pool_map_def gm_wf_sort_addr_map fold_add_to_pool gm_wf_group_by gm.wf_empty)

lemma gm_get_pool_map:
  "gm_get (pool_map matched info) a =
     (let ids = filter (\<lambda>i. gm_get info i \<noteq> None \<and> si_Target (info_at info i) = a) matched
      in if ids = [] then None else Some (sort_slice id_less ids))"
proof -
  have "filter (\<lambda>i. gm_get info i \<noteq> None \<and> si_Target (info_at info i) = a) matched =
      filter (\<lambda>i. si_Target (info_at info i) = a) (filter (\<lambda>i. gm_get info i \<noteq> None) matched)"
    by (simp add: conj_commute)
  then show ?thesis
    by (auto simp: pool_map_def gm_get_sort_addr_map fold_add_to_pool gm_get_group_by gm.get_empty
        gm_slice_def Let_def filter_empty_conv)
qed

lemma clusterPools_pool_map:
  assumes "fair_order ord'"
  shows "clusterPools ord ord' matched info =
    sort_slice pool_less (map (pool_row info) (pool_map (ord matched) info))"
proof -
  let ?m = "fold (add_to_pool info) (ord matched) gm_empty"
  have sorted: "map (\<lambda>(addr, ids). pool_row info (addr, sort_slice id_less ids)) xs =
      map (pool_row info) (sort_addr_map xs)" for xs
    by (auto simp: sort_addr_map_def)
  have "mset (map (pool_row info) (sort_addr_map (ord' ?m))) = mset (map (pool_row info) (sort_addr_map ?m))"
    using assms by (simp add: sort_addr_map_def)
  moreover have "decides pool_less (map (pool_row info) (sort_addr_map ?m))"
    by (rule pool_rows_decides) (use pool_map_wf [of "ord matched" info] in \<open>simp add: pool_map_def\<close>)
  ultimately show ?thesis
    unfolding clusterPools_def Let_def sorted pool_map_def
    by (metis pool_order.sort_slice_mset_cong)
qed

lemma pool_map_cong:
  assumes "mset matched = mset matched'" and "\<And>i. gm_get info i = gm_get info' i"
  shows "gm_get (pool_map matched info) a = gm_get (pool_map matched' info') a"
proof -
  have info: "info_at info = info_at info'" using assms(2) by (simp add: info_at_def fun_eq_iff)
  let ?P = "\<lambda>i. gm_get info' i \<noteq> None \<and> si_Target (info_at info' i) = a"
  have same: "mset (filter ?P matched) = mset (filter ?P matched')" using assms(1) by simp
  then have "filter ?P matched = [] \<longleftrightarrow> filter ?P matched' = []"
    by (simp only: mset_zero_iff [symmetric])
  with sort_ids_cong [OF same] show ?thesis
    by (simp only: gm_get_pool_map Let_def info assms(2))
qed

lemma clusterPools_order_free:
  assumes "fair_order o1" and "fair_order o2" and "fair_order p1" and "fair_order p2"
    and "mset matched = mset matched'" and "\<And>i. gm_get info i = gm_get info' i"
  shows "clusterPools o1 p1 matched info = clusterPools o2 p2 matched' info'"
proof -
  have info: "info_at info = info_at info'" using assms(6) by (simp add: info_at_def fun_eq_iff)
  have "gm_get (pool_map (o1 matched) info) a = gm_get (pool_map (o2 matched') info') a" for a
    using assms by (intro pool_map_cong) simp_all
  then have "sort_slice pool_less (map (pool_row info) (id (pool_map (o1 matched) info))) =
      sort_slice pool_less (map (pool_row info') (id (pool_map (o2 matched') info')))"
    by (intro sorted_pool_rows_cong) (simp_all add: pool_map_wf info)
  then show ?thesis using assms(3,4) by (simp add: clusterPools_pool_map)
qed

text \<open>The ids in the pools are the matched ids with an entry, each once.\<close>

lemma sort_addr_map_concat: "mset (concat (map snd (sort_addr_map m))) = mset (concat (map snd m))"
  by (induction m) (auto simp: sort_addr_map_def)

lemma pool_map_concat: "mset (concat (map snd (pool_map matched info))) = mset (filter (\<lambda>i. gm_get info i \<noteq> None) matched)"
  unfolding pool_map_def sort_addr_map_concat fold_add_to_pool group_entries_concat [OF gm.wf_empty]
  by (simp add: gm_empty_def)

lemma clusterPools_ids:
  assumes "fair_order o1" and "fair_order o2"
  shows "mset (concat (map pr_SubchannelIDs (clusterPools o1 o2 matched info))) =
    mset (filter (\<lambda>i. gm_get info i \<noteq> None) matched)"
proof -
  let ?rows = "sort_slice pool_less (map (pool_row info) (pool_map (o1 matched) info))"
  have concat_mset: "mset (concat xss) = \<Sum>\<^sub># (image_mset mset (mset xss))" for xss :: "int64 list list"
    by (induction xss) auto
  have "mset (map pr_SubchannelIDs ?rows) = mset (map snd (pool_map (o1 matched) info))"
    by (simp add: multiset.map_comp comp_def pool_row_def split_def)
  then have "mset (concat (map pr_SubchannelIDs ?rows)) = mset (concat (map snd (pool_map (o1 matched) info)))"
    by (simp only: concat_mset)
  then show ?thesis using assms by (simp add: clusterPools_pool_map pool_map_concat)
qed

section \<open>Addresses that can be joined\<close>

lemma lastIndexByte_port: "lastIndexByte (h @ CHR '':'' # formatUint p) CHR '':'' = Some (length h)"
  by (rule lastIndexByte_append) (simp add: formatUint_def fmt_nat_free)

lemma net_free_formatUint [simp]: "net_free (formatUint p)" "CHR '':'' \<notin> set (formatUint p)"
  by (simp_all add: net_free_def formatUint_def fmt_nat_free)

lemma parseUint_formatUint [simp]: "parseUint 32 (formatUint p) = Some (unat p)"
  unfolding formatUint_def by (rule parseUint_fmt_nat) (use unsigned_less [of p, where ?'a = nat] in simp)

text \<open>
  C14. The address printed for an endpoint whose host is a name or an IPv4 address splits back into
  its port, and it is the address \<^verbatim>\<open>net.JoinHostPort\<close> gives, which is how subchannel targets are
  written. For an IPv6 host neither holds: the brackets are missing, so the endpoint never equals
  the target of its subchannels and its port reads as zero.
\<close>

theorem socket_address_port:
  fixes a :: socket_address
  assumes "net_free (sa_address a)"
  shows "if CHR '':'' \<in> set (sa_address a)
    then portFromHostPort (formatSocketAddress (Some a)) = 0 \<and>
      formatSocketAddress (Some a) \<noteq> joinHostPort (sa_address a) (formatUint (sa_port_value a))
    else portFromHostPort (formatSocketAddress (Some a)) = sa_port_value a \<and>
      formatSocketAddress (Some a) = joinHostPort (sa_address a) (formatUint (sa_port_value a))"
proof (cases "CHR '':'' \<in> set (sa_address a)")
  case True
  then have ne: "sa_address a \<noteq> []" by auto
  then have hd: "hd (sa_address a) \<noteq> CHR ''[''"
    using assms by (cases "sa_address a") (auto simp: net_free_def)
  have "indexByte (sa_address a) CHR '':'' \<noteq> None" using True by simp
  moreover have "sa_address a @ CHR '':'' # formatUint (sa_port_value a) \<noteq> CHR ''['' # xs" for xs
    using hd ne by (cases "sa_address a") auto
  ultimately show ?thesis
    using True hd by (simp add: portFromHostPort_def formatSocketAddress_def splitHostPort_unbracketed joinHostPort_def)
next
  case False
  then have "indexByte (sa_address a) CHR '':'' = None" by simp
  with False assms show ?thesis
    by (simp add: portFromHostPort_def formatSocketAddress_def splitHostPort_plain joinHostPort_def)
qed

theorem socket_address_port_witness:
  "portFromHostPort (formatSocketAddress (Some \<lparr>sa_address = ''2001:db8::1'', sa_port_value = 80\<rparr>)) = 0 \<and>
   formatSocketAddress (Some \<lparr>sa_address = ''2001:db8::1'', sa_port_value = 80\<rparr>) \<noteq> ''[2001:db8::1]:80''"
  using socket_address_port [of "\<lparr>sa_address = ''2001:db8::1'', sa_port_value = 80\<rparr>"]
  by (simp add: net_free_def) (simp add: formatSocketAddress_def)


end
