(* ===== verification/Sample.thy ===== *)
theory Sample
  imports ClusterPage
begin

text \<open>
  A small concrete environment on which the properties are instantiated: decoders that recognise a
  few payloads by name, a client status dump with an EDS cluster, its endpoints, a DNS cluster and a
  sibling's endpoints, and a channel with five subchannels, two of which share an address.
\<close>

definition text_any :: "gostring \<Rightarrow> gostring \<Rightarrow> any_msg" where
  "text_any url v = \<lparr>any_type_url = url, any_value = v\<rparr>"

definition endpoint_at :: "gostring \<Rightarrow> uint32 \<Rightarrow> lb_endpoint" where
  "endpoint_at host port =
     \<lparr>lbe_endpoint = Some \<lparr>ep_address = Some \<lparr>addr_socket_address = Some \<lparr>sa_address = host, sa_port_value = port\<rparr>\<rparr>\<rparr>,
      lbe_health_status = HealthStatus 1, lbe_weight = Some 1\<rparr>"

definition locality_of :: "gostring \<Rightarrow> lb_endpoint list \<Rightarrow> locality_lb_endpoints" where
  "locality_of z eps =
     \<lparr>lle_locality = Some \<lparr>region = ''us'', zone = z, sub_zone = []\<rparr>, lle_lb_endpoints = eps,
      lle_weight = None, lle_priority = 0\<rparr>"

definition assignment_of :: "gostring \<Rightarrow> locality_lb_endpoints list \<Rightarrow> cluster_load_assignment" where
  "assignment_of n ls = \<lparr>cla_name = n, cla_endpoints = ls\<rparr>"

definition edge_endpoints :: cluster_load_assignment where
  "edge_endpoints = assignment_of ''edge''
     [locality_of ''b'' [endpoint_at ''10.0.0.2'' 80], locality_of ''a'' [endpoint_at ''10.0.0.1'' 80]]"

definition plain_cluster :: "gostring \<Rightarrow> discovery_type \<Rightarrow> cluster_load_assignment option \<Rightarrow> cluster_msg" where
  "plain_cluster n t la =
     \<lparr>cluster_name = n, cluster_type = t, cluster_lb_policy = ROUND_ROBIN, cluster_lb_config = None,
      cluster_load_assignment = la, cluster_eds_config = None, cluster_http2_options = None,
      cluster_protocol_options = [], cluster_lrs_server = False\<rparr>"

definition edge_cluster :: cluster_msg where
  "edge_cluster = plain_cluster ''edge'' EDS None"

definition dns_cluster :: cluster_msg where
  "dns_cluster = plain_cluster ''dns'' STRICT_DNS
     (Some (assignment_of ''dns'' [locality_of ''a'' [endpoint_at ''db.local'' 9443]]))"

definition sample_lib :: "unit proto_lib" where
  "sample_lib =
     \<lparr>unmarshal_virtual_host = (\<lambda>a. if any_value a = ''orders''
        then Some \<lparr>vh_name = ''orders'', vh_domains = [''orders:443''], vh_routes = []\<rparr> else None),
      unmarshal_cluster = (\<lambda>a. if any_value a = ''edge'' then Some edge_cluster
        else if any_value a = ''dns'' then Some dns_cluster else None),
      unmarshal_endpoints = (\<lambda>a. if any_value a = ''edge'' then Some edge_endpoints
        else if any_value a = ''other''
        then Some (assignment_of ''other'' [locality_of ''a'' [endpoint_at ''10.0.0.5'' 80]]) else None),
      unmarshal_subset = (\<lambda>a. None), unmarshal_http_options = (\<lambda>a. None),
      lb_policy_name = (\<lambda>p. ''ROUND_ROBIN''), connectivity_name = (\<lambda>s. ''READY'')\<rparr>"

definition dump_entry :: "gostring \<Rightarrow> gostring \<Rightarrow> gostring \<Rightarrow> generic_xds_config" where
  "dump_entry url n v = \<lparr>gx_type_url = url, gx_name = n, gx_config = Some (text_any url v)\<rparr>"

definition sample_config :: "unit client_config" where
  "sample_config =
     \<lparr>cc_node = Some (),
      cc_generic =
        [dump_entry clusterTypeURL ''edge'' ''garbled'', dump_entry clusterTypeURL ''edge'' ''edge'',
         dump_entry clusterTypeURL ''dns'' ''dns'', dump_entry endpointTypeURL ''edge'' ''edge'',
         dump_entry endpointTypeURL ''other'' ''other'',
         dump_entry virtualHostTypeURL ''sidecar/http2/orders:443'' ''orders'']\<rparr>"

definition ref_to :: "int64 \<Rightarrow> channel_ref" where
  "ref_to i = \<lparr>cr_id = i, cr_name = ''sub''\<rparr>"

definition sample_channel :: "channel_response option" where
  "sample_channel = Some \<lparr>resp_channel = Some \<lparr>ch_ref = Some (ref_to 1), ch_data = None,
     ch_subchannels = map ref_to [3, 5, 7, 8, 11, 12],
     ch_channels = [], ch_sockets = []\<rparr>\<rparr>"

definition subchannel_at :: "int64 \<Rightarrow> gostring \<Rightarrow> subchannel_response" where
  "subchannel_at i target =
     \<lparr>resp_subchannel = Some \<lparr>sub_ref = Some (ref_to i),
        sub_data = Some \<lparr>cd_state = Some 2, cd_target = target, cd_calls_started = 10,
          cd_calls_succeeded = 7, cd_calls_failed = 2, cd_trace = None, cd_last_call = None\<rparr>,
        sub_sockets = [ref_to (i + 100)], sub_channels = [], sub_subchannels = []\<rparr>\<rparr>"

definition sample_sub :: "int64 \<Rightarrow> subchannel_response option" where
  "sample_sub i =
     (if i = 3 \<or> i = 5 then Some (subchannel_at i ''10.0.0.1:80'')
      else if i = 7 then Some (subchannel_at i ''10.0.0.5:80'')
      else if i = 8 then Some (subchannel_at i ''10.9.9.9:9443'')
      else if i = 11 then Some (subchannel_at i ''10.0.0.77:1'')
      else None)"

definition plain_orders :: orders where
  "plain_orders = \<lparr>ord_dns_match = (\<lambda>m. m), ord_siblings = (\<lambda>m. m), ord_dns_clusters = (\<lambda>m. m),
     ord_unmatched = (\<lambda>m. m), ord_matched = (\<lambda>m. m), ord_pools = (\<lambda>m. m)\<rparr>"

lemma fair_plain_orders: "fair_orders plain_orders"
  by (simp add: fair_orders_def plain_orders_def)

lemma sample_honest: "honest_server sample_lib sample_sub"
  by (auto simp: honest_server_def fetch_info_def sample_sub_def subchannel_at_def ref_to_def ref_id_def
      split: if_splits)

end
