(* ===== verification/Vhost.thy ===== *)
theory Vhost
  imports Sample Render
begin

text \<open>
  \<^verbatim>\<open>xds-vhost-page.go\<close>: the virtual hosts an xDS channel's client holds. The channel's own (dial-time)
  virtual host is looked up by name in the dump and comes first, the others follow by name, each with
  its role, authority and routes. The answers of the RPCs and the YAML marshaller are arguments, as is
  the order in which the name-field search ranges over the map.
\<close>

section \<open>Page data\<close>

record weightedClusterRow =
  wcr_Name :: gostring
  wcr_Weight :: uint32

record xdsRouteRow =
  rr_MatchYAML :: gostring
  rr_Cluster :: gostring
  rr_WeightedClusters :: "weightedClusterRow list"

record 'm xdsVirtualHostSection =
  vs_ResourceName :: gostring
  vs_Role :: gostring
  vs_OtherChannel :: int64
  vs_Authority :: gostring
  vs_Domains :: "gostring list"
  vs_VirtualHost :: "'m virtual_host"
  vs_Routes :: "xdsRouteRow list"

record ('m, 'n) xdsVirtualHostPageData =
  vp_ChannelID :: int64
  vp_Target :: gostring
  vp_ResourceName :: gostring
  vp_VHDSResourceName :: gostring
  vp_VirtualHosts :: "'m xdsVirtualHostSection list"
  vp_Node :: "'n option"
  vp_Error :: gostring

record 'm xdsVirtualHostDetailData =
  vd_ChannelID :: int64
  vd_Target :: gostring
  vd_VirtualHost :: "'m xdsVirtualHostSection option"
  vd_Error :: gostring

section \<open>Finding the channel's virtual host\<close>

definition sidecar_prefix :: gostring where
  "sidecar_prefix = ''sidecar/http2/''"

definition vhdsResourceName :: "gostring \<Rightarrow> gostring" where
  "vhdsResourceName targetResource = sidecar_prefix @ targetResource"

definition findVirtualHostForChannel ::
  "(gostring, 'm virtual_host) range_order \<Rightarrow> 'm xds_resources \<Rightarrow> gostring \<Rightarrow> gostring" where
  "findVirtualHostForChannel ord r resourceName =
     (case filter (\<lambda>candidate. gm_get (virtualHosts r) candidate \<noteq> None)
             [vhdsResourceName resourceName, resourceName] of
        candidate # _ \<Rightarrow> candidate
      | [] \<Rightarrow>
          (case filter (\<lambda>(n, v). vh_name v = resourceName) (ord (virtualHosts r)) of
             (n, v) # _ \<Rightarrow> n
           | [] \<Rightarrow> []))"

definition sortedKeys :: "(gostring, 'v) gomap \<Rightarrow> gostring list" where
  "sortedKeys m = sort_slice (\<lambda>s t. s < t) (gm_keys m)"

section \<open>Sections\<close>

definition weighted_row :: "route_cluster_weight \<Rightarrow> weightedClusterRow" where
  "weighted_row wc = \<lparr>wcr_Name = wc_name wc, wcr_Weight = weight_value (wc_weight wc)\<rparr>"

definition route_row :: "('m \<Rightarrow> gostring + gostring) \<Rightarrow> 'm route_msg \<Rightarrow> xdsRouteRow" where
  "route_row yaml route =
     \<lparr>rr_MatchYAML = renderProtoYAMLHTML yaml (route_match route),
      rr_Cluster = opt [] ra_cluster (route_route route),
      rr_WeightedClusters =
        map weighted_row (opt [] id (opt None ra_weighted (route_route route)))\<rparr>"

definition vhost_section ::
  "('m \<Rightarrow> gostring + gostring) \<Rightarrow> gostring \<Rightarrow> (gostring, int64) gomap \<Rightarrow> gostring \<Rightarrow> 'm virtual_host \<Rightarrow>
     'm xdsVirtualHostSection" where
  "vhost_section yaml dialTime others name v =
     (let authority = trimPrefix name sidecar_prefix;
          (role, channel) =
            (if name = dialTime then (''dial-time'', 0)
             else (case gm_get others name of
                     Some i \<Rightarrow> (''dial-time of channel'', i)
                   | None \<Rightarrow> (''call-time'', 0)))
      in \<lparr>vs_ResourceName = name, vs_Role = role, vs_OtherChannel = channel, vs_Authority = authority,
          vs_Domains = (if vh_domains v = [authority] then [] else vh_domains v),
          vs_VirtualHost = v, vs_Routes = map (route_row yaml) (vh_routes v)\<rparr>)"

text \<open>The dial-time resources of the other xDS channels; a later channel overwrites an earlier one.\<close>

definition add_other :: "int64 \<Rightarrow> channel_msg \<Rightarrow> (gostring, int64) gomap \<Rightarrow> (gostring, int64) gomap" where
  "add_other channelID c m =
     (if ref_id (ch_ref c) = channelID then m
      else (case parseXdsTarget (data_target (ch_data c)) of
              (authority, res, ok) \<Rightarrow>
                if ok then gm_set (vhdsResourceName res) (ref_id (ch_ref c)) m else m))"

definition otherChannels :: "int64 \<Rightarrow> top_channels_response option \<Rightarrow> (gostring, int64) gomap" where
  "otherChannels channelID tops = fold (add_other channelID) (opt [] top_channels tops) gm_empty"

definition vhost_names :: "gostring \<Rightarrow> (gostring, 'm virtual_host) gomap \<Rightarrow> gostring list" where
  "vhost_names dialTime vhosts =
     (let names = sortedKeys vhosts
      in if dialTime \<noteq> [] then dialTime # filter (\<lambda>n. n \<noteq> dialTime) names else names)"

definition vhost_sections ::
  "('m \<Rightarrow> gostring + gostring) \<Rightarrow> gostring \<Rightarrow> (gostring, int64) gomap \<Rightarrow> (gostring, 'm virtual_host) gomap \<Rightarrow>
     'm xdsVirtualHostSection list" where
  "vhost_sections yaml dialTime others vhosts =
     map (\<lambda>n. vhost_section yaml dialTime others n
       (case gm_get vhosts n of None \<Rightarrow> \<lparr>vh_name = [], vh_domains = [], vh_routes = []\<rparr> | Some v \<Rightarrow> v))
       (vhost_names dialTime vhosts)"

section \<open>getXdsVirtualHost\<close>

text \<open>The verbs \<^verbatim>\<open>%d\<close> and \<^verbatim>\<open>%v\<close> of the message: a count and a slice of strings.\<close>

definition fmt_strings :: "gostring list \<Rightarrow> gostring" where
  "fmt_strings ss = ''['' @ joinByte CHR '' '' ss @ '']''"

definition no_vhost_error :: "unicode_tables \<Rightarrow> gostring \<Rightarrow> (gostring, 'm virtual_host) gomap \<Rightarrow> gostring" where
  "no_vhost_error u resource vhosts =
     ''no VHDS resource matches '' @ goQuote u resource @ '' (looked up as '' @
     goQuote u (vhdsResourceName resource) @ ''). CSDS dump contains '' @ fmt_nat (length vhosts) @
     '' VHDS resource(s): '' @ fmt_strings (sortedKeys vhosts)"

definition empty_vhost_page :: "int64 \<Rightarrow> ('m, 'n) xdsVirtualHostPageData" where
  "empty_vhost_page channelID =
     \<lparr>vp_ChannelID = channelID, vp_Target = [], vp_ResourceName = [], vp_VHDSResourceName = [],
      vp_VirtualHosts = [], vp_Node = None, vp_Error = []\<rparr>"

definition getXdsVirtualHost ::
  "'m proto_lib \<Rightarrow> unicode_tables \<Rightarrow> ('m \<Rightarrow> gostring + gostring) \<Rightarrow> (gostring, 'm virtual_host) range_order \<Rightarrow>
     channel_response option \<Rightarrow> (gostring + 'n client_config option) \<Rightarrow> top_channels_response option \<Rightarrow>
     int64 \<Rightarrow> ('m, 'n) xdsVirtualHostPageData" where
  "getXdsVirtualHost lib u yaml ord ch cfg tops channelID =
     (let d = empty_vhost_page channelID
      in case Option.bind ch resp_channel of
           None \<Rightarrow> d\<lparr>vp_Error := ''channel not found''\<rparr>
         | Some c \<Rightarrow>
             (let target = data_target (ch_data c); d = d\<lparr>vp_Target := target\<rparr>
              in case parseXdsTarget target of (authority, resource, ok) \<Rightarrow>
                if \<not> ok then
                  d\<lparr>vp_Error := ''channel target '' @ goQuote u target @ '' is not an xds:// target''\<rparr>
                else
                  (let d = d\<lparr>vp_ResourceName := resource, vp_VHDSResourceName := vhdsResourceName resource\<rparr>
                   in case cfg of
                        Inl err \<Rightarrow> d\<lparr>vp_Error := ''CSDS FetchClientStatus failed: '' @ err\<rparr>
                      | Inr cc \<Rightarrow>
                          (let r = newXdsResources lib cc;
                               dialTime = findVirtualHostForChannel ord r resource
                           in d\<lparr>vp_Node := opt None cc_node cc,
                                vp_Error := (if dialTime = [] then no_vhost_error u resource (virtualHosts r) else []),
                                vp_VirtualHosts :=
                                  vhost_sections yaml dialTime (otherChannels channelID tops) (virtualHosts r)\<rparr>))))"

text \<open>The page of one virtual host: the last section of that name.\<close>

definition vhost_detail ::
  "unicode_tables \<Rightarrow> ('m, 'n) xdsVirtualHostPageData \<Rightarrow> int64 \<Rightarrow> gostring \<Rightarrow> 'm xdsVirtualHostDetailData" where
  "vhost_detail u data channelID resourceName =
     (let page = foldl (\<lambda>page s. if vs_ResourceName s = resourceName then page\<lparr>vd_VirtualHost := Some s\<rparr> else page)
            \<lparr>vd_ChannelID = channelID, vd_Target = vp_Target data, vd_VirtualHost = None, vd_Error = vp_Error data\<rparr>
            (vp_VirtualHosts data)
      in if vd_VirtualHost page = None \<and> vd_Error page = []
         then page\<lparr>vd_Error := ''no VHDS resource '' @ goQuote u resourceName @ '' in the CSDS dump''\<rparr>
         else page)"

section \<open>Lemmas\<close>

lemma set_sortedKeys [simp]: "set (sortedKeys m) = fst ` set m"
  by (simp add: sortedKeys_def gm_keys_def)

lemma distinct_sortedKeys: "gm_wf m \<Longrightarrow> distinct (sortedKeys m)"
  by (simp add: sortedKeys_def gm_keys_def gm_wf_def)

lemma sorted_sortedKeys: "slice_sorted (\<lambda>s t. s < t) (sortedKeys m)"
  unfolding sortedKeys_def by (rule str_order.sorted_sort_slice)

lemma slice_sorted_filter: "slice_sorted lt xs \<Longrightarrow> slice_sorted lt (filter P xs)"
  by (simp add: slice_sorted_def sorted_wrt_filter)

lemma find_cases:
  fixes r :: "'m xds_resources"
  assumes "fair_order ord" and "gm_wf (virtualHosts r)"
  shows "let n = findVirtualHostForChannel ord r res; vhosts = virtualHosts r in
    if gm_get vhosts (vhdsResourceName res) \<noteq> None then n = vhdsResourceName res
    else if gm_get vhosts res \<noteq> None then n = res
    else if \<exists>m v. gm_get vhosts m = Some v \<and> vh_name v = res
    then \<exists>v. gm_get vhosts n = Some v \<and> vh_name v = res
    else n = []"
proof -
  let ?hits = "filter (\<lambda>(n, v). vh_name v = res) (ord (virtualHosts r))"
  have mem: "(n, v) \<in> set ?hits \<longleftrightarrow> gm_get (virtualHosts r) n = Some v \<and> vh_name v = res" for n v
    using assms by (simp add: gm_entries_iff)
  show ?thesis
  proof (cases ?hits)
    case Nil
    have "\<not> (gm_get (virtualHosts r) n = Some v \<and> vh_name v = res)" for n v
      unfolding mem [symmetric] Nil by simp
    then have "\<not> (\<exists>m v. gm_get (virtualHosts r) m = Some v \<and> vh_name v = res)" by blast
    then show ?thesis by (simp add: findVirtualHostForChannel_def Nil Let_def) blast
  next
    case (Cons e es)
    obtain n v where e: "e = (n, v)" by (cases e)
    have "gm_get (virtualHosts r) n = Some v \<and> vh_name v = res"
      unfolding mem [symmetric] Cons e by simp
    then show ?thesis by (auto simp: findVirtualHostForChannel_def Cons e Let_def)
  qed
qed

lemma find_in_dump:
  assumes "fair_order ord" and "gm_wf (virtualHosts r)" and "findVirtualHostForChannel ord r res \<noteq> []"
  shows "findVirtualHostForChannel ord r res \<in> fst ` set (virtualHosts r)"
proof -
  have "gm_get (virtualHosts r) (findVirtualHostForChannel ord r res) \<noteq> None"
    using find_cases [OF assms(1,2), of res] assms(3) by (auto simp: Let_def split: if_splits)
  then show ?thesis by (auto simp: gm_get_def map_of_eq_None_iff)
qed

lemma vhost_names_facts:
  assumes "gm_wf m" and "dialTime \<noteq> [] \<longrightarrow> dialTime \<in> fst ` set m"
  shows "distinct (vhost_names dialTime m)" and "set (vhost_names dialTime m) = fst ` set m"
    and "slice_sorted (\<lambda>s t. s < t) (if dialTime = [] then vhost_names dialTime m else tl (vhost_names dialTime m))"
    and "dialTime \<noteq> [] \<Longrightarrow> hd (vhost_names dialTime m) = dialTime"
  using assms distinct_sortedKeys [OF assms(1)] sorted_sortedKeys [of m]
  by (auto simp: vhost_names_def Let_def slice_sorted_filter)

lemma vhost_section_name [simp]: "vs_ResourceName (vhost_section yaml d others n v) = n"
  by (simp add: vhost_section_def Let_def split: prod.splits)

lemma vhost_section_host [simp]: "vs_VirtualHost (vhost_section yaml d others n v) = v"
  by (simp add: vhost_section_def Let_def split: prod.splits)

lemma vhost_section_role:
  "vs_Role (vhost_section yaml d others n v) = ''dial-time'' \<longleftrightarrow> n = d"
  by (simp add: vhost_section_def Let_def split: option.splits)

lemma map_sections [simp]: "map vs_ResourceName (vhost_sections yaml d others m) = vhost_names d m"
  by (simp add: vhost_sections_def comp_def)

lemma getXdsVirtualHost_found:
  assumes "Option.bind ch resp_channel = Some c" and "parseXdsTarget (data_target (ch_data c)) = (a, resource, True)"
  shows "vp_VirtualHosts (getXdsVirtualHost lib u yaml ord ch (Inr cc) tops chan) =
      vhost_sections yaml (findVirtualHostForChannel ord (newXdsResources lib cc) resource)
        (otherChannels chan tops) (virtualHosts (newXdsResources lib cc))"
    and "vp_Error (getXdsVirtualHost lib u yaml ord ch (Inr cc) tops chan) =
      (if findVirtualHostForChannel ord (newXdsResources lib cc) resource = []
       then no_vhost_error u resource (virtualHosts (newXdsResources lib cc)) else [])"
  using assms by (simp_all add: getXdsVirtualHost_def Let_def)

section \<open>Properties\<close>

text \<open>
  C18. The virtual hosts page loses nothing: it has one section per VHDS resource of the dump, none
  twice; the channel's dial-time host, if one is found, comes first and is the only one in that
  role, the others follow by name; there is an error exactly when none is found.
\<close>

theorem vhost_page_complete:
  assumes "Option.bind ch resp_channel = Some c"
    and "parseXdsTarget (data_target (ch_data c)) = (a, resource, True)" and "fair_order ord"
  shows "let d = getXdsVirtualHost lib u yaml ord ch (Inr cc) tops chan;
             names = map vs_ResourceName (vp_VirtualHosts d);
             vhosts = virtualHosts (newXdsResources lib cc);
             dialTime = findVirtualHostForChannel ord (newXdsResources lib cc) resource
         in distinct names \<and> set names = fst ` set vhosts \<and>
            (vp_Error d = [] \<longleftrightarrow> dialTime \<noteq> []) \<and>
            (if dialTime = [] then slice_sorted (\<lambda>s t. s < t) names
             else hd names = dialTime \<and> slice_sorted (\<lambda>s t. s < t) (tl names)) \<and>
            (\<forall>s\<in>set (vp_VirtualHosts d). gm_get vhosts (vs_ResourceName s) = Some (vs_VirtualHost s) \<and>
               (vs_Role s = ''dial-time'' \<longleftrightarrow> vs_ResourceName s = dialTime))"
proof -
  let ?r = "newXdsResources lib cc"
  let ?dial = "findVirtualHostForChannel ord ?r resource"
  have "?dial \<noteq> [] \<longrightarrow> ?dial \<in> fst ` set (virtualHosts ?r)"
    using find_in_dump [OF assms(3)] by simp
  note names = vhost_names_facts [OF newXdsResources_wf(1) this]
  note page = getXdsVirtualHost_found [OF assms(1,2), of lib u yaml ord cc tops chan]
  have "gm_get (virtualHosts ?r) (vs_ResourceName s) = Some (vs_VirtualHost s) \<and>
      (vs_Role s = ''dial-time'' \<longleftrightarrow> vs_ResourceName s = ?dial)"
    if s: "s \<in> set (vhost_sections yaml ?dial (otherChannels chan tops) (virtualHosts ?r))" for s
  proof -
    obtain n where n: "n \<in> set (vhost_names ?dial (virtualHosts ?r))"
      and sec: "s = vhost_section yaml ?dial (otherChannels chan tops) n
        (case gm_get (virtualHosts ?r) n of None \<Rightarrow> \<lparr>vh_name = [], vh_domains = [], vh_routes = []\<rparr> | Some v \<Rightarrow> v)"
      using s by (auto simp: vhost_sections_def)
    have "gm_get (virtualHosts ?r) n \<noteq> None"
      using n names(2) by (simp add: gm_get_def map_of_eq_None_iff)
    then show ?thesis by (auto simp: sec vhost_section_role)
  qed
  moreover have "no_vhost_error u resource (virtualHosts ?r) \<noteq> []" by (simp add: no_vhost_error_def)
  ultimately show ?thesis
    using names unfolding Let_def page map_sections by auto
qed

definition orders_data :: channel_data where
  "orders_data = \<lparr>cd_state = Some 2, cd_target = ''xds:///orders:443'', cd_calls_started = 0,
     cd_calls_succeeded = 0, cd_calls_failed = 0, cd_trace = None, cd_last_call = None\<rparr>"

definition orders_channel :: channel_msg where
  "orders_channel = \<lparr>ch_ref = Some (ref_to 1), ch_data = Some orders_data, ch_subchannels = [], ch_channels = [], ch_sockets = []\<rparr>"

lemma orders_target: "parseXdsTarget (data_target (ch_data orders_channel)) = ([], ''orders:443'', True)"
  by (simp add: orders_channel_def orders_data_def data_target_def parseXdsTarget_def Let_def trimPrefix_def)

theorem vhost_page_complete_witness:
  "let d = getXdsVirtualHost sample_lib ascii_only (\<lambda>m. Inr ''any'') rev (Some \<lparr>resp_channel = Some orders_channel\<rparr>)
         (Inr (Some sample_config)) None 1
   in map vs_ResourceName (vp_VirtualHosts d) = [''sidecar/http2/orders:443''] \<and>
      set (map vs_ResourceName (vp_VirtualHosts d)) = fst ` set (virtualHosts (newXdsResources sample_lib (Some sample_config))) \<and>
      (\<forall>s\<in>set (vp_VirtualHosts d). vs_Role s = ''dial-time'' \<longleftrightarrow>
         vs_ResourceName s = findVirtualHostForChannel rev (newXdsResources sample_lib (Some sample_config)) ''orders:443'')"
proof -
  let ?d = "getXdsVirtualHost sample_lib ascii_only (\<lambda>m. Inr ''any'') rev (Some \<lparr>resp_channel = Some orders_channel\<rparr>)
         (Inr (Some sample_config)) None 1"
  have "map vs_ResourceName (vp_VirtualHosts ?d) = [''sidecar/http2/orders:443'']" by code_simp
  moreover have "Option.bind (Some \<lparr>resp_channel = Some orders_channel\<rparr>) resp_channel = Some orders_channel"
    by simp
  note vhost_page_complete [OF this orders_target fair_order_rev, of sample_lib ascii_only "\<lambda>m. Inr ''any''"
      "Some sample_config" None 1]
  ultimately show ?thesis unfolding Let_def by blast
qed

text \<open>
  C20. The page of one virtual host shows the section of that name of the overview, and an error when
  the overview has none, for whatever the overview holds.
\<close>

theorem vhost_detail_page:
  "case vd_VirtualHost (vhost_detail u data chan n) of
     Some s \<Rightarrow> s \<in> set (vp_VirtualHosts data) \<and> vs_ResourceName s = n \<and>
       vd_Error (vhost_detail u data chan n) = vp_Error data
   | None \<Rightarrow> n \<notin> set (map vs_ResourceName (vp_VirtualHosts data)) \<and> vd_Error (vhost_detail u data chan n) \<noteq> []"
proof -
  let ?step = "\<lambda>page s. if vs_ResourceName s = n then page\<lparr>vd_VirtualHost := Some s\<rparr> else page"
  have loop: "foldl ?step p ss = (if filter (\<lambda>s. vs_ResourceName s = n) ss = [] then p
      else p\<lparr>vd_VirtualHost := Some (last (filter (\<lambda>s. vs_ResourceName s = n) ss))\<rparr>)" for p ss
    by (induction ss arbitrary: p) auto
  let ?hits = "filter (\<lambda>s. vs_ResourceName s = n) (vp_VirtualHosts data)"
  show ?thesis
  proof (cases "?hits = []")
    case True
    then have "n \<notin> set (map vs_ResourceName (vp_VirtualHosts data))" by (auto simp: filter_empty_conv)
    then show ?thesis using True by (simp add: vhost_detail_def loop Let_def)
  next
    case False
    define s where "s = last ?hits"
    from False have "s \<in> set ?hits" unfolding s_def by (rule last_in_set)
    then have "s \<in> set (vp_VirtualHosts data)" "vs_ResourceName s = n" by auto
    then show ?thesis using False by (simp add: vhost_detail_def loop Let_def s_def [symmetric])
  qed
qed

text \<open>
  C19. Which virtual host is the dial-time one: the resource under the prefixed name, else the one under
  the raw name, else one whose name field is the resource name, in this order; none only if there is
  none of the three.
\<close>

theorem dial_time_vhost:
  assumes "fair_order ord"
  shows "let r = newXdsResources lib cc; n = findVirtualHostForChannel ord r res; vhosts = virtualHosts r in
    if gm_get vhosts (vhdsResourceName res) \<noteq> None then n = vhdsResourceName res
    else if gm_get vhosts res \<noteq> None then n = res
    else if \<exists>m v. gm_get vhosts m = Some v \<and> vh_name v = res
    then \<exists>v. gm_get vhosts n = Some v \<and> vh_name v = res
    else n = []"
  using find_cases [OF assms newXdsResources_wf(1)] by (simp only: Let_def)

theorem dial_time_vhost_witness:
  "gm_get (virtualHosts (newXdsResources sample_lib (Some sample_config))) (vhdsResourceName ''orders:443'') \<noteq> None \<and>
   findVirtualHostForChannel rev (newXdsResources sample_lib (Some sample_config)) ''orders:443'' = vhdsResourceName ''orders:443''"
proof -
  have "gm_get (virtualHosts (newXdsResources sample_lib (Some sample_config))) (vhdsResourceName ''orders:443'') \<noteq> None"
    by code_simp
  with dial_time_vhost [OF fair_order_rev, of sample_lib "Some sample_config" "''orders:443''"]
  show ?thesis by (simp add: Let_def)
qed

end
