(* ===== verification/XdsPages.thy ===== *)
theory XdsPages
  imports Template Sample Vhost
begin

text \<open>
  The templates of the xDS and pool pages, in \<^verbatim>\<open>xds-vhost-page.go\<close>, \<^verbatim>\<open>xds-cluster-page.go\<close> and
  \<^verbatim>\<open>pool-page.go\<close>, text and actions in the order of the source, and the pages written from the data
  computed in the theories of these files: the header, the template, the raw dump and the footer.
\<close>

section \<open>Templates\<close>

definition vhost_line :: "gostring \<Rightarrow> ('m, 'n) xdsVirtualHostPageData \<Rightarrow> 'm xdsVirtualHostSection \<Rightarrow> rendered" where
  \<open>vhost_line pre d s =
     (tseq [
     emit ''
	<tr>
		<td><a href="'',
     tlink pre [PStr ''xds'', PStr ''vhost'', PInt64 (vp_ChannelID d), PStr (vs_ResourceName s)],
     emit ''">'',
     emit (vs_ResourceName s),
     emit ''</a></td>
		<td>'',
     emit (vs_Authority s),
     tif (vs_Domains s \<noteq> []) (tseq [
       emit ''<br/><i>domains:</i> '',
       trange (vs_Domains s) (\<lambda>n. (tseq [
         emit n,
         emit '' '']))]) (emit []),
     emit ''</td>
		<td>'',
     emit (vs_Role s),
     tif (vs_OtherChannel s \<noteq> 0) (tseq [
       emit '' <a href="'',
       tlink pre [PStr ''channel'', PInt64 (vs_OtherChannel s)],
       emit ''">'',
       tint (vs_OtherChannel s),
       emit ''</a>'']) (emit []),
     emit ''</td>
		<td>'',
     emit (fmt_nat (length (vs_Routes s))),
     emit ''</td>
	</tr>
	''])\<close>

definition xdsVirtualHostsTemplate :: "gostring \<Rightarrow> ('m, 'n) xdsVirtualHostPageData \<Rightarrow> rendered" where
  \<open>xdsVirtualHostsTemplate pre d =
     (tseq [
     emit ''
'',
     tif (vp_Error d \<noteq> []) (tseq [
       emit ''
	<p><b>Error:</b> '',
       emit (vp_Error d),
       emit ''</p>
'']) (emit []),
     emit ''
<table frame=box cellspacing=0 cellpadding=2 class="vertical">
	<tr><th>Channel</th><td><a href="'',
     tlink pre [PStr ''channel'', PInt64 (vp_ChannelID d)],
     emit ''">'',
     tint (vp_ChannelID d),
     emit ''</a></td></tr>
	<tr><th>Target</th><td>'',
     emit (vp_Target d),
     emit ''</td></tr>
	<tr><th>Dial-time VHDS resource</th><td>'',
     emit (vp_VHDSResourceName d),
     emit ''</td></tr>
</table>

<h3>Virtual hosts</h3>
<table frame=box cellspacing=0 cellpadding=2>
	<tr class="header">
		<th>VHDS resource</th>
		<th>Authority</th>
		<th>Role</th>
		<th>Routes</th>
	</tr>
	'',
     trange (vp_VirtualHosts d) (\<lambda>s. vhost_line pre d s),
     emit ''
</table>
''])\<close>

definition route_line :: "gostring \<Rightarrow> 'm xdsVirtualHostDetailData \<Rightarrow> xdsRouteRow \<Rightarrow> rendered" where
  \<open>route_line pre d q =
     (tseq [
     emit ''
	<tr>
		<td><pre>'',
     emit (rr_MatchYAML q),
     emit ''</pre></td>
		<td>
			'',
     tif (rr_Cluster q \<noteq> []) (tseq [
       emit ''
				<a href="'',
       tlink pre [PStr ''xds'', PStr ''cluster'', PInt64 (vd_ChannelID d), PStr (rr_Cluster q)],
       emit ''">'',
       emit (rr_Cluster q),
       emit ''</a>
			'']) (emit []),
     emit ''
		</td>
		<td>
			'',
     trange (rr_WeightedClusters q) (\<lambda>w. (tseq [
       emit ''
				<a href="'',
       tlink pre [PStr ''xds'', PStr ''cluster'', PInt64 (vd_ChannelID d), PStr (wcr_Name w)],
       emit ''">'',
       emit (wcr_Name w),
       emit ''</a> ('',
       emit (formatUint (wcr_Weight w)),
       emit '')<br/>
			''])),
     emit ''
		</td>
	</tr>
	''])\<close>

definition vhost_body :: "gostring \<Rightarrow> 'm xdsVirtualHostDetailData \<Rightarrow> 'm xdsVirtualHostSection \<Rightarrow> rendered" where
  \<open>vhost_body pre d s =
     (tseq [
     emit ''
	<tr><th>VHDS resource</th><td>'',
     emit (vs_ResourceName s),
     emit ''</td></tr>
	<tr><th>Authority</th><td>'',
     emit (vs_Authority s),
     emit ''</td></tr>
	<tr><th>Role</th><td>'',
     emit (vs_Role s),
     tif (vs_OtherChannel s \<noteq> 0) (tseq [
       emit '' <a href="'',
       tlink pre [PStr ''channel'', PInt64 (vs_OtherChannel s)],
       emit ''">'',
       tint (vs_OtherChannel s),
       emit ''</a>'']) (emit []),
     emit ''</td></tr>
'',
     tif (vs_Domains s \<noteq> []) (tseq [
       emit ''
	<tr><th>Domains</th><td>'',
       trange (vs_Domains s) (\<lambda>n. (tseq [
         emit n,
         emit ''<br/>''])),
       emit ''</td></tr>
'']) (emit []),
     emit ''
</table>

<h3>Routes</h3>
<table frame=box cellspacing=0 cellpadding=2>
	<tr class="header">
		<th>Match</th>
		<th>Cluster</th>
		<th>Weighted clusters</th>
	</tr>
	'',
     trange (vs_Routes s) (\<lambda>q. route_line pre d q),
     emit ''
</table>
''])\<close>

definition xdsVirtualHostTemplate :: "gostring \<Rightarrow> 'm xdsVirtualHostDetailData \<Rightarrow> rendered" where
  \<open>xdsVirtualHostTemplate pre d =
     (tseq [
     emit ''
'',
     tif (vd_Error d \<noteq> []) (tseq [
       emit ''
	<p><b>Error:</b> '',
       emit (vd_Error d),
       emit ''</p>
'']) (emit []),
     emit ''
<table frame=box cellspacing=0 cellpadding=2 class="vertical">
	<tr><th>Channel</th><td><a href="'',
     tlink pre [PStr ''channel'', PInt64 (vd_ChannelID d)],
     emit ''">'',
     tint (vd_ChannelID d),
     emit ''</a> (<a href="'',
     tlink pre [PStr ''xds'', PStr ''vhost'', PInt64 (vd_ChannelID d)],
     emit ''">all virtual hosts</a>)</td></tr>
	<tr><th>Target</th><td>'',
     emit (vd_Target d),
     emit ''</td></tr>
'',
     twith (vd_VirtualHost d) (\<lambda>s. (vhost_body pre d s)) (tseq [
       emit ''
</table>
'']),
     emit ''
''])\<close>

definition cluster_pool_line :: "gostring \<Rightarrow> 'n xdsClusterPageData \<Rightarrow> poolRow \<Rightarrow> rendered" where
  \<open>cluster_pool_line pre d q =
     (tseq [
     emit ''
	<tr>
		<td><a href="'',
     tlink pre [PStr ''channel'', PInt64 (xc_ChannelID d), PStr ''pool''],
     emit ''?addr='',
     emit (queryEscape (pr_Address q)),
     emit ''&cluster='',
     emit (queryEscape (xc_ClusterName d)),
     emit ''">'',
     emit (pr_Address q),
     emit ''</a></td>
		<td>'',
     emit (fmt_nat (pr_Count q)),
     emit ''</td>
		<td>'',
     tint (pr_CallsStarted q),
     emit ''</td>
		<td>'',
     tint (pr_CallsFailed q),
     emit ''</td>
	</tr>
	''])\<close>

definition cluster_pools :: "gostring \<Rightarrow> 'n xdsClusterPageData \<Rightarrow> rendered" where
  \<open>cluster_pools pre d =
     (tseq [
     emit ''
<table frame=box cellspacing=0 cellpadding=2>
	<tr class="header">
		<th>Address</th>
		<th># Subchannels</th>
		<th>Calls started</th>
		<th>Calls failed</th>
	</tr>
	'',
     trange (xc_Pools d) (\<lambda>q. cluster_pool_line pre d q),
     emit ''
</table>
''])\<close>

definition endpoint_line :: "gostring \<Rightarrow> 'sec printers \<Rightarrow> 'n xdsClusterPageData \<Rightarrow> endpointRow \<Rightarrow> rendered" where
  \<open>endpoint_line pre pr d e =
     (tseq [
     emit ''
	<tr>
		<td>'',
     emit (er_Address e),
     emit ''</td>
		<td>'',
     emit (show_health pr (er_HealthStatus e)),
     emit ''</td>
		<td>'',
     emit (formatUint (er_Weight e)),
     emit ''</td>
		<td>
			'',
     tif (er_SubchannelID e \<noteq> 0) (tseq [
       emit ''
				<a href="'',
       tlink pre [PStr ''subchannel'', PInt64 (er_SubchannelID e)],
       emit ''"><b>'',
       tint (er_SubchannelID e),
       emit ''</b> '',
       emit (er_SubchannelName e),
       emit ''</a>
				'',
       tif (1 < er_PoolSize e) (tseq [
         emit ''
					&nbsp;<a href="'',
         tlink pre [PStr ''channel'', PInt64 (xc_ChannelID d), PStr ''pool''],
         emit ''?addr='',
         emit (queryEscape (er_Address e)),
         emit ''&cluster='',
         emit (queryEscape (xc_ClusterName d)),
         emit ''">('',
         emit (fmt_nat (er_PoolSize e)),
         emit '' in pool)</a>
				'']) (emit []),
       emit ''
			'']) (tseq [
       emit ''
				&mdash;
			'']),
     emit ''
		</td>
		<td>'',
     tint (er_CallsStarted e),
     emit ''</td>
		<td>'',
     tint (er_CallsFailed e),
     emit ''</td>
	</tr>
	''])\<close>

definition cluster_localities :: "gostring \<Rightarrow> 'sec printers \<Rightarrow> 'n xdsClusterPageData \<Rightarrow> rendered" where
  \<open>cluster_localities pre pr d =
     (tseq [
     emit ''
<h4>Locality totals</h4>
<p>High-level check for zone-aware routing: calls should concentrate in the local locality if it's enabled.</p>
<table frame=box cellspacing=0 cellpadding=2>
	<tr class="header">
		<th>Locality</th>
		<th>Priority</th>
		<th>Weight</th>
		<th>Calls started</th>
		<th>Calls failed</th>
	</tr>
	'',
     trange (xc_Localities d) (\<lambda>g. (tseq [
       emit ''
	<tr>
		<td>'',
       emit (lg_Locality g),
       emit ''</td>
		<td>'',
       emit (formatUint (lg_Priority g)),
       emit ''</td>
		<td>'',
       emit (formatUint (lg_Weight g)),
       emit ''</td>
		<td>'',
       tint (lg_TotalCallsStarted g),
       emit ''</td>
		<td>'',
       tint (lg_TotalCallsFailed g),
       emit ''</td>
	</tr>
	''])),
     emit ''
</table>

'',
     trange (xc_Localities d) (\<lambda>g. (tseq [
       emit ''
<h4>Locality: '',
       emit (lg_Locality g),
       emit '' (priority '',
       emit (formatUint (lg_Priority g)),
       emit '', weight '',
       emit (formatUint (lg_Weight g)),
       emit '') &mdash; calls started '',
       tint (lg_TotalCallsStarted g),
       emit '', failed '',
       tint (lg_TotalCallsFailed g),
       emit ''</h4>
<table frame=box cellspacing=0 cellpadding=2>
	<tr class="header">
		<th>Address</th>
		<th>Health</th>
		<th>Weight</th>
		<th>Channelz subchannel</th>
		<th>Calls started</th>
		<th>Calls failed</th>
	</tr>
	'',
       trange (lg_Rows g) (\<lambda>e. endpoint_line pre pr d e),
       emit ''
</table>
''])),
     emit ''
''])\<close>

definition unmatched_line :: "gostring \<Rightarrow> unmatchedSubchannelRow \<Rightarrow> rendered" where
  \<open>unmatched_line pre u =
     (tseq [
     emit ''
	<tr>
		<td><a href="'',
     tlink pre [PStr ''subchannel'', PInt64 (us_SubchannelID u)],
     emit ''"><b>'',
     tint (us_SubchannelID u),
     emit ''</b> '',
     emit (us_Name u),
     emit ''</a></td>
		<td>'',
     emit (us_Target u),
     emit ''</td>
	</tr>
	''])\<close>

definition cluster_unmatched :: "gostring \<Rightarrow> 'n xdsClusterPageData \<Rightarrow> rendered" where
  \<open>cluster_unmatched pre d =
     (tseq [
     emit ''
<h3>Unmatched subchannels</h3>
<p>Subchannels of channel '',
     tint (xc_ChannelID d),
     emit '' whose address is not in the current EDS dump.</p>
<table frame=box cellspacing=0 cellpadding=2>
	<tr class="header"><th>Subchannel</th><th>Target</th></tr>
	'',
     trange (xc_UnmatchedSubchannels d) (\<lambda>u. unmatched_line pre u),
     emit ''
</table>
''])\<close>

definition cluster_body :: "gostring \<Rightarrow> 'sec printers \<Rightarrow> 'n xdsClusterPageData \<Rightarrow> cluster_msg \<Rightarrow> rendered" where
  \<open>cluster_body pre pr d c =
     (tseq [
     emit ''
<table frame=box cellspacing=0 cellpadding=2 class="vertical">
	<tr><th>Cluster name</th><td>'',
     emit (cluster_name c),
     emit ''</td></tr>
	<tr><th>Type</th><td>'',
     emit (show_discovery pr (cluster_type c)),
     emit ''</td></tr>
	<tr><th>LB policy</th><td>'',
     emit (xc_LbPolicy d),
     emit ''</td></tr>
	<tr><th>EDS service</th><td>'',
     emit (xc_EDSServiceName d),
     emit ''</td></tr>
	'',
     tif (cluster_lrs_server c) (tseq [
       emit ''<tr><th>LRS server</th><td>configured</td></tr>'']) (emit []),
     emit ''
</table>

<h3>Subchannel pools</h3>
<p>Subchannels attributed to this cluster, grouped by remote address. A pool of more than one subchannel indicates the dynamic-scaling path opened additional connections to the same IP.</p>
'',
     tif (xc_Pools d \<noteq> []) (cluster_pools pre d) ((tseq [
       emit ''
<p><i>No subchannels attributed to this cluster.</i></p>
''])),
     emit ''

'',
     tif (xc_IsDNSCluster d) (tseq [
       emit ''
<h3>Configured DNS endpoints (from CDS load_assignment)</h3>
'',
       tif (xc_Localities d = []) (tseq [
         emit ''
<p><i>No inline endpoints configured.</i></p>
'']) (emit []),
       emit ''
'']) (tseq [
       emit ''
<h3>Endpoints (from EDS)</h3>
'']),
     emit ''
'',
     tif (xc_Localities d \<noteq> []) (cluster_localities pre pr d) (tseq [
       tif (\<not> xc_IsDNSCluster d) (tseq [
         emit ''
<p><i>No EDS endpoints found for service name '',
         emit (xc_EDSServiceName d),
         emit ''.</i></p>
'']) (emit [])]),
     emit ''

'',
     tif (xc_UnmatchedSubchannels d \<noteq> []) (cluster_unmatched pre d) (emit []),
     emit ''
''])\<close>

definition xdsClusterTemplate :: "gostring \<Rightarrow> 'sec printers \<Rightarrow> 'n xdsClusterPageData \<Rightarrow> rendered" where
  \<open>xdsClusterTemplate pre pr d =
     (tseq [
     emit ''
'',
     tif (xc_Error d \<noteq> []) (tseq [
       emit ''
	<p><b>Error:</b> '',
       emit (xc_Error d),
       emit ''</p>
'']) (emit []),
     emit ''
<p>
	<a href="'',
     tlink pre [PStr ''channel'', PInt64 (xc_ChannelID d)],
     emit ''">&laquo; back to channel '',
     tint (xc_ChannelID d),
     emit ''</a>
	&nbsp;|&nbsp;
	<a href="'',
     tlink pre [PStr ''channel'', PInt64 (xc_ChannelID d), PStr ''pools''],
     emit ''">view subchannel pools</a>
</p>
'',
     twith (xc_Cluster d) (\<lambda>c. (cluster_body pre pr d c)) (emit []),
     emit ''
''])\<close>

definition pool_line :: "gostring \<Rightarrow> poolsPageData \<Rightarrow> poolRow \<Rightarrow> rendered" where
  \<open>pool_line pre d q =
     (tseq [
     emit ''
	<tr>
		<td><a href="'',
     tlink pre [PStr ''channel'', PInt64 (pp_ChannelID d), PStr ''pool''],
     emit ''?addr='',
     emit (queryEscape (pr_Address q)),
     emit ''">'',
     emit (pr_Address q),
     emit ''</a></td>
		<td>'',
     emit (fmt_nat (pr_Count q)),
     emit ''</td>
		<td>
			'',
     trange (pr_SubchannelIDs q) (\<lambda>i. (tseq [
       emit ''
				<a href="'',
       tlink pre [PStr ''subchannel'', PInt64 i],
       emit ''"><b>'',
       tint i,
       emit ''</b></a>
			''])),
     emit ''
		</td>
	</tr>
	''])\<close>

definition subchannelPoolsTemplate :: "gostring \<Rightarrow> poolsPageData \<Rightarrow> rendered" where
  \<open>subchannelPoolsTemplate pre d =
     (tseq [
     emit ''
<p><a href="'',
     tlink pre [PStr ''channel'', PInt64 (pp_ChannelID d)],
     emit ''">&laquo; back to channel '',
     tint (pp_ChannelID d),
     emit ''</a></p>
<p>Subchannels grouped by their remote address. Pools with more than one subchannel indicate that the dynamic-scaling path opened additional connections to the same IP (e.g. on MAX_CONCURRENT_STREAMS).</p>
'',
     tif (pp_Pools d \<noteq> []) (tseq [
       emit ''
<table frame=box cellspacing=0 cellpadding=2>
	<tr class="header">
		<th>Address</th>
		<th># Subchannels</th>
		<th>Subchannels</th>
	</tr>
	'',
       trange (pp_Pools d) (\<lambda>q. pool_line pre d q),
       emit ''
</table>
'']) (tseq [
       emit ''
<p><i>No subchannels found for this channel.</i></p>
'']),
     emit ''
''])\<close>

definition member_line :: "gostring \<Rightarrow> poolMemberRow \<Rightarrow> rendered" where
  \<open>member_line pre w =
     (tseq [
     emit ''
	<tr>
		<td><a href="'',
     tlink pre [PStr ''subchannel'', PInt64 (pm_SubchannelID w)],
     emit ''"><b>'',
     tint (pm_SubchannelID w),
     emit ''</b></a></td>
		<td>'',
     emit (pm_Name w),
     emit ''</td>
		<td>'',
     emit (pm_State w),
     emit ''</td>
		<td>'',
     tint (pm_CallsStarted w),
     emit ''</td>
		<td>'',
     tint (pm_CallsFailed w),
     emit ''</td>
		<td>
			'',
     trange (pm_SocketIDs w) (\<lambda>i. (tseq [
       emit ''
				<a href="'',
       tlink pre [PStr ''socket'', PInt64 i],
       emit ''">'',
       tint i,
       emit ''</a>
			''])),
     emit ''
		</td>
	</tr>
	''])\<close>

definition subchannelPoolTemplate :: "gostring \<Rightarrow> poolDetailPageData \<Rightarrow> rendered" where
  \<open>subchannelPoolTemplate pre d =
     (tseq [
     emit ''
<p>
	<a href="'',
     tlink pre [PStr ''channel'', PInt64 (pd_ChannelID d)],
     emit ''">&laquo; back to channel '',
     tint (pd_ChannelID d),
     emit ''</a>
	&nbsp;|&nbsp;
	<a href="'',
     tlink pre [PStr ''channel'', PInt64 (pd_ChannelID d), PStr ''pools''],
     emit ''">all pools</a>
</p>
<table frame=box cellspacing=0 cellpadding=2 class="vertical">
	<tr><th>Channel</th><td>'',
     tint (pd_ChannelID d),
     emit ''</td></tr>
	<tr><th>Address</th><td>'',
     emit (pd_Address d),
     emit ''</td></tr>
	<tr><th># Subchannels</th><td>'',
     emit (fmt_nat (length (pd_Members d))),
     emit ''</td></tr>
	'',
     tif (pd_ClusterName d \<noteq> []) (tseq [
       emit ''<tr><th>Cluster</th><td>'',
       emit (pd_ClusterName d),
       emit ''</td></tr>'']) (emit []),
     emit ''
	<tr><th>max_concurrent_streams</th><td>'',
     tif (pd_MaxConcurrentStreamsSet d) (tseq [
       emit (formatUint (pd_MaxConcurrentStreams d))]) (tseq [
       tif (pd_ClusterName d \<noteq> []) (tseq [
         emit ''<i>(unset on cluster '',
         emit (pd_ClusterName d),
         emit '')</i>'']) ((tseq [
         emit (''<i>(unknown '' @ [CHR 0xE2, CHR 0x80, CHR 0x94] @ '' no cluster context)</i>'')]))]),
     emit ''
	</td></tr>
</table>
'',
     tif (pd_Members d \<noteq> []) (tseq [
       emit ''
<table frame=box cellspacing=0 cellpadding=2>
	<tr class="header">
		<th>Subchannel</th>
		<th>Name</th>
		<th>State</th>
		<th>Calls started</th>
		<th>Calls failed</th>
		<th>Socket(s)</th>
	</tr>
	'',
       trange (pd_Members d) (\<lambda>w. member_line pre w),
       emit ''
</table>
'']) (tseq [
       emit ''
<p><i>No subchannels currently targeting this address.</i></p>
'']),
     emit ''
''])\<close>

section \<open>Writers\<close>

text \<open>
  The messages the resolver's marshaller is given: those of the raw dumps and the matches of routes.
  What the page data is computed from, as in the theories of these files, are the answers of the
  target: \<open>ch\<close> of \<^verbatim>\<open>getChannel\<close>, \<open>tops\<close> of \<^verbatim>\<open>getTopChannels\<close>, \<open>cfg\<close> of \<^verbatim>\<open>fetchClientStatus\<close> and
  \<open>maps\<close> of \<^verbatim>\<open>subchannelsByAddress\<close>.
\<close>

datatype ('m, 'n) dump_msg = NodeMsg 'n | ClusterMsg cluster_msg | AssignmentMsg cluster_load_assignment
  | VirtualHostMsg "'m virtual_host" | MatchMsg 'm

type_synonym ('m, 'n) marshaller = "('m, 'n) dump_msg \<Rightarrow> gostring + gostring"

definition WriteXdsVirtualHostsPage ::
  "gostring \<Rightarrow> 'm proto_lib \<Rightarrow> unicode_tables \<Rightarrow> ('m, 'n) marshaller \<Rightarrow> (gostring, 'm virtual_host) range_order \<Rightarrow>
     channel_response option \<Rightarrow> (gostring + 'n client_config option) \<Rightarrow> top_channels_response option \<Rightarrow> int64 \<Rightarrow> gostring" where
  "WriteXdsVirtualHostsPage pre lib u yaml ord ch cfg tops channelID =
     (let data = getXdsVirtualHost lib u (\<lambda>r. yaml (MatchMsg r)) ord ch cfg tops channelID
      in writeHeader (''xDS VirtualHosts for channel '' @ formatInt channelID) @ fst (xdsVirtualHostsTemplate pre data) @
         writeRawDump yaml [\<lparr>rd_Title = ''Node'', rd_Msg = map_option NodeMsg (vp_Node data)\<rparr>] @ writeFooter)"

definition WriteXdsVirtualHostPage ::
  "gostring \<Rightarrow> 'm proto_lib \<Rightarrow> unicode_tables \<Rightarrow> ('m, 'n) marshaller \<Rightarrow> (gostring, 'm virtual_host) range_order \<Rightarrow>
     channel_response option \<Rightarrow> (gostring + 'n client_config option) \<Rightarrow> top_channels_response option \<Rightarrow>
     int64 \<Rightarrow> gostring \<Rightarrow> gostring" where
  "WriteXdsVirtualHostPage pre lib u yaml ord ch cfg tops channelID resourceName =
     (let data = getXdsVirtualHost lib u (\<lambda>r. yaml (MatchMsg r)) ord ch cfg tops channelID;
          page = vhost_detail u data channelID resourceName
      in writeHeader (''xDS VirtualHost '' @ resourceName) @ fst (xdsVirtualHostTemplate pre page) @
         (case vd_VirtualHost page of
            None \<Rightarrow> []
          | Some s \<Rightarrow> writeRawDump yaml [\<lparr>rd_Title = ''VirtualHost'', rd_Msg = Some (VirtualHostMsg (vs_VirtualHost s))\<rparr>]) @
         writeFooter)"

definition WriteXdsClusterPage ::
  "gostring \<Rightarrow> 'sec printers \<Rightarrow> 'm proto_lib \<Rightarrow> unicode_tables \<Rightarrow> ('m, 'n) marshaller \<Rightarrow> orders \<Rightarrow>
     (gostring + 'n client_config option) \<Rightarrow> addr_map \<times> info_map \<Rightarrow> int64 \<Rightarrow> gostring \<Rightarrow> gostring" where
  "WriteXdsClusterPage pre pr lib u yaml ord cfg maps channelID clusterName =
     (let d = getXdsCluster lib u ord cfg maps channelID clusterName
      in writeHeader (''xDS Cluster '' @ clusterName @ '' (channel '' @ formatInt channelID @ '')'') @
         fst (xdsClusterTemplate pre pr d) @
         writeRawDump yaml
           [\<lparr>rd_Title = ''Node'', rd_Msg = map_option NodeMsg (xc_Node d)\<rparr>,
            \<lparr>rd_Title = ''Cluster (CDS)'', rd_Msg = map_option ClusterMsg (xc_Cluster d)\<rparr>,
            \<lparr>rd_Title = ''ClusterLoadAssignment (EDS)'', rd_Msg = map_option AssignmentMsg (xc_Assignment d)\<rparr>] @
         writeFooter)"

definition WriteSubchannelPoolsPage ::
  "gostring \<Rightarrow> (gostring, int64 list) range_order \<Rightarrow> addr_map \<times> info_map \<Rightarrow> int64 \<Rightarrow> gostring" where
  "WriteSubchannelPoolsPage pre ord maps channelID =
     writeHeader (''ChannelZ subchannel pools (channel '' @ formatInt channelID @ '')'') @
     fst (subchannelPoolsTemplate pre (subchannelPools ord maps channelID)) @ writeFooter"

definition WriteSubchannelPoolPage ::
  "gostring \<Rightarrow> 'm proto_lib \<Rightarrow> (gostring + 'n client_config option) \<Rightarrow> addr_map \<times> info_map \<Rightarrow>
     int64 \<Rightarrow> gostring \<Rightarrow> gostring \<Rightarrow> gostring" where
  "WriteSubchannelPoolPage pre lib cfg maps channelID address clusterName =
     writeHeader (''ChannelZ subchannel pool '' @ address @ '' (channel '' @ formatInt channelID @ '')'') @
     fst (subchannelPoolTemplate pre (subchannelPool lib cfg maps channelID address clusterName)) @ writeFooter"

section \<open>The templates always reach their end\<close>

lemma cluster_parts_finish [finishes]:
  "snd (cluster_pool_line pre d q)" "snd (endpoint_line pre pr d e)" "snd (unmatched_line pre u)"
  "snd (vhost_line pre vd s)" "snd (route_line pre dd rt)" "snd (pool_line pre pd q)" "snd (member_line pre w)"
  by (simp_all add: cluster_pool_line_def endpoint_line_def unmatched_line_def vhost_line_def route_line_def
      pool_line_def member_line_def finishes)

lemma cluster_sections_finish [finishes]:
  "snd (cluster_pools pre d)" "snd (cluster_localities pre pr d)" "snd (cluster_unmatched pre d)"
  "snd (vhost_body pre dd s)"
  by (simp_all add: cluster_pools_def cluster_localities_def cluster_unmatched_def vhost_body_def finishes)

lemma cluster_body_finishes [finishes]: "snd (cluster_body pre pr d c)"
  by (simp add: cluster_body_def finishes)

lemma xds_templates_finish:
  "snd (xdsVirtualHostsTemplate pre vd)" "snd (xdsVirtualHostTemplate pre dd)" "snd (xdsClusterTemplate pre pr d)"
  "snd (subchannelPoolsTemplate pre pd)" "snd (subchannelPoolTemplate pre md)"
  by (simp_all add: xdsVirtualHostsTemplate_def xdsVirtualHostTemplate_def xdsClusterTemplate_def
      subchannelPoolsTemplate_def subchannelPoolTemplate_def finishes split: option.splits)

end
