(* ===== verification/WorkerPool.thy ===== *)
theory WorkerPool
  imports Subchannels Steps
begin

text \<open>
  The bounded worker pool of \<^verbatim>\<open>subchannelsByAddress\<close>: the main goroutine sends the ids into the
  buffered channel \<^verbatim>\<open>in\<close> and closes it, up to 32 workers receive ids, fetch and send results into
  the buffered channel \<^verbatim>\<open>out\<close>, a closer closes \<^verbatim>\<open>out\<close> when all workers are done, and the main
  goroutine receives until \<^verbatim>\<open>out\<close> is closed and drained. Every send, receive and close is one step;
  the steps of the goroutines interleave freely. A send needs room in the buffer, whose capacity is
  the number of ids. The RPC of a worker returns: it is the step that takes the result of \<open>fetch\<close>.
\<close>

datatype wpc = WReceiving | WHolding int64 | WSending result | WDone

record pool =
  to_send :: "int64 list"
  in_q :: "int64 list"
  in_closed :: bool
  workers :: "wpc list"
  out_q :: "result list"
  out_closed :: bool
  received :: "result list"
  main_done :: bool

definition parallelism :: nat where
  "parallelism = 32"

definition worker_count :: "nat \<Rightarrow> nat" where
  "worker_count n = (if n < parallelism then n else parallelism)"

definition pool_start :: "int64 list \<Rightarrow> pool" where
  "pool_start ids =
     \<lparr>to_send = ids, in_q = [], in_closed = False,
      workers = replicate (worker_count (length ids)) WReceiving,
      out_q = [], out_closed = False, received = [], main_done = False\<rparr>"

inductive pool_step :: "(int64 \<Rightarrow> result option) \<Rightarrow> nat \<Rightarrow> pool \<Rightarrow> pool \<Rightarrow> bool" for fetch cap where
  send_id: "to_send s = i # rest \<Longrightarrow> length (in_q s) < cap \<Longrightarrow>
    pool_step fetch cap s (s\<lparr>to_send := rest, in_q := in_q s @ [i]\<rparr>)"
| close_in: "to_send s = [] \<Longrightarrow> \<not> in_closed s \<Longrightarrow>
    pool_step fetch cap s (s\<lparr>in_closed := True\<rparr>)"
| receive_id: "w < length (workers s) \<Longrightarrow> workers s ! w = WReceiving \<Longrightarrow> in_q s = i # rest \<Longrightarrow>
    pool_step fetch cap s (s\<lparr>in_q := rest, workers := (workers s)[w := WHolding i]\<rparr>)"
| skip_nil: "w < length (workers s) \<Longrightarrow> workers s ! w = WHolding i \<Longrightarrow> fetch i = None \<Longrightarrow>
    pool_step fetch cap s (s\<lparr>workers := (workers s)[w := WReceiving]\<rparr>)"
| fetched: "w < length (workers s) \<Longrightarrow> workers s ! w = WHolding i \<Longrightarrow> fetch i = Some r \<Longrightarrow>
    pool_step fetch cap s (s\<lparr>workers := (workers s)[w := WSending r]\<rparr>)"
| send_result: "w < length (workers s) \<Longrightarrow> workers s ! w = WSending r \<Longrightarrow> length (out_q s) < cap \<Longrightarrow>
    pool_step fetch cap s (s\<lparr>out_q := out_q s @ [r], workers := (workers s)[w := WReceiving]\<rparr>)"
| worker_done: "w < length (workers s) \<Longrightarrow> workers s ! w = WReceiving \<Longrightarrow> in_q s = [] \<Longrightarrow> in_closed s \<Longrightarrow>
    pool_step fetch cap s (s\<lparr>workers := (workers s)[w := WDone]\<rparr>)"
| close_out: "in_closed s \<Longrightarrow> \<forall>w\<in>set (workers s). w = WDone \<Longrightarrow> \<not> out_closed s \<Longrightarrow>
    pool_step fetch cap s (s\<lparr>out_closed := True\<rparr>)"
| receive_result: "in_closed s \<Longrightarrow> \<not> main_done s \<Longrightarrow> out_q s = r # rest \<Longrightarrow>
    pool_step fetch cap s (s\<lparr>out_q := rest, received := received s @ [r]\<rparr>)"
| finish: "in_closed s \<Longrightarrow> \<not> main_done s \<Longrightarrow> out_q s = [] \<Longrightarrow> out_closed s \<Longrightarrow>
    pool_step fetch cap s (s\<lparr>main_done := True\<rparr>)"

section \<open>Accounting\<close>

lemma sum_list_update_add:
  fixes f :: "'a \<Rightarrow> 'b::comm_monoid_add"
  shows "w < length ws \<Longrightarrow> sum_list (map f (ws[w := x])) + f (ws ! w) = sum_list (map f ws) + f x"
proof (induction ws arbitrary: w)
  case Nil
  then show ?case by simp
next
  case (Cons v ws)
  show ?case
  proof (cases w)
    case 0
    then show ?thesis by (simp add: ac_simps)
  next
    case (Suc k)
    then have "sum_list (map f (ws[k := x])) + f (ws ! k) = sum_list (map f ws) + f x"
      using Cons by simp
    then show ?thesis using Suc by (simp add: add.assoc)
  qed
qed

definition of_id :: "(int64 \<Rightarrow> result option) \<Rightarrow> int64 \<Rightarrow> result multiset" where
  "of_id fetch i = (case fetch i of None \<Rightarrow> {#} | Some r \<Rightarrow> {#r#})"

definition of_ids :: "(int64 \<Rightarrow> result option) \<Rightarrow> int64 list \<Rightarrow> result multiset" where
  "of_ids fetch ids = sum_list (map (of_id fetch) ids)"

fun of_worker :: "(int64 \<Rightarrow> result option) \<Rightarrow> wpc \<Rightarrow> result multiset" where
  "of_worker fetch WReceiving = {#}"
| "of_worker fetch (WHolding i) = of_id fetch i"
| "of_worker fetch (WSending r) = {#r#}"
| "of_worker fetch WDone = {#}"

fun busy :: "wpc \<Rightarrow> nat" where
  "busy (WHolding i) = 1"
| "busy (WSending r) = 1"
| "busy _ = 0"

text \<open>All results of the run: still to come, under way or received.\<close>

definition pool_results :: "(int64 \<Rightarrow> result option) \<Rightarrow> pool \<Rightarrow> result multiset" where
  "pool_results fetch s =
     of_ids fetch (to_send s) + of_ids fetch (in_q s) + sum_list (map (of_worker fetch) (workers s)) +
     mset (out_q s) + mset (received s)"

definition pool_load :: "pool \<Rightarrow> nat" where
  "pool_load s = length (to_send s) + length (in_q s) + sum_list (map busy (workers s)) + length (out_q s)"

text \<open>What the two closings and the end of the main goroutine imply.\<close>

definition pool_phase :: "pool \<Rightarrow> bool" where
  "pool_phase s \<longleftrightarrow>
     (in_closed s \<longrightarrow> to_send s = []) \<and>
     (WDone \<in> set (workers s) \<longrightarrow> in_closed s \<and> in_q s = []) \<and>
     (out_closed s \<longrightarrow> in_closed s \<and> (\<forall>w\<in>set (workers s). w = WDone)) \<and>
     (main_done s \<longrightarrow> out_closed s \<and> out_q s = [])"

definition pool_inv :: "(int64 \<Rightarrow> result option) \<Rightarrow> int64 list \<Rightarrow> pool \<Rightarrow> bool" where
  "pool_inv fetch ids s \<longleftrightarrow>
     pool_results fetch s = of_ids fetch ids \<and> pool_load s \<le> length ids \<and>
     length (workers s) = worker_count (length ids) \<and> pool_phase s"

lemma of_ids_simps [simp]: "of_ids fetch [] = {#}" "of_ids fetch (i # js) = of_id fetch i + of_ids fetch js"
  by (simp_all add: of_ids_def)

lemma of_ids_append [simp]: "of_ids fetch (ks @ js) = of_ids fetch ks + of_ids fetch js"
  by (simp add: of_ids_def)

lemma of_ids_map_filter: "of_ids fetch js = mset (List.map_filter fetch js)"
  by (induction js) (auto simp: of_id_def List.map_filter_simps split: option.splits)

lemma workers_update:
  assumes "w < length ws"
  shows "sum_list (map (of_worker fetch) (ws[w := x])) + of_worker fetch (ws ! w) =
      sum_list (map (of_worker fetch) ws) + of_worker fetch x"
    and "sum_list (map busy (ws[w := x])) + busy (ws ! w) = sum_list (map busy ws) + busy x"
  using assms by (rule sum_list_update_add)+

lemma pool_step_results: "pool_step fetch cap s t \<Longrightarrow> pool_results fetch t = pool_results fetch s"
proof (induction rule: pool_step.induct)
  case (receive_id w s i rest)
  then show ?case using workers_update(1) [OF receive_id(1), of fetch "WHolding i"]
    by (simp add: pool_results_def ac_simps)
next
  case (skip_nil w s i)
  then show ?case using workers_update(1) [OF skip_nil(1), of fetch WReceiving]
    by (simp add: pool_results_def of_id_def)
next
  case (fetched w s i r)
  then show ?case using workers_update(1) [OF fetched(1), of fetch "WSending r"]
    by (simp add: pool_results_def of_id_def)
next
  case (send_result w s r)
  then show ?case using workers_update(1) [OF send_result(1), of fetch WReceiving]
    by (simp add: pool_results_def ac_simps)
next
  case (worker_done w s)
  then show ?case using workers_update(1) [OF worker_done(1), of fetch WDone]
    by (simp add: pool_results_def)
qed (auto simp: pool_results_def ac_simps)

lemma pool_step_load: "pool_step fetch cap s t \<Longrightarrow> pool_load t \<le> pool_load s"
proof (induction rule: pool_step.induct)
  case (receive_id w s i rest)
  then show ?case using workers_update(2) [OF receive_id(1), of "WHolding i"]
    by (simp add: pool_load_def)
next
  case (skip_nil w s i)
  then show ?case using workers_update(2) [OF skip_nil(1), of WReceiving]
    by (simp add: pool_load_def)
next
  case (fetched w s i r)
  then show ?case using workers_update(2) [OF fetched(1), of "WSending r"]
    by (simp add: pool_load_def)
next
  case (send_result w s r)
  then show ?case using workers_update(2) [OF send_result(1), of WReceiving]
    by (simp add: pool_load_def)
next
  case (worker_done w s)
  then show ?case using workers_update(2) [OF worker_done(1), of WDone]
    by (simp add: pool_load_def)
qed (auto simp: pool_load_def)

lemma WDone_update: "WDone \<in> set (ws[w := x]) \<Longrightarrow> x \<noteq> WDone \<Longrightarrow> WDone \<in> set ws"
  using set_update_subset_insert [of ws w x] by auto

lemma phase_running:
  "pool_phase s \<Longrightarrow> w < length (workers s) \<Longrightarrow> workers s ! w \<noteq> WDone \<Longrightarrow> \<not> out_closed s \<and> \<not> main_done s"
  unfolding pool_phase_def using nth_mem by blast

lemma phase_update:
  assumes "pool_phase s" and "w < length (workers s)" and "workers s ! w \<noteq> WDone" and "x \<noteq> WDone"
  shows "pool_phase (s\<lparr>workers := (workers s)[w := x]\<rparr>)"
  using assms phase_running [OF assms(1-3)] WDone_update [of "workers s" w x]
  by (auto simp: pool_phase_def)

lemma pool_phase_step: "pool_step fetch cap s t \<Longrightarrow> pool_phase s \<Longrightarrow> pool_phase t"
proof (induction rule: pool_step.induct)
  case (receive_id w s i rest)
  then have "pool_phase (s\<lparr>workers := (workers s)[w := WHolding i]\<rparr>)" by (intro phase_update) auto
  moreover have "\<not> main_done s" using receive_id phase_running [of s w] by simp
  ultimately show ?case using receive_id by (auto simp: pool_phase_def)
next
  case (skip_nil w s i)
  then show ?case by (intro phase_update) auto
next
  case (fetched w s i r)
  then show ?case by (intro phase_update) auto
next
  case (send_result w s r)
  then have "pool_phase (s\<lparr>workers := (workers s)[w := WReceiving]\<rparr>)" by (intro phase_update) auto
  moreover have "\<not> main_done s" using send_result phase_running [of s w] by simp
  ultimately show ?case by (auto simp: pool_phase_def)
next
  case (worker_done w s)
  then have "\<not> out_closed s \<and> \<not> main_done s" by (intro phase_running) auto
  then show ?case using worker_done by (simp add: pool_phase_def)
qed (auto simp: pool_phase_def)

lemma sum_list_replicate_empty [simp]: "sum_list (replicate n ({#} :: 'a multiset)) = {#}"
  by (induction n) auto

lemma sum_list_all_zero: "\<forall>x\<in>set xs. f x = (0 :: 'b::comm_monoid_add) \<Longrightarrow> sum_list (map f xs) = 0"
  by (induction xs) auto

lemma pool_inv_start: "pool_inv fetch ids (pool_start ids)"
  by (auto simp: pool_inv_def pool_phase_def pool_start_def pool_results_def pool_load_def sum_list_replicate)

lemma pool_step_workers: "pool_step fetch cap s t \<Longrightarrow> length (workers t) = length (workers s)"
  by (induction rule: pool_step.induct) auto

lemma pool_inv_step: "pool_step fetch cap s t \<Longrightarrow> pool_inv fetch ids s \<Longrightarrow> pool_inv fetch ids t"
  using pool_step_results [of fetch cap s t] pool_step_load [of fetch cap s t]
    pool_step_workers [of fetch cap s t] pool_phase_step [of fetch cap s t]
  by (simp add: pool_inv_def)

section \<open>Progress and termination\<close>

fun weight :: "wpc \<Rightarrow> nat" where
  "weight WReceiving = 1"
| "weight (WHolding i) = 4"
| "weight (WSending r) = 3"
| "weight WDone = 0"

definition pool_size :: "pool \<Rightarrow> nat" where
  "pool_size s = 5 * length (to_send s) + 4 * length (in_q s) + sum_list (map weight (workers s)) +
     length (out_q s) + (if in_closed s then 0 else 1) + (if out_closed s then 0 else 1) +
     (if main_done s then 0 else 1)"

lemma pool_step_size: "pool_step fetch cap s t \<Longrightarrow> pool_size t < pool_size s"
proof (induction rule: pool_step.induct)
  case (receive_id w s i rest)
  then show ?case using sum_list_update_add [OF receive_id(1), of weight "WHolding i"]
    by (simp add: pool_size_def)
next
  case (skip_nil w s i)
  then show ?case using sum_list_update_add [OF skip_nil(1), of weight WReceiving]
    by (simp add: pool_size_def)
next
  case (fetched w s i r)
  then show ?case using sum_list_update_add [OF fetched(1), of weight "WSending r"]
    by (simp add: pool_size_def)
next
  case (send_result w s r)
  then show ?case using sum_list_update_add [OF send_result(1), of weight WReceiving]
    by (simp add: pool_size_def)
next
  case (worker_done w s)
  then show ?case using sum_list_update_add [OF worker_done(1), of weight WDone]
    by (simp add: pool_size_def)
qed (auto simp: pool_size_def)

lemma busy_room:
  assumes "w < length ws" and "busy (ws ! w) = 1"
  shows "1 \<le> sum_list (map busy ws)"
proof -
  have "busy (ws ! w) \<in> set (map busy ws)" using assms(1) by simp
  then have "busy (ws ! w) \<le> sum_list (map busy ws)" by (rule member_le_sum_list) simp
  with assms(2) show ?thesis by simp
qed

text \<open>As long as the main goroutine is not done, some goroutine can move: no channel operation blocks
  for ever.\<close>

lemma pool_progress:
  assumes inv: "pool_inv fetch ids s" and "\<not> main_done s"
  shows "\<exists>t. pool_step fetch (length ids) s t"
proof (cases "to_send s")
  case (Cons i rest)
  then have "length (in_q s) < length ids"
    using inv by (simp add: pool_inv_def pool_load_def)
  with Cons show ?thesis by (blast intro: send_id)
next
  case Nil
  show ?thesis
  proof (cases "in_closed s \<and> (\<forall>w\<in>set (workers s). w = WDone)")
    case True
    then show ?thesis using assms(2)
      by (cases "out_q s"; cases "out_closed s") (blast intro: pool_step.intros)+
  next
    case False
    show ?thesis
    proof (cases "in_closed s")
      case True
      with False obtain w where w: "w < length (workers s)" "workers s ! w \<noteq> WDone"
        by (metis in_set_conv_nth)
      show ?thesis
      proof (cases "workers s ! w")
        case WReceiving
        then show ?thesis using w True by (cases "in_q s") (blast intro: pool_step.intros)+
      next
        case (WHolding i)
        then show ?thesis using w by (cases "fetch i") (blast intro: pool_step.intros)+
      next
        case (WSending r)
        then have "length (out_q s) < length ids"
          using inv busy_room [OF w(1)] by (simp add: pool_inv_def pool_load_def)
        then show ?thesis using w WSending by (blast intro: send_result)
      next
        case WDone
        with w show ?thesis by simp
      qed
    next
      case False
      with Nil show ?thesis by (blast intro: close_in)
    qed
  qed
qed

lemma pool_stuck_iff_done:
  assumes "pool_inv fetch ids s"
  shows "(\<forall>t. \<not> pool_step fetch (length ids) s t) \<Longrightarrow> main_done s"
  using pool_progress [OF assms] by blast

text \<open>When it is done, the main goroutine has received every result, once.\<close>

lemma pool_done_results:
  assumes inv: "pool_inv fetch ids s" and fin: "main_done s"
  shows "mset (received s) = mset (List.map_filter fetch ids)"
proof -
  have all: "\<forall>w\<in>set (workers s). w = WDone" "to_send s = []" "out_q s = []"
    using inv fin by (auto simp: pool_inv_def pool_phase_def)
  then have ws: "sum_list (map (of_worker fetch) (workers s)) = {#}"
    by (intro sum_list_all_zero) auto
  have "in_q s = []"
  proof (cases "workers s")
    case Nil
    then have "length ids = 0"
      using inv by (auto simp: pool_inv_def worker_count_def parallelism_def split: if_splits)
    then show ?thesis using inv by (simp add: pool_inv_def pool_load_def)
  next
    case (Cons w ws)
    then show ?thesis using inv all(1) by (simp add: pool_inv_def pool_phase_def)
  qed
  then show ?thesis
    using inv all ws by (simp add: pool_inv_def pool_results_def of_ids_map_filter)
qed

interpretation pool: terminating_system "pool_step fetch (length ids)" "\<lambda>s. s = pool_start ids" "pool_inv fetch ids" pool_size
  for fetch ids
  by unfold_locales (auto intro: pool_inv_start pool_inv_step pool_step_size)

section \<open>What a finished run has computed\<close>

lemma map_filter_map: "List.map_filter f (map g xs) = List.map_filter (\<lambda>x. f (g x)) xs"
  by (induction xs) (auto simp: List.map_filter_simps split: option.splits)

abbreviation pool_reach :: "(int64 \<Rightarrow> result option) \<Rightarrow> int64 list \<Rightarrow> pool \<Rightarrow> bool" where
  "pool_reach fetch ids s \<equiv> reach (pool_step fetch (length ids)) (\<lambda>s. s = pool_start ids) s"

text \<open>A complete result list is the arrival order it stands for.\<close>

definition arrival_as :: "'a list \<Rightarrow> 'a list \<Rightarrow> 'a list" where
  "arrival_as rs xs = (if mset xs = mset rs then rs else xs)"

lemma fair_arrival_as [simp]: "fair_order (arrival_as rs)"
  by (simp add: fair_order_def arrival_as_def)

lemma pool_received:
  assumes "pool_reach (fetch_info lib sub) (map cr_id (channel_refs ch)) s" and "main_done s"
  shows "\<exists>arrival. fair_order arrival \<and>
    collect_results (received s) = subchannelsByAddress lib arrival ch sub"
proof (intro exI conjI)
  have "mset (received s) = mset (delivered lib sub (channel_refs ch))"
    using pool_done_results [OF pool.reachable_inv [OF assms(1)] assms(2)]
    by (simp add: delivered_def map_filter_map)
  then show "collect_results (received s) = subchannelsByAddress lib (arrival_as (received s)) ch sub"
    by (simp add: subchannelsByAddress_fair) (simp add: arrival_as_def)
qed simp

lemma pool_size_start: "pool_size (pool_start ids) = 5 * length ids + worker_count (length ids) + 3"
  by (simp add: pool_size_def pool_start_def sum_list_replicate)

lemma pool_completes: "\<exists>s. pool_reach fetch ids s \<and> main_done s"
proof -
  obtain n t where run: "run (pool_step fetch (length ids)) n (pool_start ids) t"
    and stuck: "\<forall>u. \<not> pool_step fetch (length ids) t u"
    using pool.reaches_stuck [OF pool_inv_start] by blast
  have reach: "pool_reach fetch ids t"
    by (rule reach_run [OF run reach_start]) simp
  have "main_done t"
    by (rule pool_stuck_iff_done [OF pool.reachable_inv [OF reach]]) (use stuck in blast)
  with reach show ?thesis by blast
qed

end
