(* ===== verification/Attribution.thy ===== *)
theory Attribution
  imports Sample WorkerPool
begin

text \<open>
  The pages of a channel over the subchannels it really has: the cluster page, the pools page and the
  worker pool that feeds them, put together. The results delivered for a channel (\<open>delivered\<close>) are
  the reference against which every table is checked.
\<close>

section \<open>What the two maps tell the page\<close>

lemma maps_facts:
  assumes "fair_order arrival" and "honest_server lib sub"
    and "subchannelsByAddress lib arrival ch sub = (byAddr, info)"
  shows "gm_wf byAddr" and "gm_wf info" and "maps_agree byAddr info"
    and "gm_get info sid = Some i \<longleftrightarrow> (sid, i) \<in> set (delivered lib sub (channel_refs ch))"
    and "gm_slice byAddr a = sort_slice id_less
      (map fst (filter (\<lambda>r. si_Target (snd r) = a) (arrival (delivered lib sub (channel_refs ch)))))"
proof -
  let ?rs = "arrival (delivered lib sub (channel_refs ch))"
  have maps: "collect_results ?rs = (byAddr, info)"
    using assms(1,3) by (simp add: subchannelsByAddress_fair)
  have con: "consistent ?rs" "consistent (rev ?rs)"
    using honest_consistent [OF assms(2)] assms(1) by (auto simp: consistent_def)
  show "gm_wf byAddr" "gm_wf info" "maps_agree byAddr info"
    using collect_results_wf [of ?rs] collect_results_agree [OF con(1)] by (simp_all add: maps)
  show "gm_get info sid = Some i \<longleftrightarrow> (sid, i) \<in> set (delivered lib sub (channel_refs ch))"
    using collect_results_info [of ?rs sid] map_of_consistent [OF con(2)] assms(1) by (simp add: maps)
  show "gm_slice byAddr a = sort_slice id_less (map fst (filter (\<lambda>r. si_Target (snd r) = a) ?rs))"
  proof (cases "a \<in> (\<lambda>r. si_Target (snd r)) ` set ?rs")
    case True
    then show ?thesis using collect_results_addr [of ?rs a] by (simp add: maps gm_slice_def)
  next
    case False
    then have none: "filter (\<lambda>r. si_Target (snd r) = a) ?rs = []" by (auto simp: filter_empty_conv)
    then show ?thesis using False collect_results_addr [of ?rs a] unfolding none
      by (simp add: maps gm_slice_def)
  qed
qed

lemma getXdsCluster_found:
  assumes "gm_get (clusters (newXdsResources lib cfg)) name = Some cl"
  shows "getXdsCluster lib u ord (Inr cfg) maps chan name =
    cluster_page lib u ord (newXdsResources lib cfg) cl maps
      ((empty_cluster_page chan name)\<lparr>xc_Node := opt None cc_node cfg\<rparr>)"
  using assms by (simp add: getXdsCluster_def Let_def)

lemma set_unmatchedRows:
  assumes "fair_order ord" and "gm_wf info"
  shows "set (map us_SubchannelID (unmatchedRows ord matched siblings ports info)) =
    {sid. \<exists>i. gm_get info sid = Some i \<and> sid \<notin> set matched \<and> si_Target i \<notin> set siblings \<and>
       portFromHostPort (si_Target i) \<notin> set ports}"
  using assms by (force simp: unmatchedRows_def gm_entries_iff)

lemma distinct_unmatchedRows:
  assumes "fair_order ord" and "gm_wf info"
  shows "distinct (map us_SubchannelID (unmatchedRows ord matched siblings ports info))"
proof -
  have keys: "distinct (map fst (filter P (ord info)))" for P
  proof -
    have "mset (map fst (ord info)) = mset (map fst info)" using assms(1) by simp
    then have "distinct (map fst (ord info))"
      using assms(2) unfolding gm_wf_def by (metis mset_eq_imp_distinct_iff)
    then show ?thesis by (rule distinct_map_filter)
  qed
  let ?P = "\<lambda>(sid, i). \<not> (sid \<in> set matched \<or> si_Target i \<in> set siblings \<or>
      portFromHostPort (si_Target i) \<in> set ports)"
  have "mset (map us_SubchannelID (unmatchedRows ord matched siblings ports info)) =
      mset (map fst (filter ?P (ord info)))"
    by (simp add: unmatchedRows_def multiset.map_comp comp_def split_def del: mset_filter)
  from mset_eq_imp_distinct_iff [OF this] keys [of ?P] show ?thesis by (rule iffD2)
qed

text \<open>
  C1. The cluster page splits the channel's subchannels. The pools hold exactly the delivered
  subchannels that belong to the cluster (by endpoint address, or for a DNS cluster by port), each
  once. The unmatched list holds, each once, exactly those that belong neither to it nor to any
  other resource the channel watches.
\<close>

theorem cluster_attribution:
  assumes "fair_orders ord" and "fair_order arrival" and "honest_server lib sub"
    and "gm_get (clusters (newXdsResources lib cfg)) name = Some cl"
  shows "let d = getXdsCluster lib u ord (Inr cfg) (subchannelsByAddress lib arrival ch sub) chan name;
             res = newXdsResources lib cfg; got = delivered lib sub (channel_refs ch);
             pooled = concat (map pr_SubchannelIDs (xc_Pools d));
             rest = map us_SubchannelID (xc_UnmatchedSubchannels d)
         in xc_Error d = [] \<and> distinct pooled \<and> distinct rest \<and>
            set pooled = {sid. \<exists>i. (sid, i) \<in> set got \<and> belongs res cl i} \<and>
            set rest = {sid. \<exists>i. (sid, i) \<in> set got \<and> \<not> belongs res cl i \<and> \<not> owned_elsewhere res i}"
proof -
  obtain byAddr info where maps: "subchannelsByAddress lib arrival ch sub = (byAddr, info)"
    by (metis prod.exhaust)
  note facts = maps_facts [OF assms(2,3) maps]
  let ?res = "newXdsResources lib cfg"
  let ?m = "matched_ids ord ?res cl (byAddr, info)"
  have fair: "fair_order (ord_matched ord)" "fair_order (ord_pools ord)" "fair_order (ord_unmatched ord)"
      "fair_order (ord_siblings ord)" "fair_order (ord_dns_clusters ord)"
    using assms(1) by (auto simp: fair_orders_def)
  have mem: "sid \<in> set ?m \<longleftrightarrow> (\<exists>i. gm_get info sid = Some i \<and> belongs ?res cl i)" for sid
    using assms(1) facts(2,3) by (rule set_matched_ids)
  let ?pooled = "concat (map pr_SubchannelIDs (clusterPools (ord_matched ord) (ord_pools ord) ?m info))"
  have pooled: "mset ?pooled = mset (filter (\<lambda>i. gm_get info i \<noteq> None) ?m)"
    using fair(1,2) by (rule clusterPools_ids)
  have "distinct ?pooled"
    unfolding mset_eq_imp_distinct_iff [OF pooled] by (intro distinct_filter distinct_matched_ids)
  moreover have "set ?pooled = {sid. \<exists>i. gm_get info sid = Some i \<and> belongs ?res cl i}"
    using mset_eq_setD [OF pooled] mem by auto
  moreover
  let ?rest = "unmatchedRows (ord_unmatched ord) ?m (siblingAddrs (ord_siblings ord) (endpoints ?res))
      (strictDNSPorts (ord_dns_clusters ord) (clusters ?res)) info"
  have "set (map us_SubchannelID ?rest) =
      {sid. \<exists>i. gm_get info sid = Some i \<and> \<not> belongs ?res cl i \<and> \<not> owned_elsewhere ?res i}"
    unfolding set_unmatchedRows [OF fair(3) facts(2)] mem set_siblingAddrs [OF fair(4)]
      set_strictDNSPorts [OF fair(5)]
    by (auto simp: owned_elsewhere_def)
  moreover have "distinct (map us_SubchannelID ?rest)"
    by (rule distinct_unmatchedRows [OF fair(3) facts(2)])
  moreover
  let ?d = "getXdsCluster lib u ord (Inr cfg) (byAddr, info) chan name"
  have "xc_Error ?d = []" "xc_Pools ?d = clusterPools (ord_matched ord) (ord_pools ord) ?m info"
      "xc_UnmatchedSubchannels ?d = ?rest"
    by (simp_all add: getXdsCluster_found [OF assms(4)] cluster_page_eq empty_cluster_page_def)
  ultimately show ?thesis
    unfolding Let_def maps by (simp only: facts(4) simp_thms)
qed

definition sample_page :: "unit xdsClusterPageData" where
  "sample_page = getXdsCluster sample_lib ascii_only plain_orders (Inr (Some sample_config))
     (subchannelsByAddress sample_lib rev sample_channel sample_sub) 1 ''edge''"

definition sample_results :: "result list" where
  "sample_results = delivered sample_lib sample_sub (channel_refs sample_channel)"

lemma sample_edge: "gm_get (clusters (newXdsResources sample_lib (Some sample_config))) ''edge'' = Some edge_cluster"
  by code_simp

text \<open>The page of the sample, evaluated once.\<close>

lemma sample_page_eq:
  "sample_page =
    \<lparr>xc_ChannelID = 1, xc_ClusterName = ''edge'', xc_Node = Some (), xc_Cluster = Some edge_cluster,
     xc_LbPolicy = ''ROUND_ROBIN'', xc_IsDNSCluster = False, xc_EDSServiceName = ''edge'',
     xc_Assignment = Some edge_endpoints,
     xc_Localities =
       [\<lparr>lg_Locality = ''us/a'', lg_Priority = 0, lg_Weight = 0,
         lg_Rows = [\<lparr>er_Address = ''10.0.0.1:80'', er_HealthStatus = HealthStatus 1, er_Weight = 1,
           er_Locality = ''us/a'', er_SubchannelID = 3, er_SubchannelName = ''sub'', er_PoolSize = 2,
           er_CallsStarted = 20, er_CallsFailed = 4\<rparr>],
         lg_TotalCallsStarted = 20, lg_TotalCallsFailed = 4\<rparr>,
        \<lparr>lg_Locality = ''us/b'', lg_Priority = 0, lg_Weight = 0,
         lg_Rows = [\<lparr>er_Address = ''10.0.0.2:80'', er_HealthStatus = HealthStatus 1, er_Weight = 1,
           er_Locality = ''us/b'', er_SubchannelID = 0, er_SubchannelName = [], er_PoolSize = 0,
           er_CallsStarted = 0, er_CallsFailed = 0\<rparr>],
         lg_TotalCallsStarted = 0, lg_TotalCallsFailed = 0\<rparr>],
     xc_Pools = [\<lparr>pr_Address = ''10.0.0.1:80'', pr_Count = 2, pr_SubchannelIDs = [3, 5], pr_CallsStarted = 20,
       pr_CallsSucceeded = 14, pr_CallsFailed = 4\<rparr>],
     xc_UnmatchedSubchannels = [\<lparr>us_SubchannelID = 11, us_Name = ''sub'', us_Target = ''10.0.0.77:1''\<rparr>],
     xc_Error = []\<rparr>"
  by code_simp

lemma sample_page_rows:
  "map pr_Address (xc_Pools sample_page) = [''10.0.0.1:80''] \<and>
   concat (map pr_SubchannelIDs (xc_Pools sample_page)) = [3, 5] \<and>
   map us_SubchannelID (xc_UnmatchedSubchannels sample_page) = [11]"
  by (simp add: sample_page_eq)

theorem cluster_attribution_witness:
  "set (concat (map pr_SubchannelIDs (xc_Pools sample_page))) =
     {sid. \<exists>i. (sid, i) \<in> set sample_results \<and> belongs (newXdsResources sample_lib (Some sample_config)) edge_cluster i} \<and>
   concat (map pr_SubchannelIDs (xc_Pools sample_page)) = [3, 5] \<and>
   map us_SubchannelID (xc_UnmatchedSubchannels sample_page) = [11]"
proof (intro conjI)
  show "set (concat (map pr_SubchannelIDs (xc_Pools sample_page))) =
     {sid. \<exists>i. (sid, i) \<in> set sample_results \<and> belongs (newXdsResources sample_lib (Some sample_config)) edge_cluster i}"
    using cluster_attribution [OF fair_plain_orders fair_order_rev sample_honest sample_edge]
    unfolding sample_page_def sample_results_def Let_def by blast
  show "concat (map pr_SubchannelIDs (xc_Pools sample_page)) = [3, 5]"
    and "map us_SubchannelID (xc_UnmatchedSubchannels sample_page) = [11]" using sample_page_rows by blast+
qed

section \<open>Independence of every order\<close>

definition same_lookups :: "addr_map \<times> info_map \<Rightarrow> addr_map \<times> info_map \<Rightarrow> bool" where
  "same_lookups m m' \<longleftrightarrow> (\<forall>a. gm_get (fst m) a = gm_get (fst m') a) \<and>
     (\<forall>i. gm_get (snd m) i = gm_get (snd m') i) \<and> gm_wf (snd m) \<and> gm_wf (snd m')"

lemma group_of_cong:
  assumes "same_lookups m m'"
  shows "group_of m = group_of m'"
proof -
  have info: "info_at (snd m) = info_at (snd m')" using assms by (simp add: info_at_def same_lookups_def fun_eq_iff)
  have get: "gm_get (fst m) = gm_get (fst m')" using assms by (simp add: same_lookups_def fun_eq_iff)
  have "endpoint_row m = endpoint_row m'"
    by (intro ext) (simp only: endpoint_row_def split_def Let_def info get)
  then show ?thesis by (intro ext) (simp only: group_of_def)
qed

lemma matched_ids_cong:
  assumes "same_lookups m m'" and "fair_orders o1" and "fair_orders o2"
  shows "mset (matched_ids o1 res c m) = mset (matched_ids o2 res c m')"
proof -
  have slices: "gm_slice (fst m) a = gm_slice (fst m') a" for a
    using assms(1) by (simp add: same_lookups_def gm_slice_def)
  have "mset (snd m) = mset (snd m')"
    using assms(1) gm_mset_eqI [of "snd m" "snd m'"] by (simp add: same_lookups_def)
  then have "set (snd m) = set (snd m')" by (metis set_mset_mset)
  then have "set (matched_ids o1 res c m) = set (matched_ids o2 res c m')"
    using assms(2,3) by (simp add: matched_ids_def dnsMatched_def fair_orders_def slices)
  then show ?thesis
    using distinct_matched_ids set_eq_iff_mset_eq_distinct by blast
qed

lemma unmatched_rows_decide:
  assumes "distinct (map us_SubchannelID rows)"
  shows "decides unmatched_less rows"
  unfolding decides_def
proof (intro ballI impI)
  fix x y assume "x \<in> set rows" "y \<in> set rows" "x \<noteq> y"
  then have "us_SubchannelID x \<noteq> us_SubchannelID y"
    using assms by (auto simp: distinct_map dest: inj_onD)
  then show "unmatched_less x y \<or> unmatched_less y x"
    by (simp add: unmatched_less_def id_less_linear)
qed

lemma unmatchedRows_cong:
  assumes "same_lookups (b, m) (b', m')" and "fair_order o1" and "fair_order o2"
    and "set matched = set matched'" and "set siblings = set siblings'" and "set ports = set ports'"
  shows "unmatchedRows o1 matched siblings ports m = unmatchedRows o2 matched' siblings' ports' m'"
proof -
  have wf: "gm_wf m" and same: "mset m = mset m'"
    using assms(1) gm_mset_eqI [of m m'] by (auto simp: same_lookups_def)
  show ?thesis
    unfolding unmatchedRows_def assms(4-6)
  proof (rule unmatched_order.sort_slice_mset_cong, goal_cases)
    case 1
    then show ?case using assms(2,3) same by simp
  next
    case 2
    have "distinct (map us_SubchannelID (unmatchedRows o1 matched siblings ports m))"
      using assms(2) wf by (rule distinct_unmatchedRows)
    then have "decides unmatched_less (unmatchedRows o1 matched siblings ports m)"
      by (rule unmatched_rows_decide)
    then show ?case
      unfolding unmatchedRows_def assms(4-6) by (simp add: decides_def)
  qed
qed

lemma cluster_page_cong:
  assumes "same_lookups m m'" and "fair_orders o1" and "fair_orders o2"
  shows "cluster_page lib u o1 res c m d = cluster_page lib u o2 res c m' d"
proof -
  have fair: "fair_order (ord_matched o1)" "fair_order (ord_pools o1)" "fair_order (ord_unmatched o1)"
      "fair_order (ord_siblings o1)" "fair_order (ord_dns_clusters o1)"
      "fair_order (ord_matched o2)" "fair_order (ord_pools o2)" "fair_order (ord_unmatched o2)"
      "fair_order (ord_siblings o2)" "fair_order (ord_dns_clusters o2)"
    using assms(2,3) by (auto simp: fair_orders_def)
  note ids = matched_ids_cong [OF assms, of res c]
  have "clusterPools (ord_matched o1) (ord_pools o1) (matched_ids o1 res c m) (snd m) =
      clusterPools (ord_matched o2) (ord_pools o2) (matched_ids o2 res c m') (snd m')"
    using fair ids assms(1) by (intro clusterPools_order_free) (simp_all add: same_lookups_def)
  moreover have "unmatchedRows (ord_unmatched o1) (matched_ids o1 res c m) (siblingAddrs (ord_siblings o1) (endpoints res))
        (strictDNSPorts (ord_dns_clusters o1) (clusters res)) (snd m) =
      unmatchedRows (ord_unmatched o2) (matched_ids o2 res c m') (siblingAddrs (ord_siblings o2) (endpoints res))
        (strictDNSPorts (ord_dns_clusters o2) (clusters res)) (snd m')"
    using fair assms(1) mset_eq_setD [OF ids]
    by (intro unmatchedRows_cong [of "fst m" _ "fst m'"]) (simp_all add: set_siblingAddrs set_strictDNSPorts)
  ultimately show ?thesis
    by (simp add: cluster_page_eq group_of_cong [OF assms(1)])
qed

lemma same_lookups_arrivals:
  assumes "fair_order a1" and "fair_order a2" and "honest_server lib sub"
  shows "same_lookups (subchannelsByAddress lib a1 ch sub) (subchannelsByAddress lib a2 ch sub)"
proof -
  let ?rs = "delivered lib sub (channel_refs ch)"
  have same: "mset (a1 ?rs) = mset (a2 ?rs)" using assms by simp
  have "consistent (a1 ?rs)" using honest_consistent [OF assms(3)] assms(1) by (simp add: consistent_def)
  then show ?thesis
    using addr_map_order_free [OF same] info_map_order_free [OF same] assms(1,2) collect_results_wf
    by (simp add: same_lookups_def subchannelsByAddress_fair)
qed

text \<open>
  C3. Any two complete runs of the worker pool over the same channel, with whatever interleaving
  of its goroutines, and any two iteration orders of all the map loops, give the same cluster page.
\<close>

theorem cluster_page_race_free:
  assumes "fair_orders o1" and "fair_orders o2" and "honest_server lib sub"
    and "pool_reach (fetch_info lib sub) (map cr_id (channel_refs ch)) s1" and "main_done s1"
    and "pool_reach (fetch_info lib sub) (map cr_id (channel_refs ch)) s2" and "main_done s2"
  shows "getXdsCluster lib u o1 cfg (collect_results (received s1)) chan name =
    getXdsCluster lib u o2 cfg (collect_results (received s2)) chan name"
proof -
  obtain a1 a2 where "fair_order a1" "collect_results (received s1) = subchannelsByAddress lib a1 ch sub"
      "fair_order a2" "collect_results (received s2) = subchannelsByAddress lib a2 ch sub"
    using pool_received [OF assms(4,5)] pool_received [OF assms(6,7)] by blast
  then have same: "same_lookups (collect_results (received s1)) (collect_results (received s2))"
    using same_lookups_arrivals [OF _ _ assms(3)] by simp
  show ?thesis
    by (simp add: getXdsCluster_def Let_def cluster_page_cong [OF same assms(1,2)] split: sum.splits option.splits)
qed

theorem cluster_page_race_free_witness:
  "\<exists>s1 s2. pool_reach (fetch_info sample_lib sample_sub) (map cr_id (channel_refs sample_channel)) s1 \<and> main_done s1 \<and>
     pool_reach (fetch_info sample_lib sample_sub) (map cr_id (channel_refs sample_channel)) s2 \<and> main_done s2 \<and>
     getXdsCluster sample_lib ascii_only plain_orders (Inr (Some sample_config)) (collect_results (received s1)) 1 ''edge'' =
     getXdsCluster sample_lib ascii_only (plain_orders\<lparr>ord_matched := rev, ord_unmatched := rev\<rparr>)
       (Inr (Some sample_config)) (collect_results (received s2)) 1 ''edge''"
proof -
  let ?fetch = "fetch_info sample_lib sample_sub" and ?ids = "map cr_id (channel_refs sample_channel)"
  obtain s where s: "pool_reach ?fetch ?ids s" "main_done s"
    using pool_completes by blast
  have "fair_orders (plain_orders\<lparr>ord_matched := rev, ord_unmatched := rev\<rparr>)"
    by (simp add: fair_orders_def plain_orders_def)
  from cluster_page_race_free [OF fair_plain_orders this sample_honest s s] s show ?thesis by blast
qed



section \<open>Endpoint rows\<close>

definition results_at :: "gostring \<Rightarrow> result list \<Rightarrow> subchannelInfo list" where
  "results_at a rs = map snd (filter (\<lambda>r. si_Target (snd r) = a) rs)"

lemma info_at_delivered:
  assumes "fair_order arrival" and "honest_server lib sub"
    and "subchannelsByAddress lib arrival ch sub = (byAddr, info)"
    and "r \<in> set (delivered lib sub (channel_refs ch))"
  shows "info_at info (fst r) = snd r"
proof -
  have "gm_get info (fst r) = Some (snd r)"
    unfolding maps_facts(4) [OF assms(1-3)] using assms(4) by simp
  then show ?thesis by (simp add: info_at_def)
qed

text \<open>Summing over the ids of one address is summing over the results with that target.\<close>

lemma sum_slice:
  fixes f :: "subchannelInfo \<Rightarrow> int64"
  assumes "fair_order arrival" and "honest_server lib sub"
    and "subchannelsByAddress lib arrival ch sub = (byAddr, info)"
  shows "sum_list (map (\<lambda>i. f (info_at info i)) (gm_slice byAddr a)) =
    sum_list (map f (results_at a (delivered lib sub (channel_refs ch))))"
proof -
  let ?got = "delivered lib sub (channel_refs ch)"
  let ?at = "\<lambda>rs. filter (\<lambda>r. si_Target (snd r) = a) rs"
  have "sum_list (map (\<lambda>i. f (info_at info i)) (gm_slice byAddr a)) =
      sum_list (map (\<lambda>i. f (info_at info i)) (map fst (?at ?got)))"
    using assms(1) unfolding maps_facts(5) [OF assms]
    by (intro sum_list_mset_cong) simp
  also have "map (\<lambda>i. f (info_at info i)) (map fst (?at ?got)) = map f (results_at a ?got)"
    using info_at_delivered [OF assms] by (simp add: results_at_def)
  finally show ?thesis .
qed

lemma length_slice:
  assumes "fair_order arrival" and "honest_server lib sub"
    and "subchannelsByAddress lib arrival ch sub = (byAddr, info)"
  shows "length (gm_slice byAddr a) = length (results_at a (delivered lib sub (channel_refs ch)))"
proof -
  let ?at = "\<lambda>rs. filter (\<lambda>r. si_Target (snd r) = a) rs"
  have "mset (?at (arrival (delivered lib sub (channel_refs ch)))) = mset (?at (delivered lib sub (channel_refs ch)))"
    using assms(1) by simp
  from mset_eq_length [OF this] show ?thesis
    by (simp add: maps_facts(5) [OF assms] results_at_def)
qed

lemma endpoint_row_slice:
  "endpoint_row (byAddr, info) loc ep =
     (let addr = formatLbEndpointAddress (Some ep); ids = gm_slice byAddr addr in
      \<lparr>er_Address = addr, er_HealthStatus = lbe_health_status ep, er_Weight = weight_value (lbe_weight ep),
       er_Locality = loc, er_SubchannelID = (case ids of [] \<Rightarrow> 0 | i # _ \<Rightarrow> i),
       er_SubchannelName = (case ids of [] \<Rightarrow> [] | i # _ \<Rightarrow> si_Name (info_at info i)),
       er_PoolSize = length ids,
       er_CallsStarted = sum_list (map (\<lambda>i. si_CallsStarted (info_at info i)) ids),
       er_CallsFailed = sum_list (map (\<lambda>i. si_CallsFailed (info_at info i)) ids)\<rparr>)"
  by (simp add: endpoint_row_def gm_slice_def Let_def split: option.splits list.splits)

text \<open>
  C10. Every locality table of the cluster page is one locality of the cluster's assignment: a row
  per endpoint in its order, with the number and the call counts of exactly the delivered
  subchannels whose target is the endpoint's address; the totals are the sums of the rows.
\<close>

theorem cluster_endpoint_rows:
  assumes "fair_order arrival" and "honest_server lib sub"
    and "gm_get (clusters (newXdsResources lib cfg)) name = Some cl"
    and "g \<in> set (xc_Localities (getXdsCluster lib u ord (Inr cfg) (subchannelsByAddress lib arrival ch sub) chan name))"
  shows "(\<exists>lle\<in>set (endpoints_of (cluster_assignment (newXdsResources lib cfg) cl)).
            map er_Address (lg_Rows g) = map (\<lambda>e. formatLbEndpointAddress (Some e)) (lle_lb_endpoints lle) \<and>
            lg_Locality g = formatLocality (lle_locality lle)) \<and>
    lg_TotalCallsStarted g = sum_list (map er_CallsStarted (lg_Rows g)) \<and>
    lg_TotalCallsFailed g = sum_list (map er_CallsFailed (lg_Rows g)) \<and>
    (\<forall>row\<in>set (lg_Rows g).
       let rs = results_at (er_Address row) (delivered lib sub (channel_refs ch))
       in er_PoolSize row = length rs \<and> er_CallsStarted row = sum_list (map si_CallsStarted rs) \<and>
          er_CallsFailed row = sum_list (map si_CallsFailed rs) \<and> er_Locality row = lg_Locality g)"
proof -
  obtain byAddr info where maps: "subchannelsByAddress lib arrival ch sub = (byAddr, info)"
    by (metis prod.exhaust)
  have "g \<in> group_of (byAddr, info) ` set (endpoints_of (cluster_assignment (newXdsResources lib cfg) cl))"
    using assms(4) by (simp add: maps getXdsCluster_found [OF assms(3)] cluster_page_eq)
  then obtain lle where "lle \<in> set (endpoints_of (cluster_assignment (newXdsResources lib cfg) cl))"
      and g: "g = group_of (byAddr, info) lle" by blast
  then show ?thesis
    by (auto simp: group_of_def new_group_def Let_def endpoint_row_slice
        sum_slice [OF assms(1,2) maps] length_slice [OF assms(1,2) maps] intro!: bexI [of _ lle])
qed

theorem cluster_endpoint_rows_witness:
  "\<exists>g\<in>set (xc_Localities sample_page). \<exists>row\<in>set (lg_Rows g).
     er_Address row = ''10.0.0.1:80'' \<and> er_PoolSize row = 2 \<and>
     er_PoolSize row = length (results_at (er_Address row) sample_results) \<and>
     lg_TotalCallsStarted g = sum_list (map er_CallsStarted (lg_Rows g)) \<and> lg_TotalCallsStarted g = 20"
proof -
  have "map (\<lambda>g. (lg_TotalCallsStarted g, map (\<lambda>r. (er_Address r, er_PoolSize r)) (lg_Rows g)))
      (xc_Localities sample_page) = [(20, [(''10.0.0.1:80'', 2)]), (0, [(''10.0.0.2:80'', 0)])]"
    by (simp add: sample_page_eq)
  then obtain g row where mem: "g \<in> set (xc_Localities sample_page)" "row \<in> set (lg_Rows g)"
      and at: "er_Address row = ''10.0.0.1:80''" "er_PoolSize row = 2" "lg_TotalCallsStarted g = 20"
    by (clarsimp simp: map_eq_Cons_conv) (metis list.set_intros(1))
  have "g \<in> set (xc_Localities (getXdsCluster sample_lib ascii_only plain_orders (Inr (Some sample_config))
      (subchannelsByAddress sample_lib rev sample_channel sample_sub) 1 ''edge''))"
    using mem(1) unfolding sample_page_def .
  note rows = cluster_endpoint_rows [OF fair_order_rev sample_honest sample_edge this]
  have "er_PoolSize row = length (results_at (er_Address row) sample_results)"
    using rows mem(2) unfolding sample_results_def Let_def by blast
  moreover have "lg_TotalCallsStarted g = sum_list (map er_CallsStarted (lg_Rows g))"
    using rows by blast
  ultimately show ?thesis using at mem by blast
qed


section \<open>The pools page\<close>

lemma addr_map_keys:
  assumes "fair_order arrival" and "subchannelsByAddress lib arrival ch sub = (byAddr, info)"
  shows "set (map fst byAddr) = (\<lambda>r. si_Target (snd r)) ` set (delivered lib sub (channel_refs ch))"
proof -
  let ?got = "delivered lib sub (channel_refs ch)"
  have "a \<in> set (map fst byAddr) \<longleftrightarrow> a \<in> (\<lambda>r. si_Target (snd r)) ` set ?got" for a
  proof -
    have "a \<in> set (map fst byAddr) \<longleftrightarrow> gm_get byAddr a \<noteq> None"
      by (simp add: gm_get_def map_of_eq_None_iff)
    also have "\<dots> \<longleftrightarrow> a \<in> (\<lambda>r. si_Target (snd r)) ` set ?got"
      using collect_results_addr [of "arrival ?got" a] assms by (simp add: subchannelsByAddress_fair)
    finally show ?thesis .
  qed
  then show ?thesis by blast
qed

lemma addr_map_size:
  assumes "fair_order arrival" and "subchannelsByAddress lib arrival ch sub = (byAddr, info)"
  shows "sum_list (map (\<lambda>e. length (snd e)) byAddr) = length (delivered lib sub (channel_refs ch))"
proof -
  let ?got = "delivered lib sub (channel_refs ch)"
  have "mset (concat (map snd (sort_addr_map (group_by (\<lambda>r. si_Target (snd r)) fst (arrival ?got) gm_empty)))) =
      mset (map fst (arrival ?got))"
    unfolding sort_addr_map_concat group_entries_concat [OF gm.wf_empty] by (simp add: gm_empty_def)
  then have "mset (concat (map snd byAddr)) = mset (map fst (arrival ?got))"
    using assms by (simp add: subchannelsByAddress_fair collect_results_eq)
  from mset_eq_length [OF this] show ?thesis
    using mset_eq_length [OF fair_order_mset [OF assms(1)], of ?got] by (simp add: length_concat comp_def)
qed

lemma pool_rows_addresses:
  assumes "fair_order ord"
  shows "mset (map pr_Address (sort_slice pool_less (map (pool_row info) (ord m)))) = mset (map fst m)"
  using assms by (simp add: multiset.map_comp comp_def)

lemma pool_rows_counts:
  assumes "fair_order ord"
  shows "sum_list (map pr_Count (sort_slice pool_less (map (pool_row info) (ord m)))) =
    sum_list (map (\<lambda>e. length (snd e)) m)"
  using assms sum_list_mset_cong [of "sort_slice pool_less (map (pool_row info) (ord m))" "map (pool_row info) m" pr_Count]
  by (simp add: comp_def)

text \<open>A row counts the results with its address, and their calls.\<close>

definition row_counts :: "result list \<Rightarrow> poolRow \<Rightarrow> bool" where
  "row_counts got row \<longleftrightarrow>
     (let rs = results_at (pr_Address row) got
      in pr_Count row = length rs \<and> pr_CallsStarted row = sum_list (map si_CallsStarted rs) \<and>
         pr_CallsSucceeded row = sum_list (map si_CallsSucceeded rs) \<and>
         pr_CallsFailed row = sum_list (map si_CallsFailed rs))"

lemma pool_row_counts:
  assumes "fair_order arrival" and "honest_server lib sub"
    and "subchannelsByAddress lib arrival ch sub = (byAddr, info)" and "e \<in> set byAddr"
  shows "row_counts (delivered lib sub (channel_refs ch)) (pool_row info e)"
proof -
  have "gm_slice byAddr (fst e) = snd e"
    using maps_facts(1) [OF assms(1-3)] assms(4) by (cases e) (simp add: gm_slice_def gm_entries_iff)
  then show ?thesis
    using sum_slice [OF assms(1-3), of _ "fst e"] length_slice [OF assms(1-3), of "fst e"]
    by (cases e) (simp add: row_counts_def pool_row_def Let_def)
qed

text \<open>
  C11. The pools page accounts for every delivered subchannel: largest pools first, one row per
  address that is the target of one, no address twice, row sizes that add up to the number of
  subchannels, and in each row the calls of the subchannels with that target.
\<close>

theorem pools_page_complete:
  assumes "fair_order arrival" and "fair_order ord" and "honest_server lib sub"
  shows "let rows = pp_Pools (subchannelPools ord (subchannelsByAddress lib arrival ch sub) chan);
             got = delivered lib sub (channel_refs ch)
         in slice_sorted pool_less rows \<and> distinct (map pr_Address rows) \<and>
            set (map pr_Address rows) = (\<lambda>r. si_Target (snd r)) ` set got \<and>
            sum_list (map pr_Count rows) = length got \<and> (\<forall>row\<in>set rows. row_counts got row)"
proof -
  obtain byAddr info where maps: "subchannelsByAddress lib arrival ch sub = (byAddr, info)"
    by (metis prod.exhaust)
  let ?rows = "sort_slice pool_less (map (pool_row info) (ord byAddr))"
  note addrs = pool_rows_addresses [OF assms(2), of info byAddr]
  have "distinct (map pr_Address ?rows)"
    unfolding mset_eq_imp_distinct_iff [OF addrs]
    using maps_facts(1) [OF assms(1,3) maps] by (simp add: gm_wf_def)
  moreover have "set (map pr_Address ?rows) = (\<lambda>r. si_Target (snd r)) ` set (delivered lib sub (channel_refs ch))"
    using mset_eq_setD [OF addrs] addr_map_keys [OF assms(1) maps] by simp
  moreover have "sum_list (map pr_Count ?rows) = length (delivered lib sub (channel_refs ch))"
    using pool_rows_counts [OF assms(2)] addr_map_size [OF assms(1) maps] by simp
  moreover have "\<forall>row\<in>set ?rows. row_counts (delivered lib sub (channel_refs ch)) row"
    using assms(2) by (auto intro: pool_row_counts [OF assms(1,3) maps])
  moreover have "slice_sorted pool_less ?rows" by (rule pool_order.sorted_sort_slice)
  ultimately show ?thesis
    unfolding Let_def maps subchannelPools_def by (simp only: split poolsPageData.simps simp_thms)
qed

theorem pools_page_complete_witness:
  "let rows = pp_Pools (subchannelPools rev (subchannelsByAddress sample_lib rev sample_channel sample_sub) 1)
   in sum_list (map pr_Count rows) = length sample_results \<and> map pr_Count rows = [2, 1, 1, 1] \<and>
      (\<forall>row\<in>set rows. row_counts sample_results row)"
proof -
  have "map pr_Count (pp_Pools (subchannelPools rev (subchannelsByAddress sample_lib rev sample_channel sample_sub) 1)) = [2, 1, 1, 1]"
    by code_simp
  then show ?thesis
    using pools_page_complete [OF fair_order_rev fair_order_rev sample_honest, of sample_channel 1]
    unfolding sample_results_def Let_def by blast
qed


section \<open>The page of one pool\<close>

text \<open>
  C12. The page of one address lists, by ascending id and each once for every time it was delivered,
  the subchannels with that target, and shows a stream limit only for a cluster found in the dump.
\<close>

theorem pool_page_members:
  assumes "fair_order arrival" and "honest_server lib sub"
  shows "let d = subchannelPool lib cfg (subchannelsByAddress lib arrival ch sub) chan addr name
         in slice_sorted member_less (pd_Members d) \<and>
            mset (pd_Members d) = mset (map (\<lambda>r. member_row (fst r) (snd r))
              (filter (\<lambda>r. si_Target (snd r) = addr) (delivered lib sub (channel_refs ch)))) \<and>
            (pd_MaxConcurrentStreams d, pd_MaxConcurrentStreamsSet d) =
              (if name = [] then (0, False)
               else case cfg of Inl err \<Rightarrow> (0, False)
                 | Inr c \<Rightarrow> clusterMaxConcurrentStreams lib
                     (map_of (rev (decoded clusterTypeURL (unmarshal_cluster lib) (dump_of c))) name))"
proof -
  obtain byAddr info where maps: "subchannelsByAddress lib arrival ch sub = (byAddr, info)"
    by (metis prod.exhaust)
  let ?at = "filter (\<lambda>r. si_Target (snd r) = addr) (delivered lib sub (channel_refs ch))"
  let ?row = "\<lambda>i. map_option (member_row i) (gm_get info i)"
  have filter_mset: "mset (List.map_filter f xs) = mset (List.map_filter f ys)" if "mset xs = mset ys" for f xs ys
    using that by (simp add: List.map_filter_def mset_map [symmetric] del: mset_map) (simp add: that)
  have same: "mset (gm_slice byAddr addr) = mset (map fst ?at)"
    using assms(1) by (simp add: maps_facts(5) [OF assms maps])
  have "gm_get info (fst r) = Some (snd r)" if "r \<in> set (delivered lib sub (channel_refs ch))" for r
    unfolding maps_facts(4) [OF assms maps] using that by simp
  then have "List.map_filter ?row (map fst rs) = map (\<lambda>r. member_row (fst r) (snd r)) rs"
    if "set rs \<subseteq> set (delivered lib sub (channel_refs ch))" for rs
    using that by (induction rs) (simp_all add: List.map_filter_simps)
  then have at: "List.map_filter ?row (map fst ?at) = map (\<lambda>r. member_row (fst r) (snd r)) ?at" by simp
  have rows: "mset (List.map_filter ?row (gm_slice byAddr addr)) = mset (map (\<lambda>r. member_row (fst r) (snd r)) ?at)"
    unfolding at [symmetric] by (rule filter_mset [OF same])
  obtain v b where limit: "pool_stream_limit lib cfg name = (v, b)" by (metis prod.exhaust)
  show ?thesis
    using rows limit unfolding Let_def maps
    by (simp add: subchannelPool_def member_order.sorted_sort_slice pool_stream_limit_def
        newXdsResources_maps gm.get_built del: mset_map split: if_splits sum.splits)
qed

theorem pool_page_members_witness:
  "mset (pd_Members (subchannelPool sample_lib (Inl ''down'') (subchannelsByAddress sample_lib rev sample_channel sample_sub)
       1 ''10.0.0.1:80'' ''edge'')) =
     mset (map (\<lambda>r. member_row (fst r) (snd r)) (filter (\<lambda>r. si_Target (snd r) = ''10.0.0.1:80'') sample_results)) \<and>
   map fst (filter (\<lambda>r. si_Target (snd r) = ''10.0.0.1:80'') sample_results) = [3, 5]"
proof
  show "mset (pd_Members (subchannelPool sample_lib (Inl ''down'') (subchannelsByAddress sample_lib rev sample_channel sample_sub)
       1 ''10.0.0.1:80'' ''edge'')) =
     mset (map (\<lambda>r. member_row (fst r) (snd r)) (filter (\<lambda>r. si_Target (snd r) = ''10.0.0.1:80'') sample_results))"
    using pool_page_members [OF fair_order_rev sample_honest] unfolding sample_results_def Let_def by blast
  show "map fst (filter (\<lambda>r. si_Target (snd r) = ''10.0.0.1:80'') sample_results) = [3, 5]" by code_simp
qed

section \<open>The worker pool\<close>

text \<open>
  C2. A run of the worker pool in which the main goroutine is through has computed
  \<^verbatim>\<open>subchannelsByAddress\<close>: the maps it has built are those of the sequential definition, for some
  order of arrival of the same results.
\<close>

theorem pool_refines:
  assumes "pool_reach (fetch_info lib sub) (map cr_id (channel_refs ch)) s" and "main_done s"
  shows "\<exists>arrival. fair_order arrival \<and>
    collect_results (received s) = subchannelsByAddress lib arrival ch sub"
  using assms by (rule pool_received)

theorem pool_refines_witness:
  "\<exists>s arrival. pool_reach (fetch_info sample_lib sample_sub) (map cr_id (channel_refs sample_channel)) s \<and> main_done s \<and>
     fair_order arrival \<and> collect_results (received s) = subchannelsByAddress sample_lib arrival sample_channel sample_sub"
  using pool_completes pool_refines by blast

text \<open>
  C4. The worker pool neither deadlocks nor runs for ever: a run over \<open>n\<close> ids has at most
  \<open>5 n + min n 32 + 3\<close> steps, and wherever it stands some goroutine can move, until the main
  goroutine has received the result of every id that has one, once.
\<close>

theorem pool_live:
  assumes "run (pool_step fetch (length ids)) n (pool_start ids) s"
  shows "n \<le> 5 * length ids + worker_count (length ids) + 3 \<and>
    ((\<exists>t. pool_step fetch (length ids) s t) \<or>
     (main_done s \<and> mset (received s) = mset (List.map_filter fetch ids)))"
proof
  note inv = pool_inv_start [of fetch ids]
  show "n \<le> 5 * length ids + worker_count (length ids) + 3"
    using pool.run_bounded [OF assms inv] by (simp add: pool_size_start)
  have "pool_inv fetch ids s"
    by (rule pool.reachable_inv [OF reach_run [OF assms reach_start]]) simp
  then show "(\<exists>t. pool_step fetch (length ids) s t) \<or>
     (main_done s \<and> mset (received s) = mset (List.map_filter fetch ids))"
    using pool_progress pool_done_results by blast
qed

theorem pool_live_witness:
  "\<exists>n s. run (pool_step (fetch_info sample_lib sample_sub) 2) n (pool_start [3, 12]) s \<and> n \<le> 15 \<and>
     main_done s \<and> mset (received s) = mset (List.map_filter (fetch_info sample_lib sample_sub) [3, 12])"
proof -
  let ?fetch = "fetch_info sample_lib sample_sub" and ?ids = "[3, 12] :: int64 list"
  obtain n t where run: "run (pool_step ?fetch (length ?ids)) n (pool_start ?ids) t"
    and "\<forall>u. \<not> pool_step ?fetch (length ?ids) t u"
    using pool.reaches_stuck [OF pool_inv_start] by blast
  then have "n \<le> 15 \<and> main_done t \<and> mset (received t) = mset (List.map_filter ?fetch ?ids)"
    using pool_live [OF run] by (simp add: worker_count_def parallelism_def)
  moreover have "length ?ids = 2" by simp
  ultimately show ?thesis using run by metis
qed

end
