(* ===== verification/Links.thy ===== *)
theory Links
  imports Pages XdsPages Attribution
begin

text \<open>
  From page to page: the anchors the pages hold and the pages a GET of them is served, which joins the
  templates (Pages, XdsPages) to the routes (Routes).
\<close>

section \<open>Anchors\<close>

definition anchor_open :: gostring where
  \<open>anchor_open = ''<a href="''\<close>

definition anchor :: "gostring \<Rightarrow> gostring" where
  "anchor href = anchor_open @ href @ [dquote]"

text \<open>An anchor is written where literal text ends in an open attribute, is followed by values, and
  literal text closes the attribute.\<close>

definition opens :: "gostring \<Rightarrow> bool" where
  "opens a \<longleftrightarrow> drop (length a - 9) a = anchor_open"

definition closes :: "gostring \<Rightarrow> bool" where
  "closes b \<longleftrightarrow> take 1 b = [dquote]"

lemma fst_tseq_emit: "fst (tseq (emit a # rs)) = a @ fst (tseq rs)"
  by (simp add: tseq_simps also_render_def emit_def)

lemma anchor_between:
  assumes "opens a" and "closes b"
  shows "shows_text (a @ href @ b @ rest) (anchor href)"
proof -
  have "a = take (length a - 9) a @ anchor_open" using assms(1) by (metis append_take_drop_id opens_def)
  moreover have "b = [dquote] @ drop 1 b" using assms(2) by (metis append_take_drop_id closes_def)
  ultimately have "a @ href @ b @ rest = take (length a - 9) a @ anchor href @ drop 1 b @ rest"
    unfolding anchor_def by (metis append_assoc)
  then show ?thesis unfolding shows_text_def by blast
qed

lemma anchor_shown:
  assumes "opens a" and "closes b"
  shows "shows_text (fst (tseq (emit a # tlink pre parts # emit b # rest))) (anchor (createHyperlink pre parts))"
    and "shows_text (fst (tseq (emit a # tlink pre parts # emit q # emit e # emit b # rest)))
      (anchor (createHyperlink pre parts @ q @ e))"
    and "shows_text (fst (tseq (emit a # tlink pre parts # emit q # emit e # emit q' # emit e' # emit b # rest)))
      (anchor (createHyperlink pre parts @ q @ e @ q' @ e'))"
  using anchor_between [OF assms, of "createHyperlink pre parts"]
    anchor_between [OF assms, of "createHyperlink pre parts @ q @ e"]
    anchor_between [OF assms, of "createHyperlink pre parts @ q @ e @ q' @ e'"]
  by (simp_all add: tlink_def fst_tseq_emit)

lemma shows_nth:
  "snd (tseq rs) \<Longrightarrow> k < length rs \<Longrightarrow> shows_text (fst (rs ! k)) s \<Longrightarrow> shows_text (fst (tseq rs)) s"
  by (rule shows_tseq) auto

lemma shows_framed: "shows_text body s \<Longrightarrow> shows_text (framed title body) s"
  unfolding framed_def by (intro shows_append)

lemma dquote_char: "dquote = CHR 0x22"
  by code_simp

lemmas anchor_ends = opens_def closes_def anchor_open_def dquote_char

lemma ref_lines_anchor:
  assumes "r \<in> set refs"
  shows "shows_text (fst (ref_lines pre kind refs)) (anchor (createHyperlink pre [PStr kind, PInt64 (cr_id r)]))"
  using ref_lines_finish(1) [of pre kind refs] assms unfolding ref_lines_def
  by (rule shows_trange) (rule anchor_shown(1); simp add: anchor_ends)

section \<open>Links that are served\<close>

lemma page_href_plain: "page_query pg = [] \<Longrightarrow> createHyperlink pre (page_link pg) = page_href pre pg"
  by (simp add: page_href_def)

text \<open>What a handler mounted under a good prefix serves for its own links.\<close>

lemma link_served:
  assumes "chi_ok m" and "hasPrefix p [slash]" and "plain_prefix p"
    and "CreateHandlerWithDialOpts m p = (pre, Some mux)" and "page_named pg"
  shows "get m mux (page_href pre pg) = Served pg"
  using link_reaches [OF assms(1,2,5,3)] assms(4) by auto

section \<open>The channel page\<close>

lemma channel_page_anchors:
  assumes "resp_channel d = Some c" and "complete_channel c" and "r \<in> set refs"
    and "(kind, refs) \<in> {(''subchannel'', ch_subchannels c), (''channel'', ch_channels c), (''socket'', ch_sockets c)}"
  shows "shows_text (fst (channelTemplate pre pr d)) (anchor (createHyperlink pre [PStr kind, PInt64 (cr_id r)]))"
proof -
  have fin: "snd (channelTemplate pre pr d)" using assms(1,2) by (auto simp: channelTemplate_finishes)
  note line = ref_lines_anchor [OF assms(3), of pre kind]
  consider "kind = ''subchannel''" "refs = ch_subchannels c" | "kind = ''channel''" "refs = ch_channels c"
    | "kind = ''socket''" "refs = ch_sockets c" using assms(4) by blast
  then show ?thesis
  proof cases
    case 1
    show ?thesis using fin unfolding channelTemplate_def
      by (rule shows_nth [where k = 11]) (use line 1 assms(1) in \<open>simp_all add: need_def\<close>)
  next
    case 2
    show ?thesis using fin unfolding channelTemplate_def
      by (rule shows_nth [where k = 13]) (use line 2 assms(1) in \<open>simp_all add: need_def\<close>)
  next
    case 3
    show ?thesis using fin unfolding channelTemplate_def
      by (rule shows_nth [where k = 15]) (use line 3 assms(1) in \<open>simp_all add: need_def\<close>)
  qed
qed

lemma channel_page_xds_anchor:
  assumes "resp_channel d = Some c" and "complete_channel c" and "ch_ref c = Some r" and "ch_data c = Some x"
    and "isXdsTarget (cd_target x)"
  shows "shows_text (fst (channelTemplate pre pr d)) (anchor (createHyperlink pre [PStr ''xds'', PStr ''vhost'', PInt64 (cr_id r)]))"
proof -
  have fin: "snd (channelTemplate pre pr d)" using assms(1,2) by (auto simp: channelTemplate_finishes)
  show ?thesis unfolding channelTemplate_def
    by (rule shows_nth [where k = 9, OF fin [unfolded channelTemplate_def]], simp,
        simp add: need_def tif_def assms(1,3-5), rule anchor_shown(1)) (simp_all add: anchor_ends)
qed

text \<open>
  C8. The channel page leads on: for a channel with all its parts, the page holds an anchor for each of
  its subchannels, child channels and sockets, and for its xDS configuration when its target is an xDS
  target, and a GET of each of them is served the page of that very identifier. The handler is mounted
  under a plain prefix that starts with a slash.
\<close>

theorem channel_page_links:
  assumes "chi_ok m" and "hasPrefix p [slash]" and "plain_prefix p"
    and "CreateHandlerWithDialOpts m p = (pre, Some mux)"
    and "getChannel gd rpc s i = (s', Ret (Some d))" and "resp_channel d = Some c"
    and "complete_channel c" and "ch_ref c = Some ref" and "ch_data c = Some x"
  shows "\<exists>page. WriteChannelPage gd rpc pre pr s i = (s', Ret page) \<and>
    (\<forall>(refs, pg) \<in> {(ch_subchannels c, SubchannelPage), (ch_channels c, ChannelPage), (ch_sockets c, SocketPage)}.
       \<forall>r\<in>set refs. \<exists>href. shows_text page (anchor href) \<and> get m mux href = Served (pg (cr_id r))) \<and>
    (isXdsTarget (cd_target x) \<longrightarrow>
       (\<exists>href. shows_text page (anchor href) \<and> get m mux href = Served (XdsVirtualHostsPage (cr_id ref))))"
proof -
  let ?body = "fst (channelTemplate pre pr d)"
  let ?page = "framed (''ChannelZ channel '' @ formatInt i) ?body"
  have written: "WriteChannelPage gd rpc pre pr s i = (s', Ret ?page)"
    using assms(5) by (simp add: WriteChannelPage_def executed_def)
  note served = link_served [OF assms(1-4)]
  have refs: "\<exists>href. shows_text ?page (anchor href) \<and> get m mux href = Served pg"
    if "r \<in> set refs" "page_named pg" "page_query pg = []" "page_link pg = [PStr kind, PInt64 (cr_id r)]"
      "(kind, refs) \<in> {(''subchannel'', ch_subchannels c), (''channel'', ch_channels c), (''socket'', ch_sockets c)}"
    for r refs pg kind
  proof (intro exI conjI)
    show "get m mux (page_href pre pg) = Served pg" using that(2) by (rule served)
    show "shows_text ?page (anchor (page_href pre pg))"
      using channel_page_anchors [OF assms(6,7) that(1,5), of pre pr] page_href_plain [OF that(3), of pre]
      by (simp add: shows_framed that(4))
  qed
  have xds: "\<exists>href. shows_text ?page (anchor href) \<and> get m mux href = Served (XdsVirtualHostsPage (cr_id ref))"
    if "isXdsTarget (cd_target x)"
  proof (intro exI conjI)
    show "get m mux (page_href pre (XdsVirtualHostsPage (cr_id ref))) = Served (XdsVirtualHostsPage (cr_id ref))"
      by (rule served) simp
    show "shows_text ?page (anchor (page_href pre (XdsVirtualHostsPage (cr_id ref))))"
      using channel_page_xds_anchor [OF assms(6-9) that, of pre pr]
      by (simp add: shows_framed page_href_def)
  qed
  have "\<exists>href. shows_text ?page (anchor href) \<and> get m mux href = Served (SubchannelPage (cr_id r))"
    if "r \<in> set (ch_subchannels c)" for r
    using that by (rule refs [where kind = "''subchannel''"]) simp_all
  moreover have "\<exists>href. shows_text ?page (anchor href) \<and> get m mux href = Served (ChannelPage (cr_id r))"
    if "r \<in> set (ch_channels c)" for r
    using that by (rule refs [where kind = "''channel''"]) simp_all
  moreover have "\<exists>href. shows_text ?page (anchor href) \<and> get m mux href = Served (SocketPage (cr_id r))"
    if "r \<in> set (ch_sockets c)" for r
    using that by (rule refs [where kind = "''socket''"]) simp_all
  ultimately show ?thesis using written xds by (intro exI [of _ ?page]) simp
qed

section \<open>The cluster page\<close>

lemma cluster_pool_line_anchor:
  "shows_text (fst (cluster_pool_line pre d q))
     (anchor (createHyperlink pre [PStr ''channel'', PInt64 (xc_ChannelID d), PStr ''pool''] @
       ''?addr='' @ queryEscape (pr_Address q) @ ''&cluster='' @ queryEscape (xc_ClusterName d)))"
  unfolding cluster_pool_line_def by (rule anchor_shown(3)) (simp_all add: anchor_ends)

lemma unmatched_line_anchor:
  "shows_text (fst (unmatched_line pre u)) (anchor (createHyperlink pre [PStr ''subchannel'', PInt64 (us_SubchannelID u)]))"
  unfolding unmatched_line_def by (rule anchor_shown(1)) (simp_all add: anchor_ends)

lemma endpoint_line_anchor:
  assumes "er_SubchannelID e \<noteq> 0"
  shows "shows_text (fst (endpoint_line pre pr d e)) (anchor (createHyperlink pre [PStr ''subchannel'', PInt64 (er_SubchannelID e)]))"
proof -
  have fin: "snd (endpoint_line pre pr d e)" by (rule cluster_parts_finish)
  show ?thesis unfolding endpoint_line_def
    by (rule shows_nth [where k = 7, OF fin [unfolded endpoint_line_def]], simp,
        simp add: tif_def assms split del: if_split, rule anchor_shown(1)) (simp_all add: anchor_ends)
qed

lemma getXdsCluster_known:
  assumes "gm_get (clusters (newXdsResources lib cc)) clusterName = Some c"
  shows "xc_Cluster (getXdsCluster lib u ord (Inr cc) maps channelID clusterName) = Some c"
    and "xc_ChannelID (getXdsCluster lib u ord (Inr cc) maps channelID clusterName) = channelID"
    and "xc_ClusterName (getXdsCluster lib u ord (Inr cc) maps channelID clusterName) = clusterName"
  using assms
  by (simp_all add: getXdsCluster_def cluster_page_def empty_cluster_page_def Let_def split: prod.splits)

lemma cluster_page_shows:
  assumes "gm_get (clusters (newXdsResources lib cc)) clusterName = Some c"
    and "shows_text (fst (cluster_body pre pr (getXdsCluster lib u ord (Inr cc) maps channelID clusterName) c)) s"
  shows "shows_text (WriteXdsClusterPage pre pr lib u yaml ord (Inr cc) maps channelID clusterName) s"
proof -
  let ?d = "getXdsCluster lib u ord (Inr cc) maps channelID clusterName"
  have fin: "snd (xdsClusterTemplate pre pr ?d)" by (rule xds_templates_finish)
  have "shows_text (fst (xdsClusterTemplate pre pr ?d)) s" unfolding xdsClusterTemplate_def
    by (rule shows_nth [where k = 9, OF fin [unfolded xdsClusterTemplate_def]], simp,
        simp add: twith_def getXdsCluster_known(1) [OF assms(1)] assms(2))
  then show ?thesis unfolding WriteXdsClusterPage_def Let_def by (intro shows_append)
qed

lemma cluster_body_shows:
  shows "xc_Pools d \<noteq> [] \<Longrightarrow> shows_text (fst (cluster_pools pre d)) s \<Longrightarrow> shows_text (fst (cluster_body pre pr d c)) s"
    and "xc_Localities d \<noteq> [] \<Longrightarrow> shows_text (fst (cluster_localities pre pr d)) s \<Longrightarrow> shows_text (fst (cluster_body pre pr d c)) s"
    and "xc_UnmatchedSubchannels d \<noteq> [] \<Longrightarrow> shows_text (fst (cluster_unmatched pre d)) s \<Longrightarrow> shows_text (fst (cluster_body pre pr d c)) s"
proof -
  have fin: "snd (cluster_body pre pr d c)" by (rule cluster_body_finishes)
  note fin = fin [unfolded cluster_body_def]
  show "xc_Pools d \<noteq> [] \<Longrightarrow> shows_text (fst (cluster_pools pre d)) s \<Longrightarrow> shows_text (fst (cluster_body pre pr d c)) s"
    unfolding cluster_body_def by (rule shows_nth [where k = 11, OF fin], simp, simp add: tif_def)
  show "xc_Localities d \<noteq> [] \<Longrightarrow> shows_text (fst (cluster_localities pre pr d)) s \<Longrightarrow> shows_text (fst (cluster_body pre pr d c)) s"
    unfolding cluster_body_def by (rule shows_nth [where k = 15, OF fin], simp, simp add: tif_def)
  show "xc_UnmatchedSubchannels d \<noteq> [] \<Longrightarrow> shows_text (fst (cluster_unmatched pre d)) s \<Longrightarrow> shows_text (fst (cluster_body pre pr d c)) s"
    unfolding cluster_body_def by (rule shows_nth [where k = 17, OF fin], simp, simp add: tif_def)
qed

lemma cluster_sections_show:
  shows "q \<in> set (xc_Pools d) \<Longrightarrow> shows_text (fst (cluster_pool_line pre d q)) s \<Longrightarrow> shows_text (fst (cluster_pools pre d)) s"
    and "u \<in> set (xc_UnmatchedSubchannels d) \<Longrightarrow> shows_text (fst (unmatched_line pre u)) s \<Longrightarrow>
      shows_text (fst (cluster_unmatched pre d)) s"
proof -
  have fin: "snd (cluster_pools pre d)" "snd (cluster_unmatched pre d)" by (rule cluster_sections_finish)+
  show "q \<in> set (xc_Pools d) \<Longrightarrow> shows_text (fst (cluster_pool_line pre d q)) s \<Longrightarrow> shows_text (fst (cluster_pools pre d)) s"
    unfolding cluster_pools_def
    by (rule shows_nth [where k = 1, OF fin(1) [unfolded cluster_pools_def]], simp, simp)
      (rule shows_trange, simp_all add: finishes)
  show "u \<in> set (xc_UnmatchedSubchannels d) \<Longrightarrow> shows_text (fst (unmatched_line pre u)) s \<Longrightarrow>
      shows_text (fst (cluster_unmatched pre d)) s"
    unfolding cluster_unmatched_def
    by (rule shows_nth [where k = 3, OF fin(2) [unfolded cluster_unmatched_def]], simp, simp)
      (rule shows_trange, simp_all add: finishes)
qed

lemma cluster_localities_show:
  assumes "g \<in> set (xc_Localities d)" and "e \<in> set (lg_Rows g)" and "shows_text (fst (endpoint_line pre pr d e)) s"
  shows "shows_text (fst (cluster_localities pre pr d)) s"
proof -
  have fin: "snd (cluster_localities pre pr d)" by (rule cluster_sections_finish)
  show ?thesis unfolding cluster_localities_def
    by (rule shows_nth [where k = 3, OF fin [unfolded cluster_localities_def]], simp, simp,
        rule shows_trange [OF _ assms(1)], simp add: finishes,
        rule shows_nth [where k = 11], simp add: finishes, simp, simp,
        rule shows_trange [OF _ assms(2)], simp add: finishes, rule assms(3))
qed

text \<open>
  C9. The cluster page leads on: for a cluster in the dump it holds, for every pool it lists, an anchor
  to the page of that pool, with the same channel, address and cluster whatever letters they have, and,
  for every endpoint with a subchannel and every unmatched subchannel, an anchor to the page of that
  subchannel; a GET of each of them is served that page. The handler is mounted under a plain prefix that
  starts with a slash.
\<close>

theorem cluster_page_links:
  assumes "chi_ok m" and "hasPrefix p [slash]" and "plain_prefix p"
    and "CreateHandlerWithDialOpts m p = (pre, Some mux)"
    and "gm_get (clusters (newXdsResources lib cc)) name = Some c" and "name \<noteq> []"
  shows "let d = getXdsCluster lib u ord (Inr cc) maps i name;
      page = WriteXdsClusterPage pre pr lib u yaml ord (Inr cc) maps i name;
      leads = (\<lambda>pg. \<exists>href. shows_text page (anchor href) \<and> get m mux href = Served pg)
    in (\<forall>q\<in>set (xc_Pools d). leads (SubchannelPoolPage i (pr_Address q) name)) \<and>
       (\<forall>g\<in>set (xc_Localities d). \<forall>e\<in>set (lg_Rows g). er_SubchannelID e \<noteq> 0 \<longrightarrow> leads (SubchannelPage (er_SubchannelID e))) \<and>
       (\<forall>s\<in>set (xc_UnmatchedSubchannels d). leads (SubchannelPage (us_SubchannelID s)))"
proof -
  define d where "d = getXdsCluster lib u ord (Inr cc) maps i name"
  let ?page = "WriteXdsClusterPage pre pr lib u yaml ord (Inr cc) maps i name"
  note served = link_served [OF assms(1-4)]
  note shown = cluster_page_shows [OF assms(5), of pre pr u ord maps i _ yaml, folded d_def]
  note parts = getXdsCluster_known [OF assms(5), of u ord maps i, folded d_def]
  have leads: "\<exists>href. shows_text ?page (anchor href) \<and> get m mux href = Served pg"
    if "page_named pg" "shows_text ?page (anchor (page_href pre pg))" for pg
    using served [OF that(1)] that(2) by blast
  have "\<exists>href. shows_text ?page (anchor href) \<and> get m mux href = Served (SubchannelPoolPage i (pr_Address q) name)"
    if "q \<in> set (xc_Pools d)" for q
  proof (rule leads)
    have "shows_text (fst (cluster_pool_line pre d q)) (anchor (page_href pre (SubchannelPoolPage i (pr_Address q) name)))"
      using cluster_pool_line_anchor [of pre d q] assms(6) by (simp add: page_href_def pool_query_def parts)
    then show "shows_text ?page (anchor (page_href pre (SubchannelPoolPage i (pr_Address q) name)))"
      by (intro shown cluster_body_shows(1) cluster_sections_show(1) [OF that]) (use that in auto)
  qed simp
  moreover have "\<exists>href. shows_text ?page (anchor href) \<and> get m mux href = Served (SubchannelPage (er_SubchannelID e))"
    if "g \<in> set (xc_Localities d)" "e \<in> set (lg_Rows g)" "er_SubchannelID e \<noteq> 0" for g e
  proof (rule leads)
    show "shows_text ?page (anchor (page_href pre (SubchannelPage (er_SubchannelID e))))"
      using endpoint_line_anchor [OF that(3), of pre pr d]
      by (intro shown cluster_body_shows(2) cluster_localities_show [OF that(1,2)]) (use that in \<open>auto simp: page_href_def\<close>)
  qed simp
  moreover have "\<exists>href. shows_text ?page (anchor href) \<and> get m mux href = Served (SubchannelPage (us_SubchannelID s))"
    if "s \<in> set (xc_UnmatchedSubchannels d)" for s
  proof (rule leads)
    show "shows_text ?page (anchor (page_href pre (SubchannelPage (us_SubchannelID s))))"
      using unmatched_line_anchor [of pre s]
      by (intro shown cluster_body_shows(3) cluster_sections_show(2) [OF that]) (use that in \<open>auto simp: page_href_def\<close>)
  qed simp
  ultimately show ?thesis by (simp only: Let_def d_def) blast
qed

section \<open>The channels page\<close>

text \<open>
  What the channelz service documents for a request of top channels: those at or above the start
  identifier, in ascending order and at most so many, and whether that is all.
\<close>

definition chan_id :: "channel_msg \<Rightarrow> int64" where
  "chan_id c = ref_id (ch_ref c)"

definition channels_from :: "nat \<Rightarrow> channel_msg list \<Rightarrow> int64 \<Rightarrow> top_channels_response" where
  "channels_from k chans start =
     (let rest = filter (\<lambda>c. sint start \<le> sint (chan_id c)) chans
      in \<lparr>top_channels = take k rest, top_end = (length rest \<le> k)\<rparr>)"

lemma channels_from_last:
  assumes "sorted_wrt (\<lambda>a b. sint (chan_id a) < sint (chan_id b)) chans" and "0 < k"
    and "\<not> top_end (channels_from k chans start)"
  defines "d \<equiv> channels_from k chans start"
  defines "i \<equiv> chan_id (last (top_channels d))"
  shows "top_channels d \<noteq> []" and "top_channels (channels_from k chans i) \<noteq> []"
    and "hd (top_channels (channels_from k chans i)) = last (top_channels d)"
    and "k = 1 \<Longrightarrow> channels_from k chans i = d"
proof -
  let ?rest = "filter (\<lambda>c. sint start \<le> sint (chan_id c)) chans"
  let ?less = "\<lambda>a b. sint (chan_id a) < sint (chan_id b)"
  obtain j where j: "k = Suc j" using assms(2) gr0_implies_Suc by blast
  have len: "k < length ?rest" using assms(3) by (simp add: channels_from_def Let_def)
  define c where "c = ?rest ! j"
  have split: "?rest = take j ?rest @ c # drop k ?rest"
    using len unfolding c_def j by (intro id_take_nth_drop) simp
  have d: "top_channels d = take j ?rest @ [c]"
    using len unfolding d_def j c_def by (simp add: channels_from_def Let_def take_Suc_conv_app_nth)
  then have i: "i = chan_id c" by (simp add: i_def)
  have sorted: "sorted_wrt ?less ?rest" using assms(1) by (rule sorted_wrt_filter)
  have "c \<in> set ?rest" using len unfolding c_def j by (intro nth_mem) simp
  then have "sint start \<le> sint i" by (simp add: i)
  then have "filter (\<lambda>c. sint i \<le> sint (chan_id c)) chans = filter (\<lambda>c. sint i \<le> sint (chan_id c)) ?rest"
    by (auto simp: filter_filter intro: filter_cong)
  also have "\<dots> = filter (\<lambda>c. sint i \<le> sint (chan_id c)) (take j ?rest @ c # drop k ?rest)"
    using split by simp
  also have "\<dots> = c # drop k ?rest"
  proof -
    have "sorted_wrt ?less (take j ?rest @ c # drop k ?rest)" using sorted split by simp
    then have "\<forall>x\<in>set (take j ?rest). sint (chan_id x) < sint i" "\<forall>x\<in>set (drop k ?rest). sint i < sint (chan_id x)"
      by (auto simp: sorted_wrt_append i)
    then have "filter (\<lambda>c. sint i \<le> sint (chan_id c)) (take j ?rest) = []"
      "filter (\<lambda>c. sint i \<le> sint (chan_id c)) (drop k ?rest) = drop k ?rest"
      by (fastforce simp: filter_empty_conv, fastforce simp: filter_id_conv)
    then show ?thesis by (simp add: i)
  qed
  finally have following: "channels_from k chans i = \<lparr>top_channels = take k (c # drop k ?rest), top_end = (length (c # drop k ?rest) \<le> k)\<rparr>"
    by (simp only: channels_from_def Let_def)
  show "top_channels d \<noteq> []" by (simp add: d)
  show "top_channels (channels_from k chans i) \<noteq> []" "hd (top_channels (channels_from k chans i)) = last (top_channels d)"
    unfolding following by (simp_all add: d j)
  show "channels_from k chans i = d" if "k = 1"
  proof -
    have "channels_from k chans start = \<lparr>top_channels = take k ?rest, top_end = (length ?rest \<le> k)\<rparr>"
      by (simp only: channels_from_def Let_def)
    then show ?thesis
      using len d that unfolding following d_def [symmetric] by (simp add: d_def j)
  qed
qed

text \<open>
  C30. The link to the next channels goes back by one: where the service answers as documented and more
  channels follow, the page of a list holds a link that is served the list from its last channel on,
  which that channel heads again; with one channel to an answer it is the same list, so the link never
  leads to the second channel. The channels have all their parts, so the page reaches its link, and the
  handler is mounted under a plain prefix that starts with a slash.
\<close>

theorem next_link_repeats:
  assumes "chi_ok m" and "hasPrefix p [slash]" and "plain_prefix p"
    and "CreateHandlerWithDialOpts m p = (pre, Some mux)"
    and "getTopChannels gd rpc s start = (s', Ret (Some (channels_from k chans start)))"
    and "sorted_wrt (\<lambda>a b. sint (chan_id a) < sint (chan_id b)) chans" and "0 < k"
    and "\<forall>c\<in>set chans. complete_channel c" and "\<not> top_end (channels_from k chans start)"
  shows "let d = channels_from k chans start; i = chan_id (last (top_channels d)); following = channels_from k chans i
    in (\<exists>page href. WriteChannelsPage gd rpc pre pr s start = (s', Ret page) \<and> shows_text page (anchor href) \<and>
          get m mux href = Served (ChannelsPage i)) \<and>
       hd (top_channels following) = last (top_channels d) \<and> (k = 1 \<longrightarrow> following = d)"
proof -
  let ?d = "channels_from k chans start"
  let ?i = "chan_id (last (top_channels ?d))"
  note last = channels_from_last [OF assms(6,7,9)]
  have sub: "set (top_channels ?d) \<subseteq> set chans" by (auto simp: channels_from_def Let_def dest: in_set_takeD)
  then have complete: "\<forall>c\<in>set (top_channels ?d). complete_channel c" using assms(8) by blast
  then have "complete_channel (last (top_channels ?d))" using last(1) by simp
  then obtain r where r: "ch_ref (last (top_channels ?d)) = Some r" by (auto simp: complete_channel_def)
  then have i: "?i = cr_id r" by (simp add: chan_id_def ref_id_def)
  have start: "last_start ?d = emit (formatInt ?i)"
    using last(1) r i by (simp add: last_start_def need_def tint_def)
  have fin: "snd (channelsTemplate pre pr ?d)" using complete last(1) by (simp add: channelsTemplate_finishes)
  have "shows_text (fst (next_line pre ?d)) (anchor (createHyperlink pre [PStr ''channels''] @ ''?start='' @ formatInt ?i))"
    unfolding next_line_def start by (rule anchor_shown(2)) (simp_all add: anchor_ends)
  then have "shows_text (fst (channelsTemplate pre pr ?d)) (anchor (createHyperlink pre [PStr ''channels''] @ ''?start='' @ formatInt ?i))"
    unfolding channelsTemplate_def
    by - (rule shows_nth [where k = 10, OF fin [unfolded channelsTemplate_def]], simp, simp add: tif_def assms(9))
  then have "shows_text (framed ''Channels'' (fst (channelsTemplate pre pr ?d))) (anchor (page_href pre (ChannelsPage ?i)))"
    by (simp add: shows_framed page_href_def)
  moreover have "WriteChannelsPage gd rpc pre pr s start = (s', Ret (framed ''Channels'' (fst (channelsTemplate pre pr ?d))))"
    using assms(5) by (simp add: WriteChannelsPage_def writeChannels_def executed_def)
  moreover have "get m mux (page_href pre (ChannelsPage ?i)) = Served (ChannelsPage ?i)"
    by (rule link_served [OF assms(1-4)]) simp
  ultimately show ?thesis using last(3,4) by (simp only: Let_def) blast
qed

section \<open>What comes from the address\<close>

lemma header_heading: "\<exists>u v. writeHeader title = u @ ''<h1>'' @ title @ ''</h1>'' @ v"
proof -
  have "header_between_titles = take (length header_between_titles - 4) header_between_titles @ ''<h1>''"
    by (simp add: header_between_titles_def)
  moreover have "header_after_title = ''</h1>'' @ drop 5 header_after_title"
    by (simp add: header_after_title_def)
  ultimately show ?thesis
    unfolding writeHeader_def by (metis append_assoc)
qed

lemma heading_shown:
  "shows_text (writeHeader (t @ n @ t' @ t'') @ rest) (''<h1>'' @ t @ n @ t')"
  "shows_text (writeHeader (t @ n) @ rest) (''<h1>'' @ t @ n @ ''</h1>'')"
proof -
  obtain u v where "writeHeader (t @ n @ t' @ t'') = u @ ''<h1>'' @ (t @ n @ t' @ t'') @ ''</h1>'' @ v"
    using header_heading by blast
  then have "writeHeader (t @ n @ t' @ t'') @ rest = u @ (''<h1>'' @ t @ n @ t') @ t'' @ ''</h1>'' @ v @ rest" by simp
  then show "shows_text (writeHeader (t @ n @ t' @ t'') @ rest) (''<h1>'' @ t @ n @ t')"
    unfolding shows_text_def by blast
  obtain u v where "writeHeader (t @ n) = u @ ''<h1>'' @ (t @ n) @ ''</h1>'' @ v" using header_heading by blast
  then have "writeHeader (t @ n) @ rest = u @ (''<h1>'' @ t @ n @ ''</h1>'') @ v @ rest" by simp
  then show "shows_text (writeHeader (t @ n) @ rest) (''<h1>'' @ t @ n @ ''</h1>'')"
    unfolding shows_text_def by blast
qed

text \<open>
  C31. The pages repeat their address as it is: a link with a cluster or virtual host name that is a
  clean path of printable letters without a question mark, hash or percent sign, or with any pool address
  at all, is served a page with that text inserted between the tags of the heading, angle brackets
  included, whatever the target knows. The handler is mounted under a plain prefix that starts with a
  slash.
\<close>

theorem heading_repeats_address:
  assumes "chi_ok m" and "hasPrefix p [slash]" and "plain_prefix p"
    and "CreateHandlerWithDialOpts m p = (pre, Some mux)" and "path_name n" and "plain_name n"
  shows "get m mux (page_href pre (XdsClusterPage i n)) = Served (XdsClusterPage i n) \<and>
    shows_text (WriteXdsClusterPage pre pr lib u yaml ord cfg maps i n) (''<h1>xDS Cluster '' @ n @ '' (channel '') \<and>
    get m mux (page_href pre (XdsVirtualHostPage i n)) = Served (XdsVirtualHostPage i n) \<and>
    shows_text (WriteXdsVirtualHostPage pre lib u yaml vord ch cfg tops i n) (''<h1>xDS VirtualHost '' @ n @ ''</h1>'') \<and>
    get m mux (page_href pre (SubchannelPoolPage i a c)) = Served (SubchannelPoolPage i a c) \<and>
    shows_text (WriteSubchannelPoolPage pre lib cfg maps i a c) (''<h1>ChannelZ subchannel pool '' @ a @ '' (channel '')"
proof -
  note served = link_served [OF assms(1-4)]
  have "get m mux (page_href pre (XdsClusterPage i n)) = Served (XdsClusterPage i n)"
    "get m mux (page_href pre (XdsVirtualHostPage i n)) = Served (XdsVirtualHostPage i n)"
    "get m mux (page_href pre (SubchannelPoolPage i a c)) = Served (SubchannelPoolPage i a c)"
    using assms(5,6) by (auto intro!: served)
  moreover have "shows_text (WriteXdsClusterPage pre pr lib u yaml ord cfg maps i n) (''<h1>xDS Cluster '' @ n @ '' (channel '')"
    using heading_shown(1) [of "''xDS Cluster ''" n "'' (channel ''" "formatInt i @ '')''"]
    by (simp add: WriteXdsClusterPage_def Let_def)
  moreover have "shows_text (WriteXdsVirtualHostPage pre lib u yaml vord ch cfg tops i n) (''<h1>xDS VirtualHost '' @ n @ ''</h1>'')"
    using heading_shown(2) [of "''xDS VirtualHost ''" n] by (simp add: WriteXdsVirtualHostPage_def Let_def)
  moreover have "shows_text (WriteSubchannelPoolPage pre lib cfg maps i a c) (''<h1>ChannelZ subchannel pool '' @ a @ '' (channel '')"
    using heading_shown(1) [of "''ChannelZ subchannel pool ''" a "'' (channel ''" "formatInt i @ '')''"]
    by (simp add: WriteSubchannelPoolPage_def)
  ultimately show ?thesis by blast
qed

section \<open>A sample target\<close>

text \<open>A handler with a set client, and a target whose channels have all their parts and are listed
  one at a time.\<close>

definition sample_state :: "world \<times> handler" where
  "sample_state = (new_world, (new_handler '':50051'')\<lparr>h_client := Some Injected\<rparr>)"

definition full_channel :: "int64 \<Rightarrow> channel_msg" where
  "full_channel i = \<lparr>ch_ref = Some \<lparr>cr_id = i, cr_name = ''orders''\<rparr>,
     ch_data = Some \<lparr>cd_state = Some 2, cd_target = ''xds:///orders'', cd_calls_started = 0, cd_calls_succeeded = 0,
       cd_calls_failed = 0, cd_trace = Some \<lparr>tr_creation = None, tr_events = []\<rparr>, cd_last_call = None\<rparr>,
     ch_subchannels = [\<lparr>cr_id = 3, cr_name = []\<rparr>], ch_channels = [], ch_sockets = []\<rparr>"

definition two_channels :: "channel_msg list" where
  "two_channels = [full_channel 1, full_channel 9]"

definition sample_rpcs :: "(servers_response, server_response, unit socket_response, unit) rpcs" where
  "sample_rpcs =
     \<lparr>rpc_GetChannel = (\<lambda>_ i. Inr \<lparr>resp_channel = Some (full_channel i)\<rparr>),
      rpc_GetSubchannel = (\<lambda>_ _. Inl ''not found''),
      rpc_GetTopChannels = (\<lambda>_ start. Inr (channels_from 1 two_channels start)),
      rpc_GetServers = (\<lambda>_. Inr \<lparr>resp_servers = []\<rparr>), rpc_GetServer = (\<lambda>_ _. Inl ''not found''),
      rpc_GetSocket = (\<lambda>_ _. Inl ''not found''), rpc_FetchClientStatus = (\<lambda>_. Inl ''unimplemented'')\<rparr>"

lemma sample_foo:
  "CreateHandlerWithDialOpts first_match ''/foo'' = (''/foo/channelz/'', Some ''/foo/channelz/'')"
  "hasPrefix ''/foo'' [slash]" "plain_prefix ''/foo''"
proof -
  have "mount_prefix ''/foo'' = ''/foo/channelz/''"
    by (subst mount_prefix_rooted) (simp_all add: slash_def clean_segs_def clean_step_def)
  then show "CreateHandlerWithDialOpts first_match ''/foo'' = (''/foo/channelz/'', Some ''/foo/channelz/'')"
    by (simp add: CreateHandlerWithDialOpts_def createRouter_def first_match_def slash_def)
qed (simp_all add: slash_def plain_prefix_def printable_def)

lemma sample_get_channel:
  "getChannel (\<lambda>_. None) sample_rpcs sample_state i = (sample_state, Ret (Some \<lparr>resp_channel = Some (full_channel i)\<rparr>))"
  by (simp add: getChannel_def fetch_def connect_def connect_service_def injectedClient_def stub_of_def
      sample_state_def sample_rpcs_def new_handler_def)

lemma sample_get_top:
  "getTopChannels (\<lambda>_. None) sample_rpcs sample_state i = (sample_state, Ret (Some (channels_from 1 two_channels i)))"
  by (simp add: getTopChannels_def fetch_def connect_def connect_service_def injectedClient_def stub_of_def
      sample_state_def sample_rpcs_def new_handler_def)

lemma full_channel_complete: "complete_channel (full_channel i)"
  by (simp add: complete_channel_def full_channel_def)

section \<open>The properties at the sample\<close>

theorem channel_page_links_witness:
  "\<exists>page href. WriteChannelPage (\<lambda>_. None) sample_rpcs ''/foo/channelz/'' sample_printers sample_state 1 = (sample_state, Ret page) \<and>
    shows_text page (anchor href) \<and> get first_match ''/foo/channelz/'' href = Served (SubchannelPage 3)"
proof -
  obtain ref x where "ch_ref (full_channel 1) = Some ref" "ch_data (full_channel 1) = Some x"
    by (simp add: full_channel_def)
  from channel_page_links [OF first_match_ok sample_foo(2,3,1) sample_get_channel _ full_channel_complete this,
      of 1 sample_printers]
  obtain page where "WriteChannelPage (\<lambda>_. None) sample_rpcs ''/foo/channelz/'' sample_printers sample_state 1 = (sample_state, Ret page)"
    "\<forall>r\<in>set (ch_subchannels (full_channel 1)). \<exists>href. shows_text page (anchor href) \<and>
       get first_match ''/foo/channelz/'' href = Served (SubchannelPage (cr_id r))"
    by auto
  moreover have "ch_subchannels (full_channel 1) = [\<lparr>cr_id = 3, cr_name = []\<rparr>]" by (simp add: full_channel_def)
  ultimately show ?thesis by auto
qed

theorem cluster_page_links_witness:
  "let page = WriteXdsClusterPage ''/foo/channelz/'' sample_printers sample_lib ascii_only (\<lambda>_. Inr []) plain_orders
       (Inr (Some sample_config)) (subchannelsByAddress sample_lib rev sample_channel sample_sub) 1 ''edge''
   in (\<exists>href. shows_text page (anchor href) \<and>
         get first_match ''/foo/channelz/'' href = Served (SubchannelPoolPage 1 ''10.0.0.1:80'' ''edge'')) \<and>
      (\<exists>href. shows_text page (anchor href) \<and> get first_match ''/foo/channelz/'' href = Served (SubchannelPage 11))"
proof -
  define page where "page = WriteXdsClusterPage ''/foo/channelz/'' sample_printers sample_lib ascii_only (\<lambda>_. Inr []) plain_orders
       (Inr (Some sample_config)) (subchannelsByAddress sample_lib rev sample_channel sample_sub) 1 ''edge''"
  have links: "\<forall>q\<in>set (xc_Pools sample_page). \<exists>href. shows_text page (anchor href) \<and>
      get first_match ''/foo/channelz/'' href = Served (SubchannelPoolPage 1 (pr_Address q) ''edge'')"
    "\<forall>v\<in>set (xc_UnmatchedSubchannels sample_page). \<exists>href. shows_text page (anchor href) \<and>
      get first_match ''/foo/channelz/'' href = Served (SubchannelPage (us_SubchannelID v))"
    using cluster_page_links [OF first_match_ok sample_foo(2,3,1) sample_edge, of ascii_only plain_orders
      "subchannelsByAddress sample_lib rev sample_channel sample_sub" 1 sample_printers "\<lambda>_. Inr []"]
    unfolding Let_def page_def [symmetric] sample_page_def [symmetric] by simp_all
  obtain q v where "q \<in> set (xc_Pools sample_page)" "pr_Address q = ''10.0.0.1:80''"
    "v \<in> set (xc_UnmatchedSubchannels sample_page)" "us_SubchannelID v = 11"
    using sample_page_rows by (auto simp: map_eq_Cons_conv)
  then have "\<exists>href. shows_text page (anchor href) \<and>
      get first_match ''/foo/channelz/'' href = Served (SubchannelPoolPage 1 ''10.0.0.1:80'' ''edge'')"
    "\<exists>href. shows_text page (anchor href) \<and> get first_match ''/foo/channelz/'' href = Served (SubchannelPage 11)"
    using bspec [OF links(1), of q] bspec [OF links(2), of v] by simp_all
  then show ?thesis unfolding Let_def page_def [symmetric] by (rule conjI)
qed

lemma two_channels_at_1: "channels_from 1 two_channels 0 = \<lparr>top_channels = [full_channel 1], top_end = False\<rparr>"
  by (simp add: channels_from_def two_channels_def chan_id_def ref_id_def full_channel_def)

theorem next_link_repeats_witness:
  "\<exists>page href. WriteChannelsPage (\<lambda>_. None) sample_rpcs ''/foo/channelz/'' sample_printers sample_state 0 = (sample_state, Ret page) \<and>
    shows_text page (anchor href) \<and> get first_match ''/foo/channelz/'' href = Served (ChannelsPage 1) \<and>
    channels_from 1 two_channels 1 = channels_from 1 two_channels 0"
proof -
  have "chan_id (full_channel i) = i" for i by (simp add: chan_id_def ref_id_def full_channel_def)
  moreover from this have "sorted_wrt (\<lambda>a b. sint (chan_id a) < sint (chan_id b)) two_channels" by (simp add: two_channels_def)
  moreover have "\<forall>c\<in>set two_channels. complete_channel c" by (simp add: two_channels_def full_channel_complete)
  ultimately show ?thesis
    using next_link_repeats [OF first_match_ok sample_foo(2,3,1) sample_get_top, of 0 sample_printers]
    by (simp add: two_channels_at_1 Let_def del: One_nat_def)
qed

theorem heading_repeats_address_witness:
  "let a = ''<script>alert(1)</script>'' in
    get first_match ''/foo/channelz/'' (page_href ''/foo/channelz/'' (SubchannelPoolPage 7 a [])) = Served (SubchannelPoolPage 7 a []) \<and>
    shows_text (WriteSubchannelPoolPage ''/foo/channelz/'' sample_lib (Inr (Some sample_config)) (gm_empty, gm_empty) 7 a [])
      (''<h1>ChannelZ subchannel pool '' @ a @ '' (channel '')"
proof -
  have "path_name ''<i>edge''" "plain_name ''<i>edge''"
    by (simp_all add: path_name_def plain_name_def printable_def clean_seg_def slash_def)
  then show ?thesis
    using heading_repeats_address [OF first_match_ok sample_foo(2,3,1), where n = "''<i>edge''" and i = 7 and c = "[]"
        and lib = sample_lib and cfg = "Inr (Some sample_config)" and maps = "(gm_empty, gm_empty)"]
    unfolding Let_def by blast
qed

end
