(* ===== verification/Spec2Isabelle.thy ===== *)
theory Spec2Isabelle
  imports Interleaving Reflection Cmd Links
begin

text \<open>
  A verification library for go-grpc-channelz: a web handler that shows, as HTML pages, what the
  channelz service and the client status discovery service (CSDS) of one gRPC target know.

  \<^bold>\<open>The program.\<close> \<^verbatim>\<open>CreateHandlerWithDialOpts\<close> (\<^verbatim>\<open>handler.go\<close>) makes one handler for one target and
  mounts its eleven routes under a prefix (\<^verbatim>\<open>routes.go\<close>). A request is routed to a page writer, which
  fetches over a connection shared by all requests (\<^verbatim>\<open>client.go\<close>), computes page data and executes a
  text template (\<^verbatim>\<open>templates.go\<close> and the page files). The xDS pages join three sources: the CSDS dump,
  decoded into maps of resources (\<^verbatim>\<open>xds.go\<close>), the subchannels of a channel, fetched by a pool of
  workers (\<^verbatim>\<open>xds-cluster-page.go\<close>), and message types fetched over the target's reflection service
  (\<^verbatim>\<open>xds_reflection_resolver.go\<close>), with which the raw messages are dumped. \<^verbatim>\<open>cmd/channelz-ui\<close> serves
  such a handler as a command.

  \<^bold>\<open>The layers.\<close>
  \<^item> \<open>Prelude\<close>, \<open>Steps\<close>: machine words, Go maps (locale \<open>keyed_store\<close>), \<^verbatim>\<open>sort.Slice\<close> (locale
    \<open>slice_order\<close>: whatever algorithm sorts, a total order on the elements fixes the result), step
    relations with an invariant and a measure (locales \<open>invariant_system\<close>, \<open>terminating_system\<close>).
  \<^item> \<open>GoStrings\<close>, \<open>GoPath\<close>, \<open>GoText\<close>, \<open>GoNet\<close>, \<open>GoTime\<close>, \<open>Url\<close>: what the program uses of the packages
    strconv, strings, path, fmt, html, unicode/utf8, net, time and net/url, written as functions on byte
    strings. Unicode tables beyond the facts used are an argument (\<open>unicode_tables\<close>).
  \<^item> \<open>Proto\<close>: the messages the program reads, one record per message with the fields that are read; an
    absent message is \<open>None\<close> and a getter chain is \<open>opt\<close>. Decoding an Any is an argument (\<open>proto_lib\<close>).

  \<^bold>\<open>The components.\<close>
  \<^item> \<open>Client\<close> (\<^verbatim>\<open>client.go\<close>, the \<^verbatim>\<open>get...\<close> functions of the page files): the handler's fields as a
    record, the connections dialed and closed so far as the world; each locked region is one function,
    \<^verbatim>\<open>dial\<close> whole. \<open>Interleaving\<close> runs any number of requests as sequences of these regions: the
    accounting of connections is an invariant of every interleaving, what a request that runs alone is
    given is proved, and so is the interleaving that hands out a nil client.
  \<^item> \<open>Xds\<close>, \<open>LbPolicy\<close> (\<^verbatim>\<open>xds.go\<close>, the first part of \<^verbatim>\<open>xds-cluster-page.go\<close>): targets, addresses, the
    resource maps and policy names, each with what it computes in terms of its inputs.
  \<^item> \<open>Subchannels\<close>, \<open>WorkerPool\<close> (\<^verbatim>\<open>subchannelsByAddress\<close>): first as a function of the order in which the
    results arrive, then as a step relation with one step per send, receive and close. Every run of the
    relation ends, none is stuck early, and a finished run has computed the function for its order.
  \<^item> \<open>Pools\<close>, \<open>ClusterPage\<close>, \<open>Attribution\<close> (\<^verbatim>\<open>pool-page.go\<close>, \<^verbatim>\<open>getXdsCluster\<close>): the loops in the order of
    the source, every range over a map with its own order of iteration as an argument. The lemmas say
    which subchannel is shown where, and that no order of arrival or iteration changes the page.
  \<^item> \<open>Vhost\<close> (\<^verbatim>\<open>xds-vhost-page.go\<close>): the dial-time virtual host and the sections of the page.
  \<^item> \<open>Reflection\<close> (\<^verbatim>\<open>xds_reflection_resolver.go\<close>): lookups over the stream, registration of files after
    their imports, the invariant of the two registries, termination for acyclic imports, and that the
    files of a cycle are never registered.
  \<^item> \<open>Routes\<close> (\<^verbatim>\<open>routes.go\<close>, \<^verbatim>\<open>handler.go\<close>): routes as patterns over path segments, identifiers as
    \<^verbatim>\<open>strconv.ParseInt\<close> takes them, links as \<^verbatim>\<open>path.Join\<close> makes them.
  \<^item> \<open>Render\<close>, \<open>Template\<close>, \<open>Pages\<close>, \<open>XdsPages\<close> (\<^verbatim>\<open>templates.go\<close>, the templates and writers of the page
    files): executing a template gives the text written and whether its end was reached. \<open>Pages\<close> holds
    the pages over channelz, \<open>XdsPages\<close> those of clusters, virtual hosts and pools.
  \<^item> \<open>Links\<close> joins the two: the anchors a page holds and the pages a GET of them is served.
  \<^item> \<open>Cmd\<close> (\<^verbatim>\<open>cmd/channelz-ui/main.go\<close>): startup from the flags to the serving loop.
  \<^item> \<open>Sample\<close>: one concrete target, on which the properties are instantiated.

  \<^bold>\<open>Outside the repository\<close>, and arguments of the definitions: \<^verbatim>\<open>grpc.Dial\<close>, the state of a connection
  and the RPCs; the chi router, of which \<open>chi_ok\<close> says what is relied on for prefixes that end in a
  slash (a path that fits one pattern and no other goes to that route); the protobuf runtime and the printing of its values; the YAML
  marshaller; the reflection server. RPCs return, with an answer or an error. A server answer is a function of the request within one lookup.

  \<^bold>\<open>Bounds and fuel.\<close> Identifiers and counters are 64-bit words, ports and weights 32-bit words; sums wrap.
  \<^verbatim>\<open>ParseInt\<close> with bit size 0 takes 64-bit numbers, as on the platforms the program is built for.
  \<^verbatim>\<open>registerFileDescriptor\<close> recurses along what the server declares, so it takes fuel: \<open>resolution_returns\<close>
  gives an amount that is enough whenever the imports have no cycle, and \<open>import_cycle_diverges\<close> shows
  that no amount registers a file of a cycle, and none is enough where only registered imports come
  before the cycle's. Everything else is total.

  \<^bold>\<open>Not modelled.\<close> Addresses with percent signs, spaces or control letters (a client sends them encoded,
  and the router then sees the encoded or the decoded path); how a browser reads the HTML; the text of
  log lines but those stated; lookups of one resolver at the same time (each exchange on the stream is
  locked, a lookup as a whole is not); the finders of extensions, which only ask the runtime; the parsing
  of templates.
  The xDS page writers take the answers of their RPCs as arguments instead of the connection. The demo
  programs, the generated service and the package comment hold no logic of the library.
\<close>

end
